(* ===== verification/Go_Prelude.thy ===== *)
theory Go_Prelude
  imports Main "HOL-Library.Char_ord" "HOL-Library.List_Lexorder" "HOL-Library.Sublist"
begin

text \<open>
  The part of Go's standard library and the generic list lemmas that the components of
  wavefront share.

  A Go \<open>string\<close> is a byte sequence, which is what the Isabelle type \<^typ>\<open>string\<close> is
  (\<^typ>\<open>char\<close> is a byte).  The functions below model the calls the sources make of
  packages \<open>strings\<close>, \<open>strconv\<close> and \<open>sort\<close>.  A Go \<open>(value, error)\<close> result is a sum whose left
  side is the error; \<open>sbind\<close> is the early return \<open>if err != nil { return nil, err }\<close>.
\<close>

section \<open>Results\<close>

named_theorems result_simps \<open>rewriting of results: early returns\<close>

fun sbind :: "'e + 'a \<Rightarrow> ('a \<Rightarrow> 'e + 'b) \<Rightarrow> 'e + 'b" where
  "sbind (Inl e) f = Inl e"
| "sbind (Inr x) f = f x"

lemma sbind_eq_Inr [result_simps]: "sbind m f = Inr y \<longleftrightarrow> (\<exists>x. m = Inr x \<and> f x = Inr y)"
  by (cases m) auto

lemma sbind_eq_Inl [result_simps]:
  "sbind m f = Inl e \<longleftrightarrow> m = Inl e \<or> (\<exists>x. m = Inr x \<and> f x = Inl e)"
  by (cases m) auto

lemma sbind_assoc: "sbind (sbind m f) g = sbind m (\<lambda>x. sbind (f x) g)"
  by (cases m) auto

lemma sbind_Inr_right [simp]: "sbind m Inr = m"
  by (cases m) auto

lemma sbind_cong [fundef_cong]:
  "m = m' \<Longrightarrow> (\<And>x. m' = Inr x \<Longrightarrow> f x = g x) \<Longrightarrow> sbind m f = sbind m' g"
  by (cases m') auto

text \<open>A loop over a slice that stops at the first error: each element is replaced, or
  folded into a state.\<close>

fun smap :: "('a \<Rightarrow> 'e + 'b) \<Rightarrow> 'a list \<Rightarrow> 'e + 'b list" where
  "smap f [] = Inr []"
| "smap f (x # xs) = sbind (f x) (\<lambda>y. sbind (smap f xs) (\<lambda>ys. Inr (y # ys)))"

fun sfold :: "('s \<Rightarrow> 'a \<Rightarrow> 'e + 's) \<Rightarrow> 's \<Rightarrow> 'a list \<Rightarrow> 'e + 's" where
  "sfold f s [] = Inr s"
| "sfold f s (x # xs) = sbind (f s x) (\<lambda>s'. sfold f s' xs)"

lemma smap_cong [fundef_cong]:
  "xs = ys \<Longrightarrow> (\<And>x. x \<in> set ys \<Longrightarrow> f x = g x) \<Longrightarrow> smap f xs = smap g ys"
  by (induction ys arbitrary: xs) (auto intro!: sbind_cong)

lemma sfold_append: "sfold f s (xs @ ys) = sbind (sfold f s xs) (\<lambda>s'. sfold f s' ys)"
  by (induction xs arbitrary: s) (auto simp: sbind_assoc)

lemma sfold_invariant:
  assumes "sfold f s xs = Inr s'" and "P s"
    and "\<And>s x s'. x \<in> set xs \<Longrightarrow> P s \<Longrightarrow> f s x = Inr s' \<Longrightarrow> P s'"
  shows "P s'"
  using assms
proof (induction xs arbitrary: s)
  case Nil
  then show ?case by simp
next
  case (Cons x xs)
  from Cons.prems(1) obtain t where t: "f s x = Inr t" "sfold f t xs = Inr s'"
    by (auto simp: result_simps)
  have "P t" by (rule Cons.prems(3) [OF _ Cons.prems(2) t(1)]) simp
  then show ?case
    using Cons.IH [OF t(2)] Cons.prems(3) by (metis list.set_intros(2))
qed

lemma smap_eq_Inr_iff:
  "smap f xs = Inr ys \<longleftrightarrow> list_all2 (\<lambda>x y. f x = Inr y) xs ys"
proof (induction xs arbitrary: ys)
  case Nil
  then show ?case by auto
next
  case (Cons x xs)
  then show ?case by (cases ys) (auto simp: result_simps)
qed

lemma smap_Inr_length: "smap f xs = Inr ys \<Longrightarrow> length ys = length xs"
  by (simp add: smap_eq_Inr_iff list_all2_lengthD)

lemma smap_Inr_mem:
  "smap f xs = Inr ys \<Longrightarrow> y \<in> set ys \<Longrightarrow> \<exists>x \<in> set xs. f x = Inr y"
  by (fastforce simp: smap_eq_Inr_iff list_all2_conv_all_nth in_set_conv_nth)

lemma smap_Inl_mem: "smap f xs = Inl e \<Longrightarrow> \<exists>x \<in> set xs. f x = Inl e"
  by (induction xs) (auto simp: result_simps)

lemma smap_total: "(\<And>x. x \<in> set xs \<Longrightarrow> \<exists>y. f x = Inr y) \<Longrightarrow> \<exists>ys. smap f xs = Inr ys"
proof (induction xs)
  case Nil
  then show ?case by simp
next
  case (Cons x xs)
  from Cons.prems obtain y where "f x = Inr y" by auto
  moreover from Cons obtain ys where "smap f xs = Inr ys" by auto
  ultimately show ?case by simp
qed

section \<open>Package strings\<close>

text \<open>\<open>strings.HasPrefix\<close> is \<^const>\<open>prefix\<close>; \<open>strings.HasSuffix\<close>, \<open>strings.Contains\<close>,
  \<open>strings.ContainsAny\<close>:\<close>

definition has_suffix :: "string \<Rightarrow> string \<Rightarrow> bool" where
  "has_suffix suf s = prefix (rev suf) (rev s)"

fun str_contains :: "string \<Rightarrow> string \<Rightarrow> bool" where
  "str_contains s sub = (prefix sub s \<or> (case s of [] \<Rightarrow> False | _ # s' \<Rightarrow> str_contains s' sub))"

definition contains_any :: "string \<Rightarrow> char list \<Rightarrow> bool" where
  "contains_any s cs = list_ex (\<lambda>c. c \<in> set cs) s"

declare str_contains.simps [simp del]

lemma str_contains_simps [simp]:
  "str_contains [] sub = (sub = [])"
  "str_contains (c # s) sub = (prefix sub (c # s) \<or> str_contains s sub)"
  by (subst str_contains.simps, simp)+

lemma str_contains_sublist: "str_contains s sub \<longleftrightarrow> sublist sub s"
  by (induction s) (auto simp: sublist_Cons_right)

lemma has_suffix_iff: "has_suffix suf s \<longleftrightarrow> suffix suf s"
  by (simp add: has_suffix_def suffix_to_prefix)

lemma has_suffix_append: "has_suffix suf (s @ suf)"
  by (simp add: has_suffix_iff suffix_def)

lemma contains_any_iff: "contains_any s cs \<longleftrightarrow> set s \<inter> set cs \<noteq> {}"
  by (auto simp: contains_any_def list_ex_iff)

text \<open>\<open>strings.Split\<close> with a one-byte separator, and \<open>strings.Join\<close>.  Splitting the empty
  string gives one empty piece.\<close>

fun split_on :: "char \<Rightarrow> string \<Rightarrow> string list" where
  "split_on c [] = [[]]"
| "split_on c (x # xs) =
     (if x = c then [] # split_on c xs
      else (case split_on c xs of [] \<Rightarrow> [[x]] | p # ps \<Rightarrow> (x # p) # ps))"

fun join_with :: "string \<Rightarrow> string list \<Rightarrow> string" where
  "join_with sep [] = []"
| "join_with sep [x] = x"
| "join_with sep (x # y # ys) = x @ sep @ join_with sep (y # ys)"

lemma split_on_not_Nil [simp]: "split_on c s \<noteq> []"
  by (induction s) (auto split: list.splits)

lemma join_with_Cons: "xs \<noteq> [] \<Longrightarrow> join_with sep (x # xs) = x @ sep @ join_with sep xs"
  by (cases xs) auto

lemma join_split: "join_with [c] (split_on c s) = s"
proof (induction s)
  case Nil
  then show ?case by simp
next
  case (Cons x xs)
  obtain p ps where ps: "split_on c xs = p # ps"
    by (meson neq_Nil_conv split_on_not_Nil)
  with Cons show ?case
    by (cases ps) (auto simp: join_with_Cons)
qed

lemma split_on_no_sep: "c \<notin> set s \<Longrightarrow> split_on c s = [s]"
  by (induction s) auto

lemma split_on_append: "c \<notin> set s \<Longrightarrow> split_on c (s @ c # t) = s # split_on c t"
  by (induction s) auto

lemma split_join:
  "xs \<noteq> [] \<Longrightarrow> (\<And>x. x \<in> set xs \<Longrightarrow> c \<notin> set x) \<Longrightarrow> split_on c (join_with [c] xs) = xs"
  by (induction xs rule: induct_list012) (auto simp: split_on_no_sep split_on_append)

lemma split_on_mem: "p \<in> set (split_on c s) \<Longrightarrow> c \<notin> set p"
  by (induction s arbitrary: p) (auto split: if_splits list.splits)

lemma set_join_with: "set (join_with sep xs) \<subseteq> \<Union> (set ` set xs) \<union> set sep"
  by (induction xs rule: induct_list012) auto

text \<open>\<open>strings.Cut(s, "=")\<close>: the text before and after the first separator.\<close>

fun str_cut :: "char \<Rightarrow> string \<Rightarrow> string \<times> string \<times> bool" where
  "str_cut c [] = ([], [], False)"
| "str_cut c (x # xs) =
     (if x = c then ([], xs, True) else (case str_cut c xs of (a, b, f) \<Rightarrow> (x # a, b, f)))"

text \<open>\<open>strings.TrimRight(s, "/")\<close>.\<close>

definition trim_right_char :: "char \<Rightarrow> string \<Rightarrow> string" where
  "trim_right_char c s = rev (dropWhile (\<lambda>x. x = c) (rev s))"

text \<open>\<open>strings.TrimSpace\<close>: the white space of Unicode, in its UTF-8 encoding.\<close>

definition space_runes :: "string list" where
  "space_runes =
     [[CHR 0x09], [CHR 0x0A], [CHR 0x0B], [CHR 0x0C], [CHR 0x0D], [CHR 0x20],
      [CHR 0xC2, CHR 0x85], [CHR 0xC2, CHR 0xA0], [CHR 0xE1, CHR 0x9A, CHR 0x80]] @
     map (\<lambda>c. [CHR 0xE2, CHR 0x80, c])
       [CHR 0x80, CHR 0x81, CHR 0x82, CHR 0x83, CHR 0x84, CHR 0x85, CHR 0x86, CHR 0x87,
        CHR 0x88, CHR 0x89, CHR 0x8A, CHR 0xA8, CHR 0xA9, CHR 0xAF] @
     [[CHR 0xE2, CHR 0x81, CHR 0x9F], [CHR 0xE3, CHR 0x80, CHR 0x80]]"

fun strip_one :: "string list \<Rightarrow> string \<Rightarrow> string option" where
  "strip_one [] s = None"
| "strip_one (r # rs) s =
     (if r \<noteq> [] \<and> prefix r s then Some (drop (length r) s) else strip_one rs s)"

lemma strip_one_shorter: "strip_one rs s = Some s' \<Longrightarrow> length s' < length s"
  by (induction rs) (auto split: if_splits simp: prefix_def)

function trim_left_runes :: "string list \<Rightarrow> string \<Rightarrow> string" where
  "trim_left_runes rs s = (case strip_one rs s of None \<Rightarrow> s | Some s' \<Rightarrow> trim_left_runes rs s')"
  by pat_completeness auto
termination
  by (relation "measure (\<lambda>(rs, s). length s)") (auto dest: strip_one_shorter)

declare trim_left_runes.simps [simp del]

definition trim_space :: "string \<Rightarrow> string" where
  "trim_space s =
     rev (trim_left_runes (map rev space_runes) (rev (trim_left_runes space_runes s)))"

lemma trim_left_runes_stop: "strip_one rs (trim_left_runes rs s) = None"
proof (induction rs s rule: trim_left_runes.induct)
  case (1 rs s)
  then show ?case
    by (subst trim_left_runes.simps) (auto split: option.splits)
qed

lemma trim_left_runes_id: "strip_one rs s = None \<Longrightarrow> trim_left_runes rs s = s"
  by (subst trim_left_runes.simps) simp

lemma strip_one_suffix: "strip_one rs s = Some s' \<Longrightarrow> suffix s' s"
  by (induction rs) (auto split: if_splits simp: suffix_drop)

lemma trim_left_runes_suffix: "suffix (trim_left_runes rs s) s"
proof (induction rs s rule: trim_left_runes.induct)
  case (1 rs s)
  then show ?case
    by (subst trim_left_runes.simps)
      (auto split: option.splits dest: strip_one_suffix intro: suffix_order.trans)
qed

lemma strip_one_None_prefix:
  "strip_one rs (s @ t) = None \<Longrightarrow> strip_one rs s = None"
  by (induction rs) (auto split: if_splits)

lemma trim_space_idem: "trim_space (trim_space s) = trim_space s"
proof -
  let ?l = "trim_left_runes space_runes s"
  have pre: "prefix (trim_space s) ?l"
    unfolding trim_space_def
    by (metis rev_rev_ident suffix_to_prefix trim_left_runes_suffix)
  then obtain t where "?l = trim_space s @ t" by (auto simp: prefix_def)
  then have "strip_one space_runes (trim_space s) = None"
    by (metis strip_one_None_prefix trim_left_runes_stop)
  then have l: "trim_left_runes space_runes (trim_space s) = trim_space s"
    by (rule trim_left_runes_id)
  have "trim_left_runes (map rev space_runes) (rev (trim_space s)) = rev (trim_space s)"
    unfolding trim_space_def by (simp add: trim_left_runes_id trim_left_runes_stop)
  with l show ?thesis
    by (metis rev_rev_ident trim_space_def)
qed

text \<open>\<open>strings.ToUpper\<close> and \<open>strings.ToLower\<close>: the ASCII letters, and the four non-ASCII
  letters whose upper or lower case is ASCII (U+0131, U+017F; U+0130, U+212A).  Other
  non-ASCII letters are left as they are: the callers compare the result with ASCII words.\<close>

definition upper_char :: "char \<Rightarrow> char" where
  "upper_char c =
     (if 97 \<le> (of_char c :: nat) \<and> (of_char c :: nat) \<le> 122 then char_of ((of_char c :: nat) - 32) else c)"

definition lower_char :: "char \<Rightarrow> char" where
  "lower_char c =
     (if 65 \<le> (of_char c :: nat) \<and> (of_char c :: nat) \<le> 90 then char_of ((of_char c :: nat) + 32) else c)"

fun to_upper :: "string \<Rightarrow> string" where
  "to_upper [] = []"
| "to_upper (c # d # s) =
     (if c = CHR 0xC4 \<and> d = CHR 0xB1 then CHR ''I'' # to_upper s
      else if c = CHR 0xC5 \<and> d = CHR 0xBF then CHR ''S'' # to_upper s
      else upper_char c # to_upper (d # s))"
| "to_upper [c] = [upper_char c]"

fun to_lower :: "string \<Rightarrow> string" where
  "to_lower [] = []"
| "to_lower (c # d # s) =
     (if c = CHR 0xC4 \<and> d = CHR 0xB0 then CHR ''i'' # to_lower s
      else if c = CHR 0xE2 \<and> d = CHR 0x84 \<and> s \<noteq> [] \<and> hd s = CHR 0xAA
        then CHR ''k'' # to_lower (tl s)
      else lower_char c # to_lower (d # s))"
| "to_lower [c] = [lower_char c]"

section \<open>Package strconv\<close>

text \<open>\<open>strconv.Atoi\<close> and \<open>strconv.ParseInt(s, 10, 64)\<close>: an optional sign, decimal digits, and
  a value that fits 64 bits (\<open>int\<close> is 64 bits wide on every platform wavefront ships for).\<close>

definition is_digit :: "char \<Rightarrow> bool" where
  "is_digit c = (48 \<le> (of_char c :: nat) \<and> (of_char c :: nat) \<le> 57)"

definition digit_val :: "char \<Rightarrow> nat" where
  "digit_val c = of_char c - 48"

definition digits_val :: "string \<Rightarrow> nat" where
  "digits_val s = foldl (\<lambda>n c. 10 * n + digit_val c) 0 s"

definition int64_max :: int where "int64_max = 9223372036854775807"
definition int64_min :: int where "int64_min = - 9223372036854775808"

definition fits_int64 :: "int \<Rightarrow> bool" where
  "fits_int64 n = (int64_min \<le> n \<and> n \<le> int64_max)"

definition unsigned_digits :: "string \<Rightarrow> nat option" where
  "unsigned_digits s = (if s \<noteq> [] \<and> list_all is_digit s then Some (digits_val s) else None)"

definition check_int64 :: "int \<Rightarrow> int option" where
  "check_int64 n = (if fits_int64 n then Some n else None)"

fun atoi :: "string \<Rightarrow> int option" where
  "atoi [] = None"
| "atoi (c # s) =
     (if c = CHR ''-'' then
        (case unsigned_digits s of None \<Rightarrow> None | Some n \<Rightarrow> check_int64 (- int n))
      else if c = CHR ''+'' then
        (case unsigned_digits s of None \<Rightarrow> None | Some n \<Rightarrow> check_int64 (int n))
      else
        (case unsigned_digits (c # s) of None \<Rightarrow> None | Some n \<Rightarrow> check_int64 (int n)))"

text \<open>\<open>strconv.Itoa\<close> and \<open>strconv.FormatInt(n, 10)\<close>.\<close>

definition digit_char :: "nat \<Rightarrow> char" where
  "digit_char n = char_of (48 + n)"

fun nat_digits :: "nat \<Rightarrow> string" where
  "nat_digits n = (if n < 10 then [digit_char n] else nat_digits (n div 10) @ [digit_char (n mod 10)])"

declare nat_digits.simps [simp del]

definition itoa :: "int \<Rightarrow> string" where
  "itoa n = (if n < 0 then CHR ''-'' # nat_digits (nat (- n)) else nat_digits (nat n))"

lemma of_char_digit_char: "n < 10 \<Longrightarrow> (of_char (digit_char n) :: nat) = 48 + n"
  by (simp add: digit_char_def)

lemma is_digit_digit_char [simp]: "n < 10 \<Longrightarrow> is_digit (digit_char n)"
  by (simp add: is_digit_def of_char_digit_char)

lemma digit_val_digit_char [simp]: "n < 10 \<Longrightarrow> digit_val (digit_char n) = n"
  by (simp add: digit_val_def of_char_digit_char)

lemma nat_digits_ne [simp]: "nat_digits n \<noteq> []"
  by (subst nat_digits.simps) simp

lemma nat_digits_all: "list_all is_digit (nat_digits n)"
proof (induction n rule: nat_digits.induct)
  case (1 n)
  then show ?case by (subst nat_digits.simps) auto
qed

lemma digits_val_snoc: "digits_val (s @ [c]) = 10 * digits_val s + digit_val c"
  by (simp add: digits_val_def)

lemma digits_val_nat_digits [simp]: "digits_val (nat_digits n) = n"
proof (induction n rule: nat_digits.induct)
  case (1 n)
  show ?case
  proof (cases "n < 10")
    case True
    then show ?thesis by (subst nat_digits.simps) (simp add: digits_val_def)
  next
    case False
    with 1 show ?thesis by (subst nat_digits.simps) (simp add: digits_val_snoc)
  qed
qed

lemma unsigned_digits_nat_digits [simp]: "unsigned_digits (nat_digits n) = Some n"
  by (simp add: unsigned_digits_def nat_digits_all)

lemma is_digit_not_sign [simp]: "\<not> is_digit CHR ''-''" "\<not> is_digit CHR ''+''"
  by (simp_all add: is_digit_def)

lemma nat_digits_head: "nat_digits n = c # s \<Longrightarrow> is_digit c"
  by (metis list.pred_inject(2) nat_digits_all)

lemma atoi_itoa: "fits_int64 n \<Longrightarrow> atoi (itoa n) = Some n"
proof (cases "n < 0")
  case True
  moreover assume "fits_int64 n"
  ultimately show ?thesis by (simp add: itoa_def check_int64_def)
next
  case False
  assume f: "fits_int64 n"
  obtain c s where cs: "nat_digits (nat n) = c # s"
    by (meson neq_Nil_conv nat_digits_ne)
  then have "is_digit c" by (rule nat_digits_head)
  then have "c \<noteq> CHR ''-''" "c \<noteq> CHR ''+''" by auto
  moreover have "unsigned_digits (c # s) = Some (nat n)"
    using unsigned_digits_nat_digits [of "nat n"] by (simp add: cs)
  ultimately show ?thesis
    using False f by (simp add: itoa_def check_int64_def cs)
qed

lemma atoi_fits: "atoi s = Some n \<Longrightarrow> fits_int64 n"
  by (cases s) (auto simp: check_int64_def split: if_splits option.splits)

lemma nat_digits_inj: "nat_digits m = nat_digits n \<Longrightarrow> m = n"
  by (metis digits_val_nat_digits)

section \<open>Lists\<close>

text \<open>A range over a slice with an early \<open>return\<close> of the first match is \<^const>\<open>find\<close>.\<close>

lemma find_Some_D: "find P xs = Some x \<Longrightarrow> x \<in> set xs \<and> P x"
  by (auto simp: find_Some_iff in_set_conv_nth)

lemma find_None_D: "find P xs = None \<Longrightarrow> x \<in> set xs \<Longrightarrow> \<not> P x"
  by (auto simp: find_None_iff)

lemma find_unique_perm:
  assumes "\<And>x y. x \<in> set xs \<Longrightarrow> y \<in> set xs \<Longrightarrow> P x \<Longrightarrow> P y \<Longrightarrow> x = y"
    and "set xs = set ys"
  shows "find P xs = find P ys"
proof (cases "find P xs")
  case None
  then have "find P ys = None"
    using assms(2) by (simp add: find_None_iff)
  with None show ?thesis by simp
next
  case (Some x)
  then have x: "x \<in> set xs" "P x" by (auto dest: find_Some_D)
  then have "find P ys \<noteq> None"
    using assms(2) by (auto simp: find_None_iff)
  then obtain y where y: "find P ys = Some y" by auto
  then have "y \<in> set xs" "P y" using assms(2) by (auto dest: find_Some_D)
  with x assms(1) have "x = y" by blast
  with Some y show ?thesis by simp
qed

end
