(* ===== verification/Go_Utf8.thy ===== *)
theory Go_Utf8
  imports Go_Prelude
begin

text \<open>
  UTF-8 as packages \<open>unicode/utf8\<close>, \<open>strings\<close> and \<open>strconv\<close> see it: the length of the first rune of
  a byte string, \<open>strings.ToValidUTF8\<close>, and the quoting of \<open>fmt\<close>'s \<open>%q\<close>.
\<close>

section \<open>Runes\<close>

text \<open>\<open>strings.ToValidUTF8(message, U+FFFD)\<close>: the length in bytes of the first rune of a
  string, 0 when the bytes there are no UTF-8 encoding; each maximal run of invalid bytes becomes
  one U+FFFD.\<close>

definition cont_byte :: "nat \<Rightarrow> nat \<Rightarrow> char \<Rightarrow> bool" where
  "cont_byte lo hi c = (lo \<le> (of_char c :: nat) \<and> (of_char c :: nat) \<le> hi)"

definition rune1 :: "char \<Rightarrow> bool" where
  "rune1 c = cont_byte 0x00 0x7F c"

definition rune2 :: "char \<Rightarrow> char \<Rightarrow> bool" where
  "rune2 c c1 = (cont_byte 0xC2 0xDF c \<and> cont_byte 0x80 0xBF c1)"

definition rune3 :: "char \<Rightarrow> char \<Rightarrow> char \<Rightarrow> bool" where
  "rune3 c c1 c2 =
     (cont_byte 0xE0 0xEF c
      \<and> cont_byte (if c = CHR 0xE0 then 0xA0 else 0x80) (if c = CHR 0xED then 0x9F else 0xBF) c1
      \<and> cont_byte 0x80 0xBF c2)"

definition rune4 :: "char \<Rightarrow> char \<Rightarrow> char \<Rightarrow> char \<Rightarrow> bool" where
  "rune4 c c1 c2 c3 =
     (cont_byte 0xF0 0xF4 c
      \<and> cont_byte (if c = CHR 0xF0 then 0x90 else 0x80) (if c = CHR 0xF4 then 0x8F else 0xBF) c1
      \<and> cont_byte 0x80 0xBF c2 \<and> cont_byte 0x80 0xBF c3)"

fun rune_len :: "string \<Rightarrow> nat" where
  "rune_len [] = 0"
| "rune_len [c] = (if rune1 c then 1 else 0)"
| "rune_len [c, c1] = (if rune1 c then 1 else if rune2 c c1 then 2 else 0)"
| "rune_len [c, c1, c2] =
     (if rune1 c then 1 else if rune2 c c1 then 2 else if rune3 c c1 c2 then 3 else 0)"
| "rune_len (c # c1 # c2 # c3 # s) =
     (if rune1 c then 1 else if rune2 c c1 then 2 else if rune3 c c1 c2 then 3
      else if rune4 c c1 c2 c3 then 4 else 0)"

lemma rune_len_le: "rune_len s \<le> length s"
  by (cases s rule: rune_len.cases) auto

definition replacement_rune :: string where
  "replacement_rune = [CHR 0xEF, CHR 0xBF, CHR 0xBD]"

function to_valid_utf8_from :: "bool \<Rightarrow> string \<Rightarrow> string" where
  "to_valid_utf8_from bad [] = []"
| "to_valid_utf8_from bad (c # s) =
     (if rune_len (c # s) = 0
      then (if bad then [] else replacement_rune) @ to_valid_utf8_from True s
      else take (rune_len (c # s)) (c # s) @ to_valid_utf8_from False (drop (rune_len (c # s)) (c # s)))"
  by pat_completeness auto
termination
  by (relation "measure (\<lambda>(bad, s). length s)") auto

definition to_valid_utf8 :: "string \<Rightarrow> string" where
  "to_valid_utf8 s = to_valid_utf8_from False s"

function valid_utf8 :: "string \<Rightarrow> bool" where
  "valid_utf8 [] = True"
| "valid_utf8 (c # s) =
     (if rune_len (c # s) = 0 then False else valid_utf8 (drop (rune_len (c # s)) (c # s)))"
  by pat_completeness auto
termination
  by (relation "measure length") auto

declare to_valid_utf8_from.simps [simp del] valid_utf8.simps [simp del]

lemma rune_len_1: "rune1 c \<Longrightarrow> rune_len (c # t) = 1"
  by (cases "c # t" rule: rune_len.cases) auto

lemma rune_len_2: "\<not> rune1 c \<Longrightarrow> rune2 c c1 \<Longrightarrow> rune_len (c # c1 # t) = 2"
  by (cases "c # c1 # t" rule: rune_len.cases) auto

lemma rune_len_3:
  "\<not> rune1 c \<Longrightarrow> \<not> rune2 c c1 \<Longrightarrow> rune3 c c1 c2 \<Longrightarrow> rune_len (c # c1 # c2 # t) = 3"
  by (cases "c # c1 # c2 # t" rule: rune_len.cases) auto

lemma rune_len_take:
  assumes "rune_len s \<noteq> 0"
  shows "rune_len (take (rune_len s) s @ t) = rune_len s"
  using assms
  by (cases s rule: rune_len.cases)
    (auto simp: rune_len_1 rune_len_2 rune_len_3 numeral_eq_Suc split: if_splits)

lemma valid_utf8_rune_append:
  assumes "rune_len s \<noteq> 0"
  shows "valid_utf8 (take (rune_len s) s @ t) = valid_utf8 t"
proof -
  from assms obtain c r where s: "s = c # r" by (cases s) auto
  then obtain c' r' where cr: "take (rune_len s) s @ t = c' # r'"
    using assms by (cases "rune_len s") auto
  have "drop (rune_len s) (take (rune_len s) s @ t) = t"
    using rune_len_le [of s] by simp
  then show ?thesis
    using assms rune_len_take [OF assms, of t] by (simp add: cr valid_utf8.simps)
qed

lemma valid_utf8_replacement: "valid_utf8 (replacement_rune @ t) = valid_utf8 t"
  using valid_utf8_rune_append [of replacement_rune t]
  by (simp add: replacement_rune_def rune1_def rune2_def rune3_def cont_byte_def)

lemma valid_to_valid_utf8_from: "valid_utf8 (to_valid_utf8_from bad s)"
proof (induction bad s rule: to_valid_utf8_from.induct)
  case (1 bad)
  then show ?case by (simp add: to_valid_utf8_from.simps valid_utf8.simps)
next
  case (2 bad c s)
  show ?case
  proof (cases "rune_len (c # s) = 0")
    case True
    with 2 show ?thesis
      by (subst to_valid_utf8_from.simps) (simp add: valid_utf8_replacement Let_def)
  next
    case False
    with 2 show ?thesis
      by (subst to_valid_utf8_from.simps) (simp add: Let_def valid_utf8_rune_append)
  qed
qed

lemma to_valid_utf8_from_id: "valid_utf8 s \<Longrightarrow> to_valid_utf8_from bad s = s"
proof (induction bad s rule: to_valid_utf8_from.induct)
  case (1 bad)
  then show ?case by (simp add: to_valid_utf8_from.simps)
next
  case (2 bad c s)
  then have "rune_len (c # s) \<noteq> 0" "valid_utf8 (drop (rune_len (c # s)) (c # s))"
    by (auto simp: valid_utf8.simps(2) split: if_splits)
  with 2 show ?case
    by (subst to_valid_utf8_from.simps) (simp add: Let_def)
qed

lemma valid_to_valid_utf8: "valid_utf8 (to_valid_utf8 s)"
  by (simp add: to_valid_utf8_def valid_to_valid_utf8_from)

lemma to_valid_utf8_id: "valid_utf8 s \<Longrightarrow> to_valid_utf8 s = s"
  by (simp add: to_valid_utf8_def to_valid_utf8_from_id)

section \<open>Quoting\<close>

text \<open>\<open>%q\<close> of a string (\<open>strconv.Quote\<close>): non-ASCII runes are taken to be printable, bytes that
  are no UTF-8 encoding are written as hexadecimal escapes.\<close>

definition hex_digit :: "nat \<Rightarrow> char" where
  "hex_digit n = ''0123456789abcdef'' ! n"

definition hex_byte :: "char \<Rightarrow> string" where
  "hex_byte c = [hex_digit ((of_char c :: nat) div 16), hex_digit ((of_char c :: nat) mod 16)]"

definition quote_ascii :: "char \<Rightarrow> string" where
  "quote_ascii c =
     (if c = CHR 0x22 then [CHR 0x5C, CHR 0x22]
      else if c = CHR 0x5C then [CHR 0x5C, CHR 0x5C]
      else if c = CHR 0x07 then CHR 0x5C # ''a''
      else if c = CHR 0x08 then CHR 0x5C # ''b''
      else if c = CHR 0x0C then CHR 0x5C # ''f''
      else if c = CHR 0x0A then CHR 0x5C # ''n''
      else if c = CHR 0x0D then CHR 0x5C # ''r''
      else if c = CHR 0x09 then CHR 0x5C # ''t''
      else if c = CHR 0x0B then CHR 0x5C # ''v''
      else if (of_char c :: nat) < 0x20 \<or> c = CHR 0x7F then CHR 0x5C # ''x'' @ hex_byte c
      else [c])"

function quote_runes :: "string \<Rightarrow> string" where
  "quote_runes [] = []"
| "quote_runes (c # s) =
     (if rune_len (c # s) = 0 then (CHR 0x5C # ''x'' @ hex_byte c) @ quote_runes s
      else if rune1 c then quote_ascii c @ quote_runes s
      else take (rune_len (c # s)) (c # s) @ quote_runes (drop (rune_len (c # s)) (c # s)))"
  by pat_completeness auto
termination
  by (relation "measure length") auto

declare quote_runes.simps [simp del]

definition go_quote :: "string \<Rightarrow> string" where
  "go_quote s = CHR 0x22 # quote_runes s @ [CHR 0x22]"

end
