(* ===== verification/Go_Flag.thy ===== *)
theory Go_Flag
  imports Go_Utf8
begin

text \<open>
  The part of package \<open>flag\<close> the commands use: a \<open>FlagSet\<close> with string and bool flags, error handling
  \<open>ContinueOnError\<close>, and what \<open>Parse\<close> writes to the output of the set.
\<close>

section \<open>Flag sets\<close>

datatype flag_kind = StringFlag | BoolFlag

record flag_def =
  fl_name :: string
  fl_kind :: flag_kind
  fl_usage :: string

record flag_set =
  fs_name :: string
  fs_flags :: "flag_def list"

datatype flag_value = FString string | FBool bool

text \<open>The values set so far; a flag that is not set has the zero value of its kind.\<close>

type_synonym flag_values = "string \<rightharpoonup> flag_value"

definition string_flag :: "flag_values \<Rightarrow> string \<Rightarrow> string" where
  "string_flag vals name = (case vals name of Some (FString s) \<Rightarrow> s | _ \<Rightarrow> '''')"

definition bool_flag :: "flag_values \<Rightarrow> string \<Rightarrow> bool" where
  "bool_flag vals name = (case vals name of Some (FBool b) \<Rightarrow> b | _ \<Rightarrow> False)"

definition lookup_flag :: "flag_set \<Rightarrow> string \<Rightarrow> flag_def option" where
  "lookup_flag fset name = find (\<lambda>f. fl_name f = name) (fs_flags fset)"

section \<open>Usage\<close>

text \<open>\<open>PrintDefaults\<close> for flags without a default and without a backquoted name in the usage.\<close>

definition flag_line :: "flag_def \<Rightarrow> string" where
  "flag_line f =
     (let head = ''  -'' @ fl_name f @ (case fl_kind f of StringFlag \<Rightarrow> '' string'' | BoolFlag \<Rightarrow> '''')
      in head @ (if length head \<le> 4 then [CHR 0x09] else [CHR 0x0A] @ ''    '' @ [CHR 0x09]) @ fl_usage f @ [CHR 0x0A])"

definition usage_text :: "flag_set \<Rightarrow> string" where
  "usage_text fset = ''Usage of '' @ fs_name fset @ '':'' @ [CHR 0x0A] @
     concat (map flag_line (sort_key fl_name (fs_flags fset)))"

section \<open>Parse\<close>

datatype flag_error = ErrHelp | FlagError string

text \<open>The text a failing \<open>Parse\<close> has written.\<close>

fun flag_output :: "flag_set \<Rightarrow> flag_error \<Rightarrow> string" where
  "flag_output fset ErrHelp = usage_text fset"
| "flag_output fset (FlagError msg) = msg @ [CHR 0x0A] @ usage_text fset"

definition parse_bool :: "string \<Rightarrow> bool option" where
  "parse_bool s =
     (if s \<in> set [''1'', ''t'', ''T'', ''TRUE'', ''true'', ''True''] then Some True
      else if s \<in> set [''0'', ''f'', ''F'', ''FALSE'', ''false'', ''False''] then Some False else None)"

text \<open>The name and, after an equals sign that is not the first character, the value.\<close>

definition cut_value :: "string \<Rightarrow> string \<times> string option" where
  "cut_value name =
     (let n = hd name # takeWhile (\<lambda>c. c \<noteq> CHR ''='') (tl name) in
        (n, if length n < length name then Some (drop (Suc (length n)) name) else None))"

datatype parsed =
    Stop "string list"                          \<comment> \<open>no flag here: the arguments that are left\<close>
  | Refused flag_error
  | Seen "string list" flag_values

definition set_flag :: "flag_def \<Rightarrow> string option \<Rightarrow> string list \<Rightarrow> flag_values \<Rightarrow> parsed" where
  "set_flag f value rest vals =
     (case fl_kind f of
        BoolFlag \<Rightarrow>
          (case value of
             None \<Rightarrow> Seen rest (vals(fl_name f \<mapsto> FBool True))
           | Some v \<Rightarrow>
               (case parse_bool v of
                  None \<Rightarrow> Refused (FlagError (''invalid boolean value '' @ go_quote v @ '' for -'' @ fl_name f @
                                      '': parse error''))
                | Some b \<Rightarrow> Seen rest (vals(fl_name f \<mapsto> FBool b))))
      | StringFlag \<Rightarrow>
          (case value of
             Some v \<Rightarrow> Seen rest (vals(fl_name f \<mapsto> FString v))
           | None \<Rightarrow>
               (case rest of
                  [] \<Rightarrow> Refused (FlagError (''flag needs an argument: -'' @ fl_name f))
                | v # rest' \<Rightarrow> Seen rest' (vals(fl_name f \<mapsto> FString v)))))"

definition parse_one :: "flag_set \<Rightarrow> string list \<Rightarrow> flag_values \<Rightarrow> parsed" where
  "parse_one fset args vals =
     (case args of
        [] \<Rightarrow> Stop []
      | s # rest \<Rightarrow>
          if length s < 2 \<or> hd s \<noteq> CHR ''-'' then Stop args
          else if s = ''--'' then Stop rest
          else
            let name = (if s ! 1 = CHR ''-'' then drop 2 s else drop 1 s) in
              if name = '''' \<or> hd name = CHR ''-'' \<or> hd name = CHR ''='' then
                Refused (FlagError (''bad flag syntax: '' @ s))
              else
                (case cut_value name of (n, value) \<Rightarrow>
                   (case lookup_flag fset n of
                      None \<Rightarrow>
                        if n = ''help'' \<or> n = ''h'' then Refused ErrHelp
                        else Refused (FlagError (''flag provided but not defined: -'' @ n))
                    | Some f \<Rightarrow> set_flag f value rest vals)))"

lemma set_flag_shorter: "set_flag f value rest vals = Seen rest' vals' \<Longrightarrow> length rest' \<le> length rest"
  by (auto simp: set_flag_def split: flag_kind.splits option.splits list.splits)

lemma parse_one_shorter: "parse_one fset args vals = Seen rest vals' \<Longrightarrow> length rest < length args"
  by (auto simp: parse_one_def Let_def dest: set_flag_shorter split: list.splits if_splits prod.splits option.splits)

function parse_flags :: "flag_set \<Rightarrow> string list \<Rightarrow> flag_values \<Rightarrow> flag_error + flag_values \<times> string list" where
  "parse_flags fset args vals =
     (case parse_one fset args vals of
        Stop rest \<Rightarrow> Inr (vals, rest)
      | Refused e \<Rightarrow> Inl e
      | Seen rest vals' \<Rightarrow> parse_flags fset rest vals')"
  by pat_completeness auto
termination
  by (relation "measure (\<lambda>(fset, args, vals). length args)") (auto dest: parse_one_shorter)

declare parse_flags.simps [simp del]

definition Parse :: "flag_set \<Rightarrow> string list \<Rightarrow> flag_error + flag_values \<times> string list" where
  "Parse fset args = parse_flags fset args Map.empty"

section \<open>What Parse returns\<close>

lemma lookup_flag_name: "lookup_flag fset n = Some f \<Longrightarrow> fl_name f = n"
  by (auto simp: lookup_flag_def find_Some_iff)

text \<open>Every value belongs to a flag of the set and has its kind.\<close>

fun value_fits :: "flag_kind \<Rightarrow> flag_value \<Rightarrow> bool" where
  "value_fits StringFlag (FString s) = True"
| "value_fits BoolFlag (FBool b) = True"
| "value_fits k v = False"

definition typed_values :: "flag_set \<Rightarrow> flag_values \<Rightarrow> bool" where
  "typed_values fset vals =
     (\<forall>n v. vals n = Some v \<longrightarrow> (\<exists>f. lookup_flag fset n = Some f \<and> value_fits (fl_kind f) v))"

lemma typed_update: "typed_values fset vals \<Longrightarrow> lookup_flag fset n = Some f \<Longrightarrow> value_fits (fl_kind f) v \<Longrightarrow>
    typed_values fset (vals(n \<mapsto> v))"
  by (simp add: typed_values_def)

lemma parse_one_typed:
  assumes "parse_one fset args vals = Seen rest vals'" and "typed_values fset vals"
  shows "typed_values fset vals'"
proof -
  obtain n f given rest1 where f: "lookup_flag fset n = Some f" "set_flag f given rest1 vals = Seen rest vals'"
    using assms(1) by (auto simp: parse_one_def Let_def split: list.splits if_splits prod.splits option.splits)
  then show ?thesis
    using assms(2) lookup_flag_name [OF f(1)]
    by (auto simp: set_flag_def intro!: typed_update split: flag_kind.splits option.splits list.splits)
qed

lemma parse_flags_typed:
  "parse_flags fset args vals = Inr (vals', rest) \<Longrightarrow> typed_values fset vals \<Longrightarrow> typed_values fset vals'"
proof (induction fset args vals rule: parse_flags.induct)
  case (1 fset args vals)
  show ?case
  proof (cases "parse_one fset args vals")
    case (Seen args' vals1)
    with "1.prems" show ?thesis
      by (intro "1.IH" [OF Seen]) (simp_all add: parse_flags.simps [of fset args] parse_one_typed)
  qed (use "1.prems" in \<open>simp_all add: parse_flags.simps [of fset args]\<close>)
qed

lemma Parse_typed: "Parse fset args = Inr (vals, rest) \<Longrightarrow> typed_values fset vals"
  unfolding Parse_def by (erule parse_flags_typed) (simp add: typed_values_def)

section \<open>Writing flags and reading them\<close>

text \<open>One setting on a command line: \<open>--name value\<close>, \<open>--name=value\<close> or \<open>--name\<close>, with one dash or two.\<close>

datatype setting =
    Separate bool string string
  | Joined bool string string
  | Switch bool string

definition dashes :: "bool \<Rightarrow> string" where
  "dashes two = (if two then ''--'' else ''-'')"

fun render :: "setting \<Rightarrow> string list" where
  "render (Separate two n v) = [dashes two @ n, v]"
| "render (Joined two n v) = [dashes two @ n @ ''='' @ v]"
| "render (Switch two n) = [dashes two @ n]"

fun apply_setting :: "setting \<Rightarrow> flag_values \<Rightarrow> flag_values" where
  "apply_setting (Separate two n v) vals = vals(n \<mapsto> FString v)"
| "apply_setting (Joined two n v) vals = vals(n \<mapsto> FString v)"
| "apply_setting (Switch two n) vals = vals(n \<mapsto> FBool True)"

definition plain_name :: "string \<Rightarrow> bool" where
  "plain_name n = (n \<noteq> '''' \<and> hd n \<noteq> CHR ''-'' \<and> CHR ''='' \<notin> set n)"

definition has_flag :: "flag_set \<Rightarrow> string \<Rightarrow> flag_kind \<Rightarrow> bool" where
  "has_flag fset n k = (plain_name n \<and> (case lookup_flag fset n of None \<Rightarrow> False | Some f \<Rightarrow> fl_kind f = k))"

fun setting_ok :: "flag_set \<Rightarrow> setting \<Rightarrow> bool" where
  "setting_ok fset (Separate two n v) = has_flag fset n StringFlag"
| "setting_ok fset (Joined two n v) = has_flag fset n StringFlag"
| "setting_ok fset (Switch two n) = has_flag fset n BoolFlag"

lemma takeWhile_no_eq: "CHR ''='' \<notin> set n \<Longrightarrow> takeWhile (\<lambda>c. c \<noteq> CHR ''='') n = n"
  by (induction n) auto

lemma cut_plain: "plain_name n \<Longrightarrow> cut_value n = (n, None)"
  by (cases n) (simp_all add: plain_name_def cut_value_def takeWhile_no_eq)

lemma takeWhile_to_eq: "CHR ''='' \<notin> set n \<Longrightarrow> takeWhile (\<lambda>c. c \<noteq> CHR ''='') (n @ CHR ''='' # v) = n"
  by (induction n) auto

lemma cut_joined: "plain_name n \<Longrightarrow> cut_value (n @ ''='' @ v) = (n, Some v)"
  by (cases n) (simp_all add: plain_name_def cut_value_def takeWhile_to_eq)

text \<open>An argument that starts a flag, whatever the number of dashes.\<close>

lemma parse_one_dashed:
  assumes "plain_name n" and "m = n @ tail"
  shows "parse_one fset ((dashes two @ m) # rest) vals =
    (case cut_value m of (k, value) \<Rightarrow>
       (case lookup_flag fset k of
          None \<Rightarrow> if k = ''help'' \<or> k = ''h'' then Refused ErrHelp
                  else Refused (FlagError (''flag provided but not defined: -'' @ k))
        | Some f \<Rightarrow> set_flag f value rest vals))"
proof -
  obtain c cs where n: "n = c # cs" "c \<noteq> CHR ''-''" "c \<noteq> CHR ''=''"
    using assms(1) by (cases n) (auto simp: plain_name_def)
  then show ?thesis
    by (cases two) (simp_all add: parse_one_def dashes_def assms(2))
qed

lemma parse_one_setting:
  assumes "setting_ok fset s"
  shows "parse_one fset (render s @ rest) vals = Seen rest (apply_setting s vals)"
proof -
  have flag: "\<exists>f. lookup_flag fset n = Some f \<and> fl_kind f = k \<and> fl_name f = n" if "has_flag fset n k" for n k
    using that lookup_flag_name [of fset n] by (auto simp: has_flag_def split: option.splits)
  have plain: "plain_name n" if "has_flag fset n k" for n k
    using that by (simp add: has_flag_def)
  show ?thesis
  proof (cases s)
    case (Separate two n v)
    then have n: "has_flag fset n StringFlag" using assms by simp
    from flag [OF n] show ?thesis
      by (auto simp: Separate parse_one_dashed [OF plain [OF n], of n "''''"] cut_plain [OF plain [OF n]] set_flag_def)
  next
    case (Joined two n v)
    then have n: "has_flag fset n StringFlag" using assms by simp
    from flag [OF n] show ?thesis
      using cut_joined [OF plain [OF n], of v]
      by (auto simp: Joined parse_one_dashed [OF plain [OF n], of "n @ CHR ''='' # v" "CHR ''='' # v"] set_flag_def)
  next
    case (Switch two n)
    then have n: "has_flag fset n BoolFlag" using assms by simp
    from flag [OF n] show ?thesis
      by (auto simp: Switch parse_one_dashed [OF plain [OF n], of n "''''"] cut_plain [OF plain [OF n]] set_flag_def)
  qed
qed

lemma parse_flags_settings:
  "list_all (setting_ok fset) ss \<Longrightarrow>
   parse_flags fset (concat (map render ss) @ rest) vals = parse_flags fset rest (fold apply_setting ss vals)"
proof (induction ss arbitrary: vals)
  case (Cons s ss)
  then show ?case
    by (simp add: parse_flags.simps [of fset "render s @ concat (map render ss) @ rest"] parse_one_setting)
qed simp

text \<open>Where the flags end.\<close>

definition positional :: "string list \<Rightarrow> bool" where
  "positional rest = (rest = [] \<or> length (hd rest) < 2 \<or> hd (hd rest) \<noteq> CHR ''-'')"

lemma parse_flags_positional: "positional rest \<Longrightarrow> parse_flags fset rest vals = Inr (vals, rest)"
  by (subst parse_flags.simps) (auto simp: positional_def parse_one_def split: list.splits)

lemma parse_flags_terminator: "parse_flags fset (''--'' # rest) vals = Inr (vals, rest)"
  by (simp add: parse_flags.simps [of fset "''--'' # rest"] parse_one_def)

end
