(* ===== verification/Go_Http.thy ===== *)
theory Go_Http
  imports Go_Prelude "HOL-Library.AList"
begin

text \<open>
  The part of package \<open>net/http\<close> wavefront talks to: header maps with canonical keys, the
  response writer, and the status texts.

  \<^item> A header map is an association list with distinct keys.  The order of the list stands for
    the (unspecified) iteration order of the Go map.
  \<^item> A response writer collects a header map until \<open>WriteHeader\<close> commits it; later changes of
    the map no longer reach the wire.  \<open>WriteHeader\<close> panics on a status outside 100..999, and a
    status that forbids a body drops what is written.
\<close>

section \<open>Header maps\<close>

type_synonym header = "(string \<times> string list) list"

definition is_token_char :: "char \<Rightarrow> bool" where
  "is_token_char c =
     (is_digit c
      \<or> (65 \<le> (of_char c :: nat) \<and> (of_char c :: nat) \<le> 90)
      \<or> (97 \<le> (of_char c :: nat) \<and> (of_char c :: nat) \<le> 122)
      \<or> c \<in> set ''!#$%&*+-.^_`|~'' \<or> c = CHR 0x27)"

fun canon_from :: "bool \<Rightarrow> string \<Rightarrow> string" where
  "canon_from up [] = []"
| "canon_from up (c # s) =
     (if up then upper_char c else lower_char c) # canon_from (c = CHR ''-'') s"

text \<open>\<open>http.CanonicalHeaderKey\<close>: a key with a byte that is no token byte is left as it is.\<close>

definition canonical_key :: "string \<Rightarrow> string" where
  "canonical_key k = (if list_all is_token_char k then canon_from True k else k)"

definition h_values :: "header \<Rightarrow> string \<Rightarrow> string list" where
  "h_values h k = (case map_of h (canonical_key k) of None \<Rightarrow> [] | Some vs \<Rightarrow> vs)"

definition h_get :: "header \<Rightarrow> string \<Rightarrow> string" where
  "h_get h k = (case h_values h k of [] \<Rightarrow> '''' | v # _ \<Rightarrow> v)"

definition h_set :: "string \<Rightarrow> string \<Rightarrow> header \<Rightarrow> header" where
  "h_set k v h = AList.update (canonical_key k) [v] h"

definition h_add :: "string \<Rightarrow> string \<Rightarrow> header \<Rightarrow> header" where
  "h_add k v h = AList.update (canonical_key k) (h_values h k @ [v]) h"

definition h_add_all :: "string \<Rightarrow> string list \<Rightarrow> header \<Rightarrow> header" where
  "h_add_all k vs h = fold (\<lambda>v h. h_add k v h) vs h"

named_theorems header_simps \<open>reading a header map after a write\<close>

lemma h_values_set [header_simps]:
  "h_values (h_set k v h) k' = (if canonical_key k' = canonical_key k then [v] else h_values h k')"
  by (simp add: h_values_def h_set_def update_conv')

lemma h_values_add [header_simps]:
  "h_values (h_add k v h) k' =
     (if canonical_key k' = canonical_key k then h_values h k @ [v] else h_values h k')"
  by (simp add: h_values_def h_add_def update_conv')

lemma h_values_add_all [header_simps]:
  "h_values (h_add_all k vs h) k' =
     (if canonical_key k' = canonical_key k then h_values h k' @ vs else h_values h k')"
proof (induction vs arbitrary: h)
  case Nil
  then show ?case by (simp add: h_add_all_def)
next
  case (Cons v vs)
  have "h_values (h_add_all k (v # vs) h) k' = h_values (h_add_all k vs (h_add k v h)) k'"
    by (simp add: h_add_all_def)
  also have "\<dots> = (if canonical_key k' = canonical_key k then h_values (h_add k v h) k' @ vs
                    else h_values (h_add k v h) k')"
    by (rule Cons.IH)
  finally show ?case by (auto simp: header_simps) (auto simp: h_values_def)
qed

lemma h_values_empty [simp]: "h_values [] k = []"
  by (simp add: h_values_def)

lemma h_get_empty [simp]: "h_get [] k = ''''"
  by (simp add: h_get_def)

lemma h_get_set [header_simps]:
  "h_get (h_set k v h) k' = (if canonical_key k' = canonical_key k then v else h_get h k')"
  by (simp add: h_get_def header_simps)

lemma distinct_keys_set: "distinct (map fst h) \<Longrightarrow> distinct (map fst (h_set k v h))"
  by (simp add: h_set_def distinct_update)

lemma distinct_keys_add: "distinct (map fst h) \<Longrightarrow> distinct (map fst (h_add k v h))"
  by (simp add: h_add_def distinct_update)

lemma distinct_keys_add_all: "distinct (map fst h) \<Longrightarrow> distinct (map fst (h_add_all k vs h))"
  by (induction vs arbitrary: h) (auto simp: h_add_all_def distinct_keys_add)

section \<open>Response writer\<close>

record response_writer =
  rw_header :: header
  rw_sent :: "(int \<times> header) option"
  rw_body :: string
  rw_panicked :: bool
  rw_attempted :: bool   \<comment> \<open>the flag \<open>wrote\<close> of the server's \<open>responseTracker\<close>\<close>

definition new_writer :: response_writer where
  "new_writer = \<lparr>rw_header = [], rw_sent = None, rw_body = '''', rw_panicked = False,
                 rw_attempted = False\<rparr>"

definition rw_set :: "string \<Rightarrow> string \<Rightarrow> response_writer \<Rightarrow> response_writer" where
  "rw_set k v w = w\<lparr>rw_header := h_set k v (rw_header w)\<rparr>"

definition body_allowed :: "int \<Rightarrow> bool" where
  "body_allowed status = (\<not> (100 \<le> status \<and> status \<le> 199) \<and> status \<noteq> 204 \<and> status \<noteq> 304)"

text \<open>\<open>WriteHeader\<close>: the second call is ignored, and so is an informational status other than
  101, which is sent without committing the response.\<close>

definition rw_write_header :: "int \<Rightarrow> response_writer \<Rightarrow> response_writer" where
  "rw_write_header status w =
     (if rw_panicked w then w
      else
        let w = w\<lparr>rw_attempted := True\<rparr> in
          if status < 100 \<or> 999 < status then w\<lparr>rw_panicked := True\<rparr>
          else if rw_sent w \<noteq> None then w
          else if 100 \<le> status \<and> status \<le> 199 \<and> status \<noteq> 101 then w
          else w\<lparr>rw_sent := Some (status, rw_header w)\<rparr>)"

definition rw_write :: "string \<Rightarrow> response_writer \<Rightarrow> response_writer" where
  "rw_write bs w =
     (if rw_panicked w then w
      else let w = w\<lparr>rw_attempted := True\<rparr>;
               w = (if rw_sent w = None then w\<lparr>rw_sent := Some (200, rw_header w)\<rparr> else w)
           in (if body_allowed (fst (the (rw_sent w))) then w\<lparr>rw_body := rw_body w @ bs\<rparr> else w))"

text \<open>When the handler returns without having written, \<open>net/http\<close> sends an empty 200.\<close>

definition rw_finish :: "response_writer \<Rightarrow> response_writer" where
  "rw_finish w = (if rw_sent w = None then w\<lparr>rw_sent := Some (200, rw_header w)\<rparr> else w)"

definition sent_status :: "response_writer \<Rightarrow> int option" where
  "sent_status w = map_option fst (rw_sent w)"

definition sent_header :: "response_writer \<Rightarrow> string \<Rightarrow> string" where
  "sent_header w k = (case rw_sent w of None \<Rightarrow> '''' | Some (_, h) \<Rightarrow> h_get h k)"

definition sent_values :: "response_writer \<Rightarrow> string \<Rightarrow> string list" where
  "sent_values w k = (case rw_sent w of None \<Rightarrow> [] | Some (_, h) \<Rightarrow> h_values h k)"

lemma rw_set_simps [simp]:
  "rw_header (rw_set k v w) = h_set k v (rw_header w)"
  "rw_sent (rw_set k v w) = rw_sent w"
  "rw_body (rw_set k v w) = rw_body w"
  "rw_panicked (rw_set k v w) = rw_panicked w"
  "rw_attempted (rw_set k v w) = rw_attempted w"
  by (simp_all add: rw_set_def)

section \<open>Media types\<close>

text \<open>\<open>mime.ParseMediaType\<close>, as far as its media type and whether it fails: the type and subtype
  tokens in lower case, and the parameters only for their syntax and for clashing duplicates.\<close>

definition is_tspecial :: "char \<Rightarrow> bool" where
  "is_tspecial c = (c \<in> set (''()<>@,;:/[]?='' @ [CHR 0x22, CHR 0x5C]))"

definition mime_token_char :: "char \<Rightarrow> bool" where
  "mime_token_char c = (32 < (of_char c :: nat) \<and> (of_char c :: nat) < 127 \<and> \<not> is_tspecial c)"

definition consume_token :: "string \<Rightarrow> string \<times> string" where
  "consume_token s = (takeWhile mime_token_char s, dropWhile mime_token_char s)"

definition media_type_ok :: "string \<Rightarrow> bool" where
  "media_type_ok s =
     (case consume_token s of (typ, rest) \<Rightarrow>
        typ \<noteq> '''' \<and>
        (case rest of
           [] \<Rightarrow> True
         | c # rest' \<Rightarrow> c = CHR ''/'' \<and> fst (consume_token rest') \<noteq> '''' \<and> snd (consume_token rest') = ''''))"

text \<open>The inside of a quoted string: the value and what follows the closing quote.\<close>

fun quoted_value :: "string \<Rightarrow> string \<Rightarrow> (string \<times> string) option" where
  "quoted_value acc [] = None"
| "quoted_value acc (c # s) =
     (if c = CHR 0x22 then Some (acc, s)
      else if c = CHR 0x0D \<or> c = CHR 0x0A then None
      else if c = CHR 0x5C \<and> s \<noteq> [] \<and> is_tspecial (hd s) then quoted_value (acc @ [hd s]) (tl s)
      else quoted_value (acc @ [c]) s)"

definition consume_value :: "string \<Rightarrow> string \<times> string" where
  "consume_value s =
     (if prefix [CHR 0x22] s then
        (case quoted_value '''' (tl s) of None \<Rightarrow> ('''', s) | Some r \<Rightarrow> r)
      else consume_token s)"

definition trim_left :: "string \<Rightarrow> string" where
  "trim_left s = trim_left_runes space_runes s"

definition consume_media_param :: "string \<Rightarrow> (string \<times> string \<times> string) option" where
  "consume_media_param v =
     (let r1 = trim_left v in
        if \<not> prefix '';'' r1 then None
        else
          let (param, r2) = consume_token (trim_left (tl r1)); r3 = trim_left r2 in
            if param = '''' \<or> \<not> prefix ''='' r3 then None
            else
              let r4 = trim_left (tl r3); (val, r5) = consume_value r4 in
                if val = '''' \<and> r5 = r4 then None else Some (to_lower param, val, r5))"

text \<open>The loop over the parameters, with one unit of fuel per byte left: each turn consumes at least
  the semicolon.\<close>

fun media_params_ok :: "nat \<Rightarrow> (string \<times> string) list \<Rightarrow> string \<Rightarrow> bool" where
  "media_params_ok 0 seen v = True"
| "media_params_ok (Suc n) seen v =
     (if trim_left v = '''' then True
      else
        (case consume_media_param (trim_left v) of
           None \<Rightarrow> trim_space v = '';''
         | Some (key, val, rest) \<Rightarrow>
             (case map_of seen key of
                Some val' \<Rightarrow> val' = val \<and> media_params_ok n seen rest
              | None \<Rightarrow> media_params_ok n ((key, val) # seen) rest)))"

definition ParseMediaType :: "string \<Rightarrow> string option" where
  "ParseMediaType v =
     (let base = takeWhile (\<lambda>c. c \<noteq> CHR '';'') v; mt = trim_space (to_lower base) in
        if media_type_ok mt \<and> media_params_ok (length v) [] (drop (length base) v) then Some mt else None)"

section \<open>Status texts\<close>

definition status_texts :: "(int \<times> string) list" where
  "status_texts =
    [(100, ''Continue''), (101, ''Switching Protocols''), (102, ''Processing''),
     (103, ''Early Hints''), (200, ''OK''), (201, ''Created''), (202, ''Accepted''),
     (203, ''Non-Authoritative Information''), (204, ''No Content''), (205, ''Reset Content''),
     (206, ''Partial Content''), (207, ''Multi-Status''), (208, ''Already Reported''),
     (226, ''IM Used''), (300, ''Multiple Choices''), (301, ''Moved Permanently''),
     (302, ''Found''), (303, ''See Other''), (304, ''Not Modified''), (305, ''Use Proxy''),
     (307, ''Temporary Redirect''), (308, ''Permanent Redirect''), (400, ''Bad Request''),
     (401, ''Unauthorized''), (402, ''Payment Required''), (403, ''Forbidden''),
     (404, ''Not Found''), (405, ''Method Not Allowed''), (406, ''Not Acceptable''),
     (407, ''Proxy Authentication Required''), (408, ''Request Timeout''), (409, ''Conflict''),
     (410, ''Gone''), (411, ''Length Required''), (412, ''Precondition Failed''),
     (413, ''Request Entity Too Large''), (414, ''Request URI Too Long''),
     (415, ''Unsupported Media Type''), (416, ''Requested Range Not Satisfiable''),
     (417, ''Expectation Failed''), (418, [CHR ''I'', CHR 0x27, CHR ''m''] @ '' a teapot''),
     (421, ''Misdirected Request''), (422, ''Unprocessable Entity''), (423, ''Locked''),
     (424, ''Failed Dependency''), (425, ''Too Early''), (426, ''Upgrade Required''),
     (428, ''Precondition Required''), (429, ''Too Many Requests''),
     (431, ''Request Header Fields Too Large''), (451, ''Unavailable For Legal Reasons''),
     (500, ''Internal Server Error''), (501, ''Not Implemented''), (502, ''Bad Gateway''),
     (503, ''Service Unavailable''), (504, ''Gateway Timeout''),
     (505, ''HTTP Version Not Supported''), (506, ''Variant Also Negotiates''),
     (507, ''Insufficient Storage''), (508, ''Loop Detected''), (510, ''Not Extended''),
     (511, ''Network Authentication Required'')]"

definition status_text :: "int \<Rightarrow> string" where
  "status_text s = (case map_of status_texts s of None \<Rightarrow> '''' | Some t \<Rightarrow> t)"

end
