(* ===== verification/Wire_Error.thy ===== *)
theory Wire_Error
  imports Go_Http Go_Utf8
begin

text \<open>
  Package \<open>internal/wireerror\<close>: the typed failures wavefront returns to a client, the headers
  they carry and the one function that writes them (\<open>Write\<close>).  The marshaller of the
  \<open>wavefront.v0.Error\<close> message (package \<open>google.golang.org/protobuf\<close>) is the parameter \<open>pm\<close> of
  the definitions that produce a body: it takes the \<open>code\<close> and \<open>message\<close> fields.
\<close>

section \<open>Codes and headers\<close>

definition codeUnsupportedContractVersion :: string where
  "codeUnsupportedContractVersion = ''unsupported_contract_version''"
definition codeDecodeFailed :: string where "codeDecodeFailed = ''decode_failed''"
definition codeRequestBodyTooLarge :: string where
  "codeRequestBodyTooLarge = ''request_body_too_large''"
definition codeUpstreamTimeout :: string where "codeUpstreamTimeout = ''upstream_timeout''"
definition codeUpstreamError :: string where "codeUpstreamError = ''upstream_error''"
definition codeTransformFailed :: string where "codeTransformFailed = ''transform_failed''"
definition codeInternalError :: string where "codeInternalError = ''internal_error''"
definition codeUnknownRoute :: string where "codeUnknownRoute = ''unknown_route''"
definition codeUpstreamStatus :: string where "codeUpstreamStatus = ''upstream_status''"
definition codeUnsupportedMediaType :: string where
  "codeUnsupportedMediaType = ''unsupported_media_type''"
definition codeUnavailable :: string where "codeUnavailable = ''unavailable''"

lemmas code_defs =
  codeUnsupportedContractVersion_def codeDecodeFailed_def codeRequestBodyTooLarge_def
  codeUpstreamTimeout_def codeUpstreamError_def codeTransformFailed_def codeInternalError_def
  codeUnknownRoute_def codeUpstreamStatus_def codeUnsupportedMediaType_def codeUnavailable_def

definition MediaTypeProtobuf :: string where "MediaTypeProtobuf = ''application/protobuf''"
definition HeaderContentType :: string where "HeaderContentType = ''Content-Type''"
definition HeaderContractVersion :: string where
  "HeaderContractVersion = ''X-Wavefront-Contract-Version''"
definition HeaderWavefrontError :: string where "HeaderWavefrontError = ''X-Wavefront-Error''"
definition VersionUnknown :: string where "VersionUnknown = ''unknown''"

lemmas wire_header_defs =
  MediaTypeProtobuf_def HeaderContentType_def HeaderContractVersion_def
  HeaderWavefrontError_def VersionUnknown_def

record werror =
  we_code :: string
  we_message :: string
  we_status :: int
  we_retry_after :: string

text \<open>A handler that does not return normally has either produced a typed failure or panicked.\<close>

datatype fault = Wire werror | GoPanic string

definition error_string :: "werror \<Rightarrow> string" where
  "error_string e = we_code e @ '': '' @ we_message e"

definition WithRetryAfter :: "string \<Rightarrow> werror \<Rightarrow> werror" where
  "WithRetryAfter v e = (if v = '''' then e else e\<lparr>we_retry_after := v\<rparr>)"

definition Headers :: "werror \<Rightarrow> header" where
  "Headers e =
     (let h = h_set ''Content-Type'' MediaTypeProtobuf [] in
      if we_code e = codeUpstreamTimeout then h_set ''Retry-After'' ''0'' h
      else if we_retry_after e \<noteq> '''' then h_set ''Retry-After'' (we_retry_after e) h
      else h)"

section \<open>Constructors\<close>

definition msgOr :: "string \<Rightarrow> string \<Rightarrow> string" where
  "msgOr msg def = (if msg = '''' then def else msg)"

definition mk_werror :: "string \<Rightarrow> string \<Rightarrow> int \<Rightarrow> werror" where
  "mk_werror code msg status =
     \<lparr>we_code = code, we_message = msg, we_status = status, we_retry_after = ''''\<rparr>"

definition UnsupportedContractVersion :: "string \<Rightarrow> werror" where
  "UnsupportedContractVersion msg =
     mk_werror codeUnsupportedContractVersion (msgOr msg ''unknown or missing contract version'') 400"
definition DecodeFailed :: "string \<Rightarrow> werror" where
  "DecodeFailed msg = mk_werror codeDecodeFailed (msgOr msg ''request body failed to decode'') 400"
definition RequestBodyTooLarge :: "string \<Rightarrow> werror" where
  "RequestBodyTooLarge msg =
     mk_werror codeRequestBodyTooLarge (msgOr msg ''request body exceeds the configured limit'') 413"
definition UpstreamTimeout :: "string \<Rightarrow> werror" where
  "UpstreamTimeout msg = mk_werror codeUpstreamTimeout (msgOr msg ''upstream timed out'') 504"
definition UpstreamError :: "string \<Rightarrow> werror" where
  "UpstreamError msg = mk_werror codeUpstreamError (msgOr msg ''upstream error'') 502"
definition TransformFailedRequest :: "string \<Rightarrow> werror" where
  "TransformFailedRequest msg =
     mk_werror codeTransformFailed
       (msgOr msg ''request could not be transformed to the internal contract'') 422"
definition TransformFailedResponse :: "string \<Rightarrow> werror" where
  "TransformFailedResponse msg =
     mk_werror codeTransformFailed
       (msgOr msg ''upstream response could not be transformed to the client contract'') 502"
definition InternalError :: "string \<Rightarrow> werror" where
  "InternalError msg = mk_werror codeInternalError (msgOr msg ''internal server error'') 500"
definition UnknownRoute :: "string \<Rightarrow> werror" where
  "UnknownRoute msg =
     mk_werror codeUnknownRoute
       (msgOr msg (''no contract binds this request'' @ [CHR 0x27] @ ''s path and method'')) 404"
definition UnsupportedMediaType :: "string \<Rightarrow> werror" where
  "UnsupportedMediaType msg =
     mk_werror codeUnsupportedMediaType
       (msgOr msg (''request Content-Type is not '' @ MediaTypeProtobuf)) 415"
definition Unavailable :: "string \<Rightarrow> werror" where
  "Unavailable msg = mk_werror codeUnavailable (msgOr msg ''service unavailable'') 503"
definition UpstreamStatus :: "int \<Rightarrow> string \<Rightarrow> werror" where
  "UpstreamStatus httpStatus msg =
     mk_werror codeUpstreamStatus (msgOr msg (''upstream returned '' @ status_text httpStatus))
       httpStatus"

lemmas werror_ctor_defs =
  UnsupportedContractVersion_def DecodeFailed_def RequestBodyTooLarge_def UpstreamTimeout_def
  UpstreamError_def TransformFailedRequest_def TransformFailedResponse_def InternalError_def
  UnknownRoute_def UnsupportedMediaType_def Unavailable_def UpstreamStatus_def mk_werror_def

definition IsCapabilityCeiling :: "int \<Rightarrow> bool" where
  "IsCapabilityCeiling status =
     (status = 206 \<or> status = 207 \<or> status = 208 \<or> status = 226
      \<or> (300 \<le> status \<and> status \<le> 399))"

section \<open>The envelope\<close>

definition marshalError :: "(string \<Rightarrow> string \<Rightarrow> string) \<Rightarrow> string \<Rightarrow> string \<Rightarrow> string" where
  "marshalError pm code message = pm code (to_valid_utf8 message)"

definition ProtoBody :: "(string \<Rightarrow> string \<Rightarrow> string) \<Rightarrow> werror \<Rightarrow> string" where
  "ProtoBody pm e = marshalError pm (we_code e) (we_message e)"

definition wire_write ::
  "(string \<Rightarrow> string \<Rightarrow> string) \<Rightarrow> werror \<Rightarrow> string \<Rightarrow> response_writer \<Rightarrow> response_writer" where
  "wire_write pm werr contractVersion w =
     (let contractVersion = (if contractVersion = '''' then VersionUnknown else contractVersion);
          w = fold (\<lambda>(k, vs) w. fold (\<lambda>v w. rw_set k v w) vs w) (Headers werr) w;
          w = rw_set HeaderWavefrontError (we_code werr) w;
          w = rw_set HeaderContractVersion contractVersion w;
          w = rw_write_header (we_status werr) w
      in rw_write (ProtoBody pm werr) w)"

section \<open>Facts about the envelope\<close>

text \<open>The table of \<open>docs/protocol.md\<close>: every code but \<open>upstream_status\<close> has fixed statuses.\<close>

definition documented_errors :: "(string \<times> int) list" where
  "documented_errors =
     [(codeUnsupportedContractVersion, 400), (codeDecodeFailed, 400),
      (codeUnsupportedMediaType, 415), (codeRequestBodyTooLarge, 413),
      (codeUpstreamTimeout, 504), (codeUpstreamError, 502), (codeTransformFailed, 422),
      (codeTransformFailed, 502), (codeInternalError, 500), (codeUnknownRoute, 404),
      (codeUnavailable, 503)]"

definition in_error_table :: "werror \<Rightarrow> bool" where
  "in_error_table e =
     ((we_code e, we_status e) \<in> set documented_errors \<or> we_code e = codeUpstreamStatus)"

lemma in_error_table_ctors [simp]:
  "in_error_table (UnsupportedContractVersion m)" "in_error_table (DecodeFailed m)"
  "in_error_table (RequestBodyTooLarge m)" "in_error_table (UpstreamTimeout m)"
  "in_error_table (UpstreamError m)" "in_error_table (TransformFailedRequest m)"
  "in_error_table (TransformFailedResponse m)" "in_error_table (InternalError m)"
  "in_error_table (UnknownRoute m)" "in_error_table (UnsupportedMediaType m)"
  "in_error_table (Unavailable m)" "in_error_table (UpstreamStatus st m)"
  by (simp_all add: in_error_table_def documented_errors_def werror_ctor_defs)

lemma WithRetryAfter_simps [simp]:
  "we_code (WithRetryAfter v e) = we_code e"
  "we_message (WithRetryAfter v e) = we_message e"
  "we_status (WithRetryAfter v e) = we_status e"
  by (simp_all add: WithRetryAfter_def)

lemma in_error_table_retry [simp]: "in_error_table (WithRetryAfter v e) = in_error_table e"
  by (simp add: in_error_table_def)

text \<open>What \<open>Write\<close> leaves on the wire.\<close>

definition set_all :: "header \<Rightarrow> response_writer \<Rightarrow> response_writer" where
  "set_all h w = fold (\<lambda>(k, vs) w. fold (\<lambda>v w. rw_set k v w) vs w) h w"

lemma rw_fold_set [simp]:
  "rw_sent (fold (\<lambda>v w. rw_set k v w) vs w) = rw_sent w"
  "rw_panicked (fold (\<lambda>v w. rw_set k v w) vs w) = rw_panicked w"
  "rw_body (fold (\<lambda>v w. rw_set k v w) vs w) = rw_body w"
  by (induction vs arbitrary: w) auto

lemma set_all_frame [simp]:
  "rw_sent (set_all h w) = rw_sent w" "rw_panicked (set_all h w) = rw_panicked w"
  "rw_body (set_all h w) = rw_body w"
  by (induction h arbitrary: w) (auto simp: set_all_def)

lemma canonical_keys [simp]:
  "canonical_key ''Content-Type'' = ''Content-Type''"
  "canonical_key ''Retry-After'' = ''Retry-After''"
  "canonical_key ''X-Wavefront-Error'' = ''X-Wavefront-Error''"
  "canonical_key ''X-Wavefront-Contract-Version'' = ''X-Wavefront-Contract-Version''"
  "canonical_key ''Vary'' = ''Vary''" "canonical_key ''Allow'' = ''Allow''"
  "canonical_key ''Origin'' = ''Origin''" "canonical_key ''Connection'' = ''Connection''"
  by code_simp+

lemma wire_write_alt:
  "wire_write pm e v w =
     rw_write (ProtoBody pm e) (rw_write_header (we_status e)
       (rw_set HeaderContractVersion (if v = '''' then VersionUnknown else v)
         (rw_set HeaderWavefrontError (we_code e) (set_all (Headers e) w))))"
  by (simp add: wire_write_def set_all_def Let_def)

lemma wire_write_sent:
  assumes "rw_sent w = None" "\<not> rw_panicked w" "200 \<le> we_status e" "we_status e \<le> 999"
  shows "sent_status (wire_write pm e v w) = Some (we_status e)"
    and "sent_header (wire_write pm e v w) HeaderWavefrontError = we_code e"
    and "sent_header (wire_write pm e v w) HeaderContractVersion =
           (if v = '''' then VersionUnknown else v)"
    and "\<not> rw_panicked (wire_write pm e v w)"
    and "rw_body w = '''' \<Longrightarrow> body_allowed (we_status e) \<Longrightarrow>
           rw_body (wire_write pm e v w) = ProtoBody pm e"
  using assms
  by (auto simp: wire_write_alt rw_write_header_def rw_write_def sent_status_def sent_header_def
      header_simps wire_header_defs Let_def)

end
