(* ===== verification/Transform_Path.thy ===== *)
theory Transform_Path
  imports Go_Utf8
begin

text \<open>
  \<open>internal/transform/path.go\<close>: the path grammar every transform verb addresses fields with, its
  parser \<open>ParsePath\<close>, the printer \<open>Path.String\<close>, and the name-wise prefix test behind
  \<open>optionalize\<close>.
\<close>

record segment =
  seg_name :: string
  seg_array :: bool

type_synonym path = "segment list"

text \<open>A plain segment \<open>n\<close> and an array segment \<open>n[]\<close>.\<close>

definition fld :: "string \<Rightarrow> segment" where "fld n = \<lparr>seg_name = n, seg_array = False\<rparr>"
definition each :: "string \<Rightarrow> segment" where "each n = \<lparr>seg_name = n, seg_array = True\<rparr>"

lemma seg_simps [simp]:
  "seg_name (fld n) = n" "\<not> seg_array (fld n)" "seg_name (each n) = n" "seg_array (each n)"
  by (simp_all add: fld_def each_def)

datatype path_error =
    EmptyPath
  | LeadingDot string
  | TrailingDot string
  | EmptySegment string
  | EmptyName string
  | InvalidChar string string
  | EndsWithArray string

fun path_error_text :: "path_error \<Rightarrow> string" where
  "path_error_text EmptyPath = ''empty path''"
| "path_error_text (LeadingDot s) = ''leading dot in path '' @ go_quote s"
| "path_error_text (TrailingDot s) = ''trailing dot in path '' @ go_quote s"
| "path_error_text (EmptySegment s) = ''empty segment in path '' @ go_quote s"
| "path_error_text (EmptyName s) = ''empty name before [] in path '' @ go_quote s"
| "path_error_text (InvalidChar seg s) =
     ''invalid character in segment '' @ go_quote seg @ '' of path '' @ go_quote s"
| "path_error_text (EndsWithArray s) =
     ''path '' @ go_quote s @ '' ends with [] (must end with a Name leaf)''"

text \<open>The loop over the pieces between dots; \<open>rest = []\<close> is the test \<open>i == len(segs)-1\<close>.\<close>

fun parse_segments :: "string \<Rightarrow> string list \<Rightarrow> path_error + path" where
  "parse_segments s [] = Inr []"
| "parse_segments s (piece # rest) =
     (if piece = '''' then Inl (EmptySegment s)
      else
        let array = has_suffix ''[]'' piece;
            seg = (if array then take (length piece - 2) piece else piece)
        in
          if seg = '''' then Inl (EmptyName s)
          else if contains_any seg ''.[]'' then Inl (InvalidChar seg s)
          else if array \<and> rest = [] then Inl (EndsWithArray s)
          else sbind (parse_segments s rest)
                 (\<lambda>out. Inr (\<lparr>seg_name = seg, seg_array = array\<rparr> # out)))"

definition ParsePath :: "string \<Rightarrow> path_error + path" where
  "ParsePath s =
     (if s = '''' then Inl EmptyPath
      else if prefix ''.'' s then Inl (LeadingDot s)
      else if has_suffix ''.'' s then Inl (TrailingDot s)
      else parse_segments s (split_on CHR ''.'' s))"

definition segment_string :: "segment \<Rightarrow> string" where
  "segment_string s = (if seg_array s then seg_name s @ ''[]'' else seg_name s)"

definition path_string :: "path \<Rightarrow> string" where
  "path_string p = join_with ''.'' (map segment_string p)"

definition path_equal :: "path \<Rightarrow> path \<Rightarrow> bool" where
  "path_equal p q = (length p = length q \<and> list_all (\<lambda>(a, b). a = b) (zip p q))"

definition HasPrefixByName :: "path \<Rightarrow> path \<Rightarrow> bool" where
  "HasPrefixByName p pre =
     (if length pre > length p then False
      else list_all (\<lambda>(a, b). seg_name a = seg_name b) (zip pre p))"

section \<open>Well-formed paths\<close>

definition name_ok :: "string \<Rightarrow> bool" where
  "name_ok n = (n \<noteq> '''' \<and> \<not> contains_any n ''.[]'')"

definition path_ok :: "path \<Rightarrow> bool" where
  "path_ok p = (p \<noteq> [] \<and> list_all (\<lambda>s. name_ok (seg_name s)) p \<and> \<not> seg_array (last p))"

lemma name_ok_no_dot: "name_ok n \<Longrightarrow> CHR ''.'' \<notin> set n"
  by (auto simp: name_ok_def contains_any_iff)

lemma name_ok_no_brackets: "name_ok n \<Longrightarrow> \<not> has_suffix ''[]'' n"
  by (auto simp: name_ok_def contains_any_iff has_suffix_iff suffix_def)

lemma take_array_suffix: "has_suffix ''[]'' s \<Longrightarrow> take (length s - 2) s @ ''[]'' = s"
  by (auto simp: has_suffix_iff suffix_def)

lemma path_equal_iff: "path_equal p q \<longleftrightarrow> p = q"
proof -
  have "list_all (\<lambda>(a, b). a = b) (zip p q) \<longleftrightarrow> p = q" if "length p = length q"
    using that by (induction p q rule: list_induct2) auto
  then show ?thesis by (auto simp: path_equal_def)
qed

lemma HasPrefixByName_iff: "HasPrefixByName p pre \<longleftrightarrow> prefix (map seg_name pre) (map seg_name p)"
proof -
  have "list_all (\<lambda>(a, b). seg_name a = seg_name b) (zip pre p)
          \<longleftrightarrow> prefix (map seg_name pre) (map seg_name p)" if "length pre \<le> length p"
    using that
  proof (induction pre p rule: list_induct2')
    case (4 x xs y ys)
    then show ?case by auto
  qed auto
  then show ?thesis
    by (auto simp: HasPrefixByName_def dest: prefix_length_le)
qed

section \<open>Parsing and printing\<close>

lemma parse_segments_ok:
  assumes "parse_segments s ps = Inr p"
  shows "map segment_string p = ps \<and> list_all (\<lambda>s. name_ok (seg_name s)) p
         \<and> (ps \<noteq> [] \<longrightarrow> p \<noteq> [] \<and> \<not> seg_array (last p))"
  using assms
proof (induction ps arbitrary: p)
  case Nil
  then show ?case by simp
next
  case (Cons piece rest)
  then show ?case
    by (auto simp: Let_def result_simps segment_string_def name_ok_def take_array_suffix
        split: if_splits)
qed

lemma parse_segments_print:
  assumes "list_all (\<lambda>s. name_ok (seg_name s)) p" and "p \<noteq> [] \<Longrightarrow> \<not> seg_array (last p)"
  shows "parse_segments s (map segment_string p) = Inr p"
  using assms
proof (induction p)
  case Nil
  then show ?case by simp
next
  case (Cons x xs)
  have n: "name_ok (seg_name x)" using Cons.prems by simp
  show ?case
  proof (cases "seg_array x")
    case True
    with Cons.prems have "xs \<noteq> []" by auto
    with True Cons n show ?thesis
      by (auto simp: Let_def segment_string_def has_suffix_append name_ok_def)
  next
    case False
    with Cons n show ?thesis
      by (auto simp: Let_def segment_string_def name_ok_no_brackets name_ok_def split: if_splits)
  qed
qed

lemma segment_string_no_dot: "name_ok (seg_name s) \<Longrightarrow> CHR ''.'' \<notin> set (segment_string s)"
  by (auto simp: segment_string_def dest: name_ok_no_dot)

lemma segment_string_ne: "name_ok (seg_name s) \<Longrightarrow> segment_string s \<noteq> ''''"
  by (auto simp: segment_string_def name_ok_def)

lemma ParsePath_ok: "ParsePath s = Inr p \<Longrightarrow> path_ok p"
  using parse_segments_ok [of s "split_on CHR ''.'' s" p]
  by (auto simp: ParsePath_def path_ok_def split: if_splits)

lemma ParsePath_print: "ParsePath s = Inr p \<Longrightarrow> path_string p = s"
  using parse_segments_ok [of s "split_on CHR ''.'' s" p]
  by (auto simp: ParsePath_def path_string_def join_split split: if_splits)

lemma path_string_ends:
  assumes "path_ok p"
  shows "path_string p \<noteq> ''''" "\<not> prefix ''.'' (path_string p)" "\<not> has_suffix ''.'' (path_string p)"
proof -
  from assms obtain x xs where p: "p = x # xs" by (auto simp: path_ok_def neq_Nil_conv)
  from assms have ok: "\<And>s. s \<in> set p \<Longrightarrow> name_ok (seg_name s)"
    by (auto simp: path_ok_def list_all_iff)
  have x: "segment_string x \<noteq> ''''" "CHR ''.'' \<notin> set (segment_string x)"
    using segment_string_ne segment_string_no_dot ok [of x] p by auto
  then obtain c cs where c: "segment_string x = c # cs" "c \<noteq> CHR ''.''"
    by (cases "segment_string x") auto
  obtain t where t: "path_string p = segment_string x @ t"
    by (cases xs) (auto simp: path_string_def p)
  show "path_string p \<noteq> ''''" "\<not> prefix ''.'' (path_string p)"
    using c t by auto
  have last: "\<exists>ys. path_string p = ys @ segment_string (last p)" if "p \<noteq> []" for p
    using that
  proof (induction p rule: induct_list012)
    case (3 x y zs)
    then show ?case by (auto simp: path_string_def)
  qed (auto simp: path_string_def)
  obtain ys where ys: "path_string p = ys @ segment_string (last p)"
    using last [of p] p by auto
  have l: "name_ok (seg_name (last p))" using ok [of "last p"] p by (simp split: if_splits)
  have "segment_string (last p) \<noteq> '''' \<and> CHR ''.'' \<notin> set (segment_string (last p))"
    using segment_string_ne [OF l] segment_string_no_dot [OF l] by (rule conjI)
  then show "\<not> has_suffix ''.'' (path_string p)"
    unfolding ys has_suffix_iff suffix_def
    by (metis append_is_Nil_conv last_appendR last_in_set last_snoc)
qed

lemma print_ParsePath: "path_ok p \<Longrightarrow> ParsePath (path_string p) = Inr p"
proof -
  assume ok: "path_ok p"
  then have names: "list_all (\<lambda>s. name_ok (seg_name s)) p" and "p \<noteq> []"
    by (auto simp: path_ok_def)
  then have "split_on CHR ''.'' (path_string p) = map segment_string p"
    unfolding path_string_def
    by (intro split_join) (auto simp: list_all_iff dest: segment_string_no_dot)
  moreover have "parse_segments (path_string p) (map segment_string p) = Inr p"
    using ok by (intro parse_segments_print) (auto simp: path_ok_def)
  ultimately show ?thesis
    using path_string_ends [OF ok] by (simp add: ParsePath_def)
qed

lemma ParsePath_iff: "ParsePath s = Inr p \<longleftrightarrow> path_ok p \<and> path_string p = s"
  using ParsePath_ok ParsePath_print print_ParsePath by blast

lemma path_string_inj: "path_ok p \<Longrightarrow> path_ok q \<Longrightarrow> path_string p = path_string q \<Longrightarrow> p = q"
  by (metis print_ParsePath sum.inject(2))

section \<open>Property\<close>

text \<open>C7. The parser and the printer of the path grammar are inverse to each other: \<open>ParsePath\<close>
  accepts exactly the strings that a well-formed path prints to and returns that path, so it
  rejects every other string and no string has two readings.\<close>

theorem ParsePath_exact:
  "(ParsePath s = Inr p \<longleftrightarrow> path_ok p \<and> path_string p = s) \<and>
   ((\<exists>e. ParsePath s = Inl e) \<longleftrightarrow> \<not> (\<exists>q. path_ok q \<and> path_string q = s))"
  using ParsePath_iff [of s] by (cases "ParsePath s") auto

end
