(* ===== verification/Json.thy ===== *)
theory Json
  imports Go_Prelude "HOL-Library.Finite_Map" "HOL-Library.Word"
begin

text \<open>
  JSON values as Go's \<open>encoding/json\<close> decodes them into \<open>any\<close>, and as the transform runtime
  rewrites them.  A Go \<open>map[string]any\<close> is a finite map; a decoded number is a \<open>float64\<close>, which is
  its 64 bits; the integers of a YAML-authored default stay Go integers (\<open>JInt\<close>).

  The text codecs of the standard library (JSON text and decimal numbers) are the record
  \<open>textlib\<close>: every definition that reads or writes text takes it as a parameter, and a property
  that relies on what they promise names it as a hypothesis.
\<close>

type_synonym f64 = "64 word"

datatype json =
    JNull
  | JBool bool
  | JInt int
  | JNum f64
  | JStr string
  | JArr "json list"
  | JObj "(string, json) fmap"

type_synonym obj = "(string, json) fmap"

record textlib =
  format_float :: "f64 \<Rightarrow> string"            \<comment> \<open>\<open>strconv.FormatFloat(x, 'f', -1, 64)\<close>\<close>
  parse_float :: "string \<Rightarrow> f64 option"      \<comment> \<open>\<open>strconv.ParseFloat(s, 64)\<close>\<close>
  json_unmarshal :: "string \<Rightarrow> json option"  \<comment> \<open>\<open>json.Unmarshal\<close>\<close>
  json_marshal :: "json \<Rightarrow> string option"    \<comment> \<open>\<open>json.Marshal\<close>\<close>

section \<open>Finite maps\<close>

lemma fmupd_same: "fmlookup m k = Some v \<Longrightarrow> fmupd k v m = m"
  by (rule fmap_ext) auto

lemma fmupd_fmdrop_swap:
  assumes "fmlookup m a = Some v" and "fmlookup m b = None"
  shows "fmupd a v (fmdrop b (fmupd b v (fmdrop a m))) = m"
  using assms by (intro fmap_ext) auto

lemma fmupd_twice [simp]: "fmupd k v (fmupd k w m) = fmupd k v m"
  by (rule fmap_ext) auto

end
