(* ===== verification/Transform.thy ===== *)
theory Transform
  imports Wire_Error Transform_Path Json
begin

text \<open>
  \<open>internal/transform/walk.go\<close> and \<open>internal/transform/transform.go\<close>: the two walkers that lead a
  verb to the objects holding its leaf, the four verbs, and \<open>ApplyRequest\<close> / \<open>ApplyResponse\<close>.

  The Go walkers mutate the decoded tree in place and hand \<open>fn\<close> the parent map of each leaf; the
  decoded tree shares no node, so the model returns the rewritten tree instead.  A tree half
  rewritten when a verb fails is dropped by \<open>apply\<close>, which returns no body then.  \<open>fail\<close> is the
  closure that picks 422 or 502.  \<open>op.To[len(op.To)-1]\<close> panics on an empty path: \<open>GoPanic\<close>.
\<close>

section \<open>walk.go\<close>

type_synonym fail_fn = "string \<Rightarrow> fault"
type_synonym leaf_fn = "obj \<Rightarrow> string \<Rightarrow> fault + obj"

definition coversByName :: "path list \<Rightarrow> path \<Rightarrow> bool" where
  "coversByName opts p = list_ex (\<lambda>opt. HasPrefixByName p opt) opts"

text \<open>\<open>on_object\<close> runs the rest of a walk below one array element.\<close>

fun on_object :: "fault \<Rightarrow> (obj \<Rightarrow> fault + obj) \<Rightarrow> json \<Rightarrow> fault + json" where
  "on_object e k (JObj sub) = sbind (k sub) (\<lambda>sub'. Inr (JObj sub'))"
| "on_object e k v = Inl e"

lemma on_object_cong [fundef_cong]:
  "e = e' \<Longrightarrow> v = v' \<Longrightarrow> (\<And>sub. v' = JObj sub \<Longrightarrow> k sub = k' sub) \<Longrightarrow> on_object e k v = on_object e' k' v'"
  by (cases v') auto

fun walkLeaves :: "obj \<Rightarrow> path \<Rightarrow> path list \<Rightarrow> fail_fn \<Rightarrow> leaf_fn \<Rightarrow> fault + obj" where
  "walkLeaves obj [] opts fail fn = Inl (fail ''internal: empty path'')"
| "walkLeaves obj [seg] opts fail fn = fn obj (seg_name seg)"
| "walkLeaves obj (seg # seg2 # rest) opts fail fn =
     (let p = seg # seg2 # rest;
          name = seg_name seg;
          val = fmlookup obj name
      in
        if val = None \<or> val = Some JNull then
          (if coversByName opts p then Inr obj
           else Inl (fail (''path '' @ path_string p @ '': segment '' @ name @ '' is absent'')))
        else if seg_array seg then
          (case the val of
             JArr arr \<Rightarrow>
               sbind
                 (smap (on_object
                     (fail (''path '' @ path_string p @ '': array element at '' @ name
                            @ '' is not an object''))
                     (\<lambda>sub. walkLeaves sub (seg2 # rest) opts fail fn)) arr)
                 (\<lambda>arr'. Inr (fmupd name (JArr arr') obj))
           | _ \<Rightarrow> Inl (fail (''path '' @ path_string p @ '': segment '' @ name @ '' is not an array'')))
        else
          (case the val of
             JObj sub \<Rightarrow>
               sbind (walkLeaves sub (seg2 # rest) opts fail fn)
                 (\<lambda>sub'. Inr (fmupd name (JObj sub') obj))
           | _ \<Rightarrow> Inl (fail (''path '' @ path_string p @ '': intermediate '' @ name
                             @ '' is not an object''))))"

fun walkLeavesEnsureObjects :: "obj \<Rightarrow> path \<Rightarrow> fail_fn \<Rightarrow> leaf_fn \<Rightarrow> fault + obj" where
  "walkLeavesEnsureObjects obj [] fail fn = Inl (fail ''internal: empty path'')"
| "walkLeavesEnsureObjects obj [seg] fail fn = fn obj (seg_name seg)"
| "walkLeavesEnsureObjects obj (seg # seg2 # rest) fail fn =
     (let p = seg # seg2 # rest;
          name = seg_name seg;
          val = fmlookup obj name;
          missing = (val = None \<or> val = Some JNull)
      in
        if seg_array seg then
          (if missing then
             Inl (fail (''path '' @ path_string p @ '': array segment '' @ name
                        @ '' is absent and cannot be auto-created''))
           else
             (case the val of
                JArr arr \<Rightarrow>
                  sbind
                    (smap (on_object
                        (fail (''path '' @ path_string p @ '': array element at '' @ name
                               @ '' is not an object''))
                        (\<lambda>sub. walkLeavesEnsureObjects sub (seg2 # rest) fail fn)) arr)
                    (\<lambda>arr'. Inr (fmupd name (JArr arr') obj))
              | _ \<Rightarrow> Inl (fail (''path '' @ path_string p @ '': segment '' @ name
                                @ '' is not an array''))))
        else if missing then
          sbind (walkLeavesEnsureObjects fmempty (seg2 # rest) fail fn)
            (\<lambda>sub'. Inr (fmupd name (JObj sub') obj))
        else
          (case the val of
             JObj sub \<Rightarrow>
               sbind (walkLeavesEnsureObjects sub (seg2 # rest) fail fn)
                 (\<lambda>sub'. Inr (fmupd name (JObj sub') obj))
           | _ \<Rightarrow> Inl (fail (''path '' @ path_string p @ '': intermediate '' @ name
                             @ '' exists as a non-object (cannot auto-create over it)''))))"

section \<open>transform.go\<close>

text \<open>What the YAML loader decodes a default's \<open>value\<close> into.\<close>

datatype yvalue =
    YNull | YBool bool | YInt int | YFloat f64 | YStr string
  | YSeq "yvalue list" | YMap "(string \<times> yvalue) list" | YTime string

fun go_type_name :: "yvalue \<Rightarrow> string" where
  "go_type_name (YSeq vs) = ''[]interface {}''"
| "go_type_name (YMap kvs) = ''map[string]interface {}''"
| "go_type_name (YTime t) = ''time.Time''"
| "go_type_name v = ''scalar''"

text \<open>A \<open>DefaultValue\<close> is the JSON scalar it injects.\<close>

fun NewDefaultValue :: "yvalue \<Rightarrow> string + json" where
  "NewDefaultValue YNull = Inr JNull"
| "NewDefaultValue (YBool b) = Inr (JBool b)"
| "NewDefaultValue (YInt n) = Inr (JInt n)"
| "NewDefaultValue (YFloat x) = Inr (JNum x)"
| "NewDefaultValue (YStr s) = Inr (JStr s)"
| "NewDefaultValue v = Inl (''default value must be a JSON scalar, got '' @ go_type_name v)"

datatype op =
    Rename (op_from: path) (op_to: path)
  | Default (op_field: path) (op_value: json)
  | Optionalize (op_field: path)
  | Coerce (op_field: path) (coerce_to: string)

fun op_kind :: "op \<Rightarrow> string" where
  "op_kind (Rename f t) = ''rename''"
| "op_kind (Default f v) = ''default''"
| "op_kind (Optionalize f) = ''optionalize''"
| "op_kind (Coerce f t) = ''coerce''"

definition format_bool :: "bool \<Rightarrow> string" where
  "format_bool b = (if b then ''true'' else ''false'')"

definition coerce :: "textlib \<Rightarrow> json \<Rightarrow> string \<Rightarrow> string + json" where
  "coerce lib v target =
     (if target = ''string'' then
        (case v of
           JStr s \<Rightarrow> Inr (JStr s)
         | JNum x \<Rightarrow> Inr (JStr (format_float lib x))
         | JBool b \<Rightarrow> Inr (JStr (format_bool b))
         | _ \<Rightarrow> Inl ''value is not a scalar'')
      else if target = ''number'' then
        (case v of
           JNum x \<Rightarrow> Inr (JNum x)
         | JStr s \<Rightarrow> (case parse_float lib s of
                       None \<Rightarrow> Inl ''string is not numeric'' | Some n \<Rightarrow> Inr (JNum n))
         | _ \<Rightarrow> Inl ''value cannot become a number'')
      else if target = ''bool'' then
        (case v of
           JBool b \<Rightarrow> Inr (JBool b)
         | JStr s \<Rightarrow> (if s = ''true'' then Inr (JBool True)
                      else if s = ''false'' then Inr (JBool False)
                      else Inl ''string is not true/false'')
         | _ \<Rightarrow> Inl ''value cannot become a bool'')
      else Inl (''unknown coerce target '' @ target))"

definition rename_leaf :: "fail_fn \<Rightarrow> path list \<Rightarrow> path \<Rightarrow> path \<Rightarrow> string \<Rightarrow> leaf_fn" where
  "rename_leaf fail opts from to toLeaf parent fromLeaf =
     (case fmlookup parent fromLeaf of
        None \<Rightarrow>
          (if coversByName opts from then Inr parent
           else Inl (fail (''rename source field '' @ path_string from @ '' is absent'')))
      | Some v \<Rightarrow>
          (if fmlookup parent toLeaf \<noteq> None
           then Inl (fail (''rename target field '' @ path_string to @ '' already present''))
           else Inr (fmupd toLeaf v (fmdrop fromLeaf parent))))"

definition default_leaf :: "json \<Rightarrow> leaf_fn" where
  "default_leaf value parent leaf =
     (if fmlookup parent leaf = None \<or> fmlookup parent leaf = Some JNull
      then Inr (fmupd leaf value parent) else Inr parent)"

definition coerce_leaf :: "textlib \<Rightarrow> fail_fn \<Rightarrow> path list \<Rightarrow> path \<Rightarrow> string \<Rightarrow> leaf_fn" where
  "coerce_leaf lib fail opts field target parent leaf =
     (case fmlookup parent leaf of
        None \<Rightarrow>
          (if coversByName opts field then Inr parent
           else Inl (fail (''coerce field '' @ path_string field @ '' is absent'')))
      | Some v \<Rightarrow>
          (case coerce lib v target of
             Inl err \<Rightarrow> Inl (fail (''coerce field '' @ path_string field @ '': '' @ err))
           | Inr cv \<Rightarrow> Inr (fmupd leaf cv parent)))"

text \<open>One turn of the loop over the ops: the tree and the optionalize set so far.\<close>

fun apply_op :: "textlib \<Rightarrow> fail_fn \<Rightarrow> obj \<times> path list \<Rightarrow> op \<Rightarrow> fault + obj \<times> path list" where
  "apply_op lib fail (obj, opts) (Optionalize f) = Inr (obj, opts @ [f])"
| "apply_op lib fail (obj, opts) (Rename from to) =
     (if to = [] then Inl (GoPanic ''index out of range'')
      else sbind (walkLeaves obj from opts fail (rename_leaf fail opts from to (seg_name (last to))))
             (\<lambda>obj'. Inr (obj', opts)))"
| "apply_op lib fail (obj, opts) (Default f v) =
     sbind (walkLeavesEnsureObjects obj f fail (default_leaf v)) (\<lambda>obj'. Inr (obj', opts))"
| "apply_op lib fail (obj, opts) (Coerce f target) =
     sbind (walkLeaves obj f opts fail (coerce_leaf lib fail opts f target))
       (\<lambda>obj'. Inr (obj', opts))"

definition apply_ops :: "textlib \<Rightarrow> fail_fn \<Rightarrow> op list \<Rightarrow> obj \<Rightarrow> fault + obj" where
  "apply_ops lib fail ops obj =
     sbind (sfold (apply_op lib fail) (obj, []) ops) (\<lambda>(obj', _). Inr obj')"

definition fail_as :: "bool \<Rightarrow> fail_fn" where
  "fail_as request reason =
     Wire (if request then TransformFailedRequest reason else TransformFailedResponse reason)"

definition apply_body :: "textlib \<Rightarrow> op list \<Rightarrow> string \<Rightarrow> bool \<Rightarrow> fault + string" where
  "apply_body lib ops body request =
     (if ops = [] then Inr body
      else
        (case json_unmarshal lib body of
           Some (JObj obj) \<Rightarrow>
             sbind (apply_ops lib (fail_as request) ops obj)
               (\<lambda>obj'. case json_marshal lib (JObj obj') of
                   None \<Rightarrow> Inl (fail_as request ''could not re-encode transformed body'')
                 | Some out \<Rightarrow> Inr out)
         | _ \<Rightarrow> Inl (fail_as request ''transform target is not a JSON object'')))"

definition ApplyRequest :: "textlib \<Rightarrow> op list \<Rightarrow> string \<Rightarrow> fault + string" where
  "ApplyRequest lib ops body = apply_body lib ops body True"

definition ApplyResponse :: "textlib \<Rightarrow> op list \<Rightarrow> string \<Rightarrow> fault + string" where
  "ApplyResponse lib ops body = apply_body lib ops body False"

end
