(* ===== verification/Transform_Walk.thy ===== *)
theory Transform_Walk
  imports Transform
begin

text \<open>
  What the two walkers of \<open>walk.go\<close> promise to the verbs, as the locale \<open>walker\<close>, and the facts
  about a verb that follow from the promise alone.  \<open>parents\<close> lists the objects a walk reaches;
  \<open>walkLeaves\<close> and \<open>walkLeavesEnsureObjects\<close> both interpret the locale.
\<close>

section \<open>The interface of a walker\<close>

locale walker =
  fixes walk :: "obj \<Rightarrow> path \<Rightarrow> leaf_fn \<Rightarrow> fault + obj"
    and parents :: "obj \<Rightarrow> path \<Rightarrow> obj list"
    and fail :: fail_fn
  assumes reaches: "walk obj p fn = Inr obj' \<Longrightarrow>
      smap (\<lambda>parent. fn parent (seg_name (last p))) (parents obj p) = Inr (parents obj' p)"
    and stable: "walk obj p fn = Inr obj' \<Longrightarrow>
      (\<And>parent. parent \<in> set (parents obj' p) \<Longrightarrow> gn parent (seg_name (last p)) = Inr parent) \<Longrightarrow>
      walk obj' p gn = Inr obj'"
    and frame: "walk obj p fn = Inr obj' \<Longrightarrow> 1 < length p \<Longrightarrow> k \<noteq> seg_name (hd p) \<Longrightarrow>
      fmlookup obj' k = fmlookup obj k"
    and errors: "walk obj p fn = Inl e \<Longrightarrow>
      (\<exists>reason. e = fail reason) \<or> (\<exists>parent. fn parent (seg_name (last p)) = Inl e)"
begin

text \<open>What a verb establishes at one leaf holds at every object it reached.\<close>

lemma establishes:
  assumes "walk obj p fn = Inr obj'"
    and "\<And>o1 o2. fn o1 (seg_name (last p)) = Inr o2 \<Longrightarrow> Q o2"
    and "parent \<in> set (parents obj' p)"
  shows "Q parent"
  using smap_Inr_mem [OF reaches [OF assms(1)] assms(3)] assms(2) by blast

text \<open>A walk relates the objects it reached before and after, one by one.\<close>

lemma pointwise:
  assumes "walk obj p fn = Inr obj'"
    and "\<And>o1 o2. fn o1 (seg_name (last p)) = Inr o2 \<Longrightarrow> R o1 o2"
  shows "list_all2 R (parents obj p) (parents obj' p)"
  using reaches [OF assms(1)] by (auto simp: smap_eq_Inr_iff elim!: list_all2_mono intro: assms(2))

text \<open>Running an idempotent verb a second time changes nothing.\<close>

lemma idempotent:
  assumes "walk obj p fn = Inr obj'"
    and "\<And>o1 o2. fn o1 (seg_name (last p)) = Inr o2 \<Longrightarrow> fn o2 (seg_name (last p)) = Inr o2"
  shows "walk obj' p fn = Inr obj'"
  using assms(1)
proof (rule stable)
  fix parent
  assume "parent \<in> set (parents obj' p)"
  from establishes [OF assms(1) _ this, where Q = "\<lambda>parent. fn parent (seg_name (last p)) = Inr parent"]
  show "fn parent (seg_name (last p)) = Inr parent" using assms(2) by blast
qed

lemma same_number: "walk obj p fn = Inr obj' \<Longrightarrow> length (parents obj' p) = length (parents obj p)"
  by (drule reaches) (rule smap_Inr_length)

end

section \<open>walkLeaves\<close>

definition sub_objects :: "(obj \<Rightarrow> obj list) \<Rightarrow> json list \<Rightarrow> obj list" where
  "sub_objects k arr = concat (map (\<lambda>el. case el of JObj sub \<Rightarrow> k sub | _ \<Rightarrow> []) arr)"

lemma sub_objects_cong [fundef_cong]:
  "arr = arr' \<Longrightarrow> (\<And>sub. JObj sub \<in> set arr' \<Longrightarrow> k sub = k' sub) \<Longrightarrow>
   sub_objects k arr = sub_objects k' arr'"
  unfolding sub_objects_def
  by (rule arg_cong [where f = concat]) (auto split: json.splits)

lemma sub_objects_simps [simp]:
  "sub_objects k [] = []"
  "sub_objects k (JObj sub # arr) = k sub @ sub_objects k arr"
  by (simp_all add: sub_objects_def)

fun leaf_parents :: "obj \<Rightarrow> path \<Rightarrow> obj list" where
  "leaf_parents obj [] = []"
| "leaf_parents obj [seg] = [obj]"
| "leaf_parents obj (seg # seg2 # rest) =
     (case fmlookup obj (seg_name seg) of
        Some (JArr arr) \<Rightarrow>
          (if seg_array seg then sub_objects (\<lambda>sub. leaf_parents sub (seg2 # rest)) arr else [])
      | Some (JObj sub) \<Rightarrow> (if seg_array seg then [] else leaf_parents sub (seg2 # rest))
      | _ \<Rightarrow> [])"

lemma smap_append:
  "smap f (xs @ ys) = sbind (smap f xs) (\<lambda>us. sbind (smap f ys) (\<lambda>vs. Inr (us @ vs)))"
  by (induction xs) (auto simp: sbind_assoc intro!: sbind_cong)

lemma on_object_eq_Inr:
  "on_object e k v = Inr w \<longleftrightarrow> (\<exists>sub sub'. v = JObj sub \<and> k sub = Inr sub' \<and> w = JObj sub')"
  by (cases v) (auto simp: result_simps)

lemma on_object_eq_Inl:
  "on_object e k v = Inl d \<Longrightarrow> d = e \<or> (\<exists>sub. k sub = Inl d)"
  by (cases v) (auto simp: result_simps)

text \<open>Lifting what a walk does below one array element to the whole array.\<close>

lemma array_reaches:
  assumes "smap (on_object e k) arr = Inr arr'"
    and "\<And>sub sub'. k sub = Inr sub' \<Longrightarrow> smap f (ps sub) = Inr (ps sub')"
  shows "smap f (sub_objects ps arr) = Inr (sub_objects ps arr')"
  using assms(1)
proof (induction arr arbitrary: arr')
  case Nil
  then show ?case by simp
next
  case (Cons v arr)
  then obtain sub sub' rest where
    "v = JObj sub" "k sub = Inr sub'" "smap (on_object e k) arr = Inr rest"
    "arr' = JObj sub' # rest"
    by (auto simp: result_simps on_object_eq_Inr)
  with Cons.IH assms(2) show ?case
    by (auto simp: smap_append result_simps)
qed

lemma array_stable:
  assumes "smap (on_object e k) arr = Inr arr'"
    and "\<And>sub sub'. k sub = Inr sub' \<Longrightarrow> set (ps sub') \<subseteq> set (sub_objects ps arr') \<Longrightarrow> h sub' = Inr sub'"
  shows "smap (on_object e' h) arr' = Inr arr'"
proof -
  have "on_object e' h w = Inr w" if w: "w \<in> set arr'" for w
  proof -
    from smap_Inr_mem [OF assms(1) w] obtain sub sub' where
      "w = JObj sub'" "k sub = Inr sub'"
      by (auto simp: on_object_eq_Inr)
    moreover from this w have "set (ps sub') \<subseteq> set (sub_objects ps arr')"
      by (force simp: sub_objects_def)
    ultimately show ?thesis
      using assms(2) by simp
  qed
  then show ?thesis
    by (auto simp: smap_eq_Inr_iff list_all2_conv_all_nth)
qed

lemma array_errors:
  "smap (on_object e k) arr = Inl d \<Longrightarrow> d = e \<or> (\<exists>sub. k sub = Inl d)"
  by (drule smap_Inl_mem) (auto dest: on_object_eq_Inl)

text \<open>The three ways a walk gets past an intermediate segment.\<close>

definition absent :: "obj \<Rightarrow> string \<Rightarrow> bool" where
  "absent obj k = (fmlookup obj k = None \<or> fmlookup obj k = Some JNull)"

lemma walkLeaves_deepE:
  assumes "walkLeaves obj (seg # seg2 # rest) opts fail fn = Inr obj'"
  obtains (skip) "absent obj (seg_name seg)" "coversByName opts (seg # seg2 # rest)" "obj' = obj"
  | (array) e arr arr' where "fmlookup obj (seg_name seg) = Some (JArr arr)" "seg_array seg"
      "smap (on_object e (\<lambda>sub. walkLeaves sub (seg2 # rest) opts fail fn)) arr = Inr arr'"
      "obj' = fmupd (seg_name seg) (JArr arr') obj"
  | (object) sub sub' where "fmlookup obj (seg_name seg) = Some (JObj sub)" "\<not> seg_array seg"
      "walkLeaves sub (seg2 # rest) opts fail fn = Inr sub'"
      "obj' = fmupd (seg_name seg) (JObj sub') obj"
proof (cases "absent obj (seg_name seg)")
  case True
  with assms skip show ?thesis by (simp add: Let_def absent_def split: if_splits)
next
  case False
  then obtain v where v: "fmlookup obj (seg_name seg) = Some v" "v \<noteq> JNull"
    by (auto simp: absent_def)
  show ?thesis
  proof (cases "seg_array seg")
    case True
    with assms v array show ?thesis
      by (simp add: Let_def result_simps split: json.splits) blast
  next
    case False
    with assms v object show ?thesis
      by (simp add: Let_def result_simps split: json.splits) blast
  qed
qed

lemma walkLeaves_deep [simp]:
  "absent obj (seg_name seg) \<Longrightarrow> coversByName opts (seg # seg2 # rest) \<Longrightarrow>
   walkLeaves obj (seg # seg2 # rest) opts fail fn = Inr obj"
  "fmlookup obj (seg_name seg) = Some (JArr arr) \<Longrightarrow> seg_array seg \<Longrightarrow>
   walkLeaves obj (seg # seg2 # rest) opts fail fn =
     sbind (smap (on_object
        (fail (''path '' @ path_string (seg # seg2 # rest) @ '': array element at '' @ seg_name seg
               @ '' is not an object''))
        (\<lambda>sub. walkLeaves sub (seg2 # rest) opts fail fn)) arr)
       (\<lambda>arr'. Inr (fmupd (seg_name seg) (JArr arr') obj))"
  "fmlookup obj (seg_name seg) = Some (JObj sub) \<Longrightarrow> \<not> seg_array seg \<Longrightarrow>
   walkLeaves obj (seg # seg2 # rest) opts fail fn =
     sbind (walkLeaves sub (seg2 # rest) opts fail fn)
       (\<lambda>sub'. Inr (fmupd (seg_name seg) (JObj sub') obj))"
  by (auto simp: Let_def absent_def)

lemma walkLeaves_deep_errors:
  assumes "walkLeaves obj (seg # seg2 # rest) opts fail fn = Inl d"
  shows "(\<exists>reason. d = fail reason) \<or> (\<exists>sub. walkLeaves sub (seg2 # rest) opts fail fn = Inl d)"
proof (cases "absent obj (seg_name seg)")
  case True
  with assms show ?thesis by (auto simp: Let_def absent_def split: if_splits)
next
  case False
  then obtain v where v: "fmlookup obj (seg_name seg) = Some v" "v \<noteq> JNull"
    by (auto simp: absent_def)
  show ?thesis
  proof (cases "seg_array seg")
    case True
    with assms v show ?thesis
      by (auto simp: Let_def result_simps split: json.splits dest!: array_errors)
  next
    case False
    with assms v show ?thesis
      by (auto simp: Let_def result_simps split: json.splits)
  qed
qed

declare walkLeaves.simps(3) [simp del]

lemma leaf_parents_deep [simp]:
  "absent obj (seg_name seg) \<Longrightarrow> leaf_parents obj (seg # seg2 # rest) = []"
  "fmlookup obj (seg_name seg) = Some (JArr arr) \<Longrightarrow> seg_array seg \<Longrightarrow>
   leaf_parents obj (seg # seg2 # rest) = sub_objects (\<lambda>sub. leaf_parents sub (seg2 # rest)) arr"
  "fmlookup obj (seg_name seg) = Some (JObj sub) \<Longrightarrow> \<not> seg_array seg \<Longrightarrow>
   leaf_parents obj (seg # seg2 # rest) = leaf_parents sub (seg2 # rest)"
  by (auto simp: absent_def)

declare leaf_parents.simps(3) [simp del]

lemma walkLeaves_reaches:
  "walkLeaves obj p opts fail fn = Inr obj' \<Longrightarrow>
   smap (\<lambda>parent. fn parent (seg_name (last p))) (leaf_parents obj p) = Inr (leaf_parents obj' p)"
proof (induction p arbitrary: obj obj' rule: induct_list012)
  case (3 seg seg2 rest)
  from "3.prems" show ?case
  proof (cases rule: walkLeaves_deepE)
    case skip
    then show ?thesis by simp
  next
    case (array e arr arr')
    from array(3) have "smap (\<lambda>parent. fn parent (seg_name (last (seg2 # rest))))
        (sub_objects (\<lambda>sub. leaf_parents sub (seg2 # rest)) arr)
      = Inr (sub_objects (\<lambda>sub. leaf_parents sub (seg2 # rest)) arr')"
      by (rule array_reaches) (rule "3.IH"(2))
    with array show ?thesis by simp
  next
    case (object sub sub')
    with "3.IH"(2) [OF object(3)] show ?thesis by simp
  qed
qed auto

lemma walkLeaves_stable:
  assumes "walkLeaves obj p opts fail fn = Inr obj'"
    and "\<And>parent. parent \<in> set (leaf_parents obj' p) \<Longrightarrow> gn parent (seg_name (last p)) = Inr parent"
  shows "walkLeaves obj' p opts fail gn = Inr obj'"
  using assms
proof (induction p arbitrary: obj obj' rule: induct_list012)
  case (3 seg seg2 rest)
  from "3.prems"(1) show ?case
  proof (cases rule: walkLeaves_deepE)
    case skip
    then show ?thesis by simp
  next
    case (array e arr arr')
    have "smap (on_object e' (\<lambda>sub. walkLeaves sub (seg2 # rest) opts fail gn)) arr' = Inr arr'" for e'
      using array(3)
    proof (rule array_stable)
      fix sub sub'
      assume "walkLeaves sub (seg2 # rest) opts fail fn = Inr sub'"
        and "set (leaf_parents sub' (seg2 # rest))
             \<subseteq> set (sub_objects (\<lambda>sub. leaf_parents sub (seg2 # rest)) arr')"
      with "3.prems"(2) array show "walkLeaves sub' (seg2 # rest) opts fail gn = Inr sub'"
        by (intro "3.IH"(2)) auto
    qed
    with array show ?thesis by (simp add: fmupd_same)
  next
    case (object sub sub')
    with "3.prems"(2) have "walkLeaves sub' (seg2 # rest) opts fail gn = Inr sub'"
      by (intro "3.IH"(2) [OF object(3)]) auto
    with object show ?thesis by (simp add: fmupd_same)
  qed
qed auto

lemma walkLeaves_frame:
  "walkLeaves obj p opts fail fn = Inr obj' \<Longrightarrow> 1 < length p \<Longrightarrow> k \<noteq> seg_name (hd p) \<Longrightarrow>
   fmlookup obj' k = fmlookup obj k"
  by (induction p rule: induct_list012) (auto elim!: walkLeaves_deepE)

lemma walkLeaves_errors:
  "walkLeaves obj p opts fail fn = Inl e \<Longrightarrow>
   (\<exists>reason. e = fail reason) \<or> (\<exists>parent. fn parent (seg_name (last p)) = Inl e)"
proof (induction p arbitrary: obj rule: induct_list012)
  case (3 seg seg2 rest)
  from walkLeaves_deep_errors [OF "3.prems"] show ?case
    using "3.IH"(2) by auto
qed auto

interpretation read_walk: walker "\<lambda>obj p fn. walkLeaves obj p opts fail fn" leaf_parents fail
  for opts fail
  by unfold_locales
    (fact walkLeaves_reaches, fact walkLeaves_stable, fact walkLeaves_frame, fact walkLeaves_errors)

section \<open>walkLeavesEnsureObjects\<close>

text \<open>The objects a write-mode walk reaches: an absent object intermediate counts as the fresh
  empty object the walk creates.\<close>

fun ensured_parents :: "obj \<Rightarrow> path \<Rightarrow> obj list" where
  "ensured_parents obj [] = []"
| "ensured_parents obj [seg] = [obj]"
| "ensured_parents obj (seg # seg2 # rest) =
     (case fmlookup obj (seg_name seg) of
        Some (JArr arr) \<Rightarrow>
          (if seg_array seg then sub_objects (\<lambda>sub. ensured_parents sub (seg2 # rest)) arr else [])
      | Some (JObj sub) \<Rightarrow> (if seg_array seg then [] else ensured_parents sub (seg2 # rest))
      | _ \<Rightarrow> (if seg_array seg then [] else ensured_parents fmempty (seg2 # rest)))"

lemma walkEnsure_deepE:
  assumes "walkLeavesEnsureObjects obj (seg # seg2 # rest) fail fn = Inr obj'"
  obtains (create) sub' where "absent obj (seg_name seg)" "\<not> seg_array seg"
      "walkLeavesEnsureObjects fmempty (seg2 # rest) fail fn = Inr sub'"
      "obj' = fmupd (seg_name seg) (JObj sub') obj"
  | (array) e arr arr' where "fmlookup obj (seg_name seg) = Some (JArr arr)" "seg_array seg"
      "smap (on_object e (\<lambda>sub. walkLeavesEnsureObjects sub (seg2 # rest) fail fn)) arr = Inr arr'"
      "obj' = fmupd (seg_name seg) (JArr arr') obj"
  | (object) sub sub' where "fmlookup obj (seg_name seg) = Some (JObj sub)" "\<not> seg_array seg"
      "walkLeavesEnsureObjects sub (seg2 # rest) fail fn = Inr sub'"
      "obj' = fmupd (seg_name seg) (JObj sub') obj"
proof (cases "absent obj (seg_name seg)")
  case True
  with assms create show ?thesis
    by (auto simp: Let_def absent_def result_simps split: if_splits)
next
  case False
  then obtain v where v: "fmlookup obj (seg_name seg) = Some v" "v \<noteq> JNull"
    by (auto simp: absent_def)
  show ?thesis
  proof (cases "seg_array seg")
    case True
    with assms v array show ?thesis
      by (simp add: Let_def result_simps split: json.splits) blast
  next
    case False
    with assms v object show ?thesis
      by (simp add: Let_def result_simps split: json.splits) blast
  qed
qed

lemma walkEnsure_deep [simp]:
  "fmlookup obj (seg_name seg) = Some (JArr arr) \<Longrightarrow> seg_array seg \<Longrightarrow>
   walkLeavesEnsureObjects obj (seg # seg2 # rest) fail fn =
     sbind (smap (on_object
        (fail (''path '' @ path_string (seg # seg2 # rest) @ '': array element at '' @ seg_name seg
               @ '' is not an object''))
        (\<lambda>sub. walkLeavesEnsureObjects sub (seg2 # rest) fail fn)) arr)
       (\<lambda>arr'. Inr (fmupd (seg_name seg) (JArr arr') obj))"
  "fmlookup obj (seg_name seg) = Some (JObj sub) \<Longrightarrow> \<not> seg_array seg \<Longrightarrow>
   walkLeavesEnsureObjects obj (seg # seg2 # rest) fail fn =
     sbind (walkLeavesEnsureObjects sub (seg2 # rest) fail fn)
       (\<lambda>sub'. Inr (fmupd (seg_name seg) (JObj sub') obj))"
  by (auto simp: Let_def)

lemma walkEnsure_deep_errors:
  assumes "walkLeavesEnsureObjects obj (seg # seg2 # rest) fail fn = Inl d"
  shows "(\<exists>reason. d = fail reason)
         \<or> (\<exists>sub. walkLeavesEnsureObjects sub (seg2 # rest) fail fn = Inl d)"
proof (cases "absent obj (seg_name seg)")
  case True
  with assms show ?thesis by (auto simp: Let_def absent_def result_simps split: if_splits)
next
  case False
  then obtain v where v: "fmlookup obj (seg_name seg) = Some v" "v \<noteq> JNull"
    by (auto simp: absent_def)
  show ?thesis
  proof (cases "seg_array seg")
    case True
    with assms v show ?thesis
      by (auto simp: Let_def result_simps split: json.splits dest!: array_errors)
  next
    case False
    with assms v show ?thesis
      by (auto simp: Let_def result_simps split: json.splits)
  qed
qed

declare walkLeavesEnsureObjects.simps(3) [simp del]

lemma ensured_parents_deep [simp]:
  "absent obj (seg_name seg) \<Longrightarrow> \<not> seg_array seg \<Longrightarrow>
   ensured_parents obj (seg # seg2 # rest) = ensured_parents fmempty (seg2 # rest)"
  "fmlookup obj (seg_name seg) = Some (JArr arr) \<Longrightarrow> seg_array seg \<Longrightarrow>
   ensured_parents obj (seg # seg2 # rest) = sub_objects (\<lambda>sub. ensured_parents sub (seg2 # rest)) arr"
  "fmlookup obj (seg_name seg) = Some (JObj sub) \<Longrightarrow> \<not> seg_array seg \<Longrightarrow>
   ensured_parents obj (seg # seg2 # rest) = ensured_parents sub (seg2 # rest)"
  by (auto simp: absent_def)

declare ensured_parents.simps(3) [simp del]

lemma walkEnsure_reaches:
  "walkLeavesEnsureObjects obj p fail fn = Inr obj' \<Longrightarrow>
   smap (\<lambda>parent. fn parent (seg_name (last p))) (ensured_parents obj p) = Inr (ensured_parents obj' p)"
proof (induction p arbitrary: obj obj' rule: induct_list012)
  case (3 seg seg2 rest)
  from "3.prems" show ?case
  proof (cases rule: walkEnsure_deepE)
    case (create sub')
    with "3.IH"(2) [OF create(3)] show ?thesis by simp
  next
    case (array e arr arr')
    from array(3) have "smap (\<lambda>parent. fn parent (seg_name (last (seg2 # rest))))
        (sub_objects (\<lambda>sub. ensured_parents sub (seg2 # rest)) arr)
      = Inr (sub_objects (\<lambda>sub. ensured_parents sub (seg2 # rest)) arr')"
      by (rule array_reaches) (rule "3.IH"(2))
    with array show ?thesis by simp
  next
    case (object sub sub')
    with "3.IH"(2) [OF object(3)] show ?thesis by simp
  qed
qed auto

lemma walkEnsure_stable:
  assumes "walkLeavesEnsureObjects obj p fail fn = Inr obj'"
    and "\<And>parent. parent \<in> set (ensured_parents obj' p) \<Longrightarrow> gn parent (seg_name (last p)) = Inr parent"
  shows "walkLeavesEnsureObjects obj' p fail gn = Inr obj'"
  using assms
proof (induction p arbitrary: obj obj' rule: induct_list012)
  case (3 seg seg2 rest)
  have sub_stable: "walkLeavesEnsureObjects sub' (seg2 # rest) fail gn = Inr sub'"
    if "walkLeavesEnsureObjects sub (seg2 # rest) fail fn = Inr sub'"
      and "set (ensured_parents sub' (seg2 # rest)) \<subseteq> set (ensured_parents obj' (seg # seg2 # rest))"
    for sub sub'
    using that "3.prems"(2) by (intro "3.IH"(2)) auto
  from "3.prems"(1) show ?case
  proof (cases rule: walkEnsure_deepE)
    case (create sub')
    then show ?thesis using sub_stable [OF create(3)] by (simp add: fmupd_same)
  next
    case (array e arr arr')
    have "smap (on_object e' (\<lambda>sub. walkLeavesEnsureObjects sub (seg2 # rest) fail gn)) arr' = Inr arr'"
      for e'
      using array(3) by (rule array_stable) (rule sub_stable, use array in auto)
    with array show ?thesis by (simp add: fmupd_same)
  next
    case (object sub sub')
    then show ?thesis using sub_stable [OF object(3)] by (simp add: fmupd_same)
  qed
qed auto

lemma walkEnsure_frame:
  "walkLeavesEnsureObjects obj p fail fn = Inr obj' \<Longrightarrow> 1 < length p \<Longrightarrow> k \<noteq> seg_name (hd p) \<Longrightarrow>
   fmlookup obj' k = fmlookup obj k"
  by (induction p rule: induct_list012) (auto elim!: walkEnsure_deepE)

lemma walkEnsure_errors:
  "walkLeavesEnsureObjects obj p fail fn = Inl e \<Longrightarrow>
   (\<exists>reason. e = fail reason) \<or> (\<exists>parent. fn parent (seg_name (last p)) = Inl e)"
proof (induction p arbitrary: obj rule: induct_list012)
  case (3 seg seg2 rest)
  from walkEnsure_deep_errors [OF "3.prems"] show ?case
    using "3.IH"(2) by auto
qed auto

interpretation write_walk: walker "\<lambda>obj p fn. walkLeavesEnsureObjects obj p fail fn" ensured_parents fail
  for fail
  by unfold_locales
    (fact walkEnsure_reaches, fact walkEnsure_stable, fact walkEnsure_frame, fact walkEnsure_errors)

section \<open>Undoing a walk\<close>

text \<open>Where a second verb restores at every object what the first one changed, a second walk
  over the same parents restores the whole tree.\<close>

lemma array_undo:
  assumes "smap (on_object e k) arr = Inr arr'"
    and "\<And>sub sub'. k sub = Inr sub' \<Longrightarrow> h sub' = Inr sub"
  shows "smap (on_object e' h) arr' = Inr arr"
  using assms(1)
proof (induction arr arbitrary: arr')
  case Nil
  then show ?case by simp
next
  case (Cons v arr)
  then show ?case by (auto simp: result_simps on_object_eq_Inr dest: assms(2))
qed

lemma walkLeaves_undo:
  assumes "walkLeaves obj p opts fail fn = Inr obj'"
    and "butlast q = butlast p" and "length q = length p"
    and "opts = []"
    and "\<And>o1 o2. fn o1 (seg_name (last p)) = Inr o2 \<Longrightarrow> gn o2 (seg_name (last q)) = Inr o1"
  shows "walkLeaves obj' q opts fail' gn = Inr obj"
  using assms(1-3,5)
proof (induction p arbitrary: q obj obj' rule: induct_list012)
  case 1
  then show ?case by simp
next
  case (2 seg)
  then show ?case by (cases q) auto
next
  case (3 seg seg2 rest)
  then obtain q2 qs where q: "q = seg # q2 # qs"
    by (auto simp: length_Suc_conv)
  have undo: "walkLeaves sub' (q2 # qs) opts fail' gn = Inr sub"
    if "walkLeaves sub (seg2 # rest) opts fail fn = Inr sub'" for sub sub'
    using that "3.prems"(2-4) q by (intro "3.IH"(2)) auto
  from "3.prems"(1) show ?case
  proof (cases rule: walkLeaves_deepE)
    case skip
    with assms(4) show ?thesis by (simp add: coversByName_def)
  next
    case (array e arr arr')
    have "smap (on_object e' (\<lambda>sub. walkLeaves sub (q2 # qs) opts fail' gn)) arr' = Inr arr" for e'
      using array(3) by (rule array_undo) (rule undo)
    with array q show ?thesis by (simp add: fmupd_same)
  next
    case (object sub sub')
    with undo q show ?thesis by (simp add: fmupd_same)
  qed
qed

end
