(* ===== verification/Transform_Facts.thy ===== *)
theory Transform_Facts
  imports Transform_Walk
begin

text \<open>
  What the four verbs of \<open>internal/transform/transform.go\<close> establish.  A verb is its leaf function
  under one of the two walkers, so each fact below is a fact about the leaf function lifted by the
  interpretations \<open>read_walk\<close> and \<open>write_walk\<close> of the locale \<open>walker\<close>.
\<close>

section \<open>Leaf functions\<close>

lemma rename_leafE:
  assumes "rename_leaf fail opts from to toLeaf o1 fromLeaf = Inr o2"
  obtains (skip) "fmlookup o1 fromLeaf = None" "coversByName opts from" "o2 = o1"
  | (moved) v where "fmlookup o1 fromLeaf = Some v" "fmlookup o1 toLeaf = None"
      "o2 = fmupd toLeaf v (fmdrop fromLeaf o1)"
  using assms unfolding rename_leaf_def by (cases "fmlookup o1 fromLeaf") (auto split: if_splits)

lemma coerce_leafE:
  assumes "coerce_leaf lib fail opts field target o1 leaf = Inr o2"
  obtains (skip) "fmlookup o1 leaf = None" "coversByName opts field" "o2 = o1"
  | (coerced) v w where "fmlookup o1 leaf = Some v" "coerce lib v target = Inr w" "o2 = fmupd leaf w o1"
  using assms unfolding coerce_leaf_def by (auto split: option.splits sum.splits if_splits)

lemma default_leaf_total: "\<exists>o2. default_leaf v o1 leaf = Inr o2"
  by (simp add: default_leaf_def)

lemma default_leaf_idem: "default_leaf v o1 leaf = Inr o2 \<Longrightarrow> default_leaf v o2 leaf = Inr o2"
  by (auto simp: default_leaf_def split: if_splits)

lemma default_leaf_present:
  "default_leaf v o1 leaf = Inr o2 \<Longrightarrow> \<exists>w. fmlookup o2 leaf = Some w \<and> (w = JNull \<longrightarrow> v = JNull)"
  by (auto simp: default_leaf_def split: if_splits)

lemma leaf_fn_fails:
  "rename_leaf fail opts from to toLeaf o1 leaf = Inl e \<Longrightarrow> \<exists>reason. e = fail reason"
  "coerce_leaf lib fail opts field target o1 leaf = Inl e \<Longrightarrow> \<exists>reason. e = fail reason"
  "default_leaf v o1 leaf = Inl e \<Longrightarrow> \<exists>reason. e = fail reason"
  by (auto simp: rename_leaf_def coerce_leaf_def default_leaf_def
      split: option.splits if_splits sum.splits)

lemma leaf_fn_frame:
  "rename_leaf fail opts from to toLeaf o1 leaf = Inr o2 \<Longrightarrow> k \<noteq> leaf \<Longrightarrow> k \<noteq> toLeaf \<Longrightarrow>
   fmlookup o2 k = fmlookup o1 k"
  "coerce_leaf lib fail opts field target o1 leaf = Inr o2 \<Longrightarrow> k \<noteq> leaf \<Longrightarrow> fmlookup o2 k = fmlookup o1 k"
  "default_leaf v o1 leaf = Inr o2 \<Longrightarrow> k \<noteq> leaf \<Longrightarrow> fmlookup o2 k = fmlookup o1 k"
    apply (erule rename_leafE; auto)
   apply (erule coerce_leafE; auto)
  apply (auto simp: default_leaf_def split: if_splits)
  done

text \<open>What \<open>coerce\<close> yields has the JSON type its target names, and a second \<open>coerce\<close> keeps it.\<close>

fun json_kind :: "json \<Rightarrow> string" where
  "json_kind (JStr s) = ''string''"
| "json_kind (JNum x) = ''number''"
| "json_kind (JInt n) = ''number''"
| "json_kind (JBool b) = ''bool''"
| "json_kind v = ''other''"

lemma coerce_kind: "coerce lib v t = Inr w \<Longrightarrow> json_kind w = t \<and> coerce lib w t = Inr w"
  by (cases v) (auto simp: coerce_def split: if_splits option.splits)

lemma coerce_int_fails: "\<exists>err. coerce lib (JInt n) t = Inl err"
  by (auto simp: coerce_def)

section \<open>One operation\<close>

lemma apply_op_cases:
  assumes "apply_op lib fail (obj, opts) x = Inr (obj', opts')"
  obtains (rename) src dst where "x = Rename src dst" "dst \<noteq> []" "opts' = opts"
      "walkLeaves obj src opts fail (rename_leaf fail opts src dst (seg_name (last dst))) = Inr obj'"
  | (default) f v where "x = Default f v" "opts' = opts"
      "walkLeavesEnsureObjects obj f fail (default_leaf v) = Inr obj'"
  | (optionalize) f where "x = Optionalize f" "opts' = opts @ [f]" "obj' = obj"
  | (coerce) f t where "x = Coerce f t" "opts' = opts"
      "walkLeaves obj f opts fail (coerce_leaf lib fail opts f t) = Inr obj'"
  using assms by (cases x) (auto simp: result_simps split: if_splits)

fun op_paths :: "op \<Rightarrow> path list" where
  "op_paths (Rename from to) = [from, to]"
| "op_paths (Default f v) = [f]"
| "op_paths (Optionalize f) = [f]"
| "op_paths (Coerce f t) = [f]"

definition op_names :: "op \<Rightarrow> string set" where
  "op_names x = seg_name ` (\<Union>p \<in> set (op_paths x). set p)"

definition op_wf :: "op \<Rightarrow> bool" where
  "op_wf x = list_all path_ok (op_paths x)"

lemma walk_frame_all:
  assumes "walkLeaves obj p opts fail fn = Inr obj'"
    and "\<And>o1 o2. fn o1 (seg_name (last p)) = Inr o2 \<Longrightarrow> fmlookup o2 k = fmlookup o1 k"
    and "k \<notin> seg_name ` set p"
  shows "fmlookup obj' k = fmlookup obj k"
proof (cases "1 < length p")
  case True
  moreover from True assms(3) have "k \<noteq> seg_name (hd p)" by (cases p) auto
  ultimately show ?thesis using read_walk.frame [OF assms(1)] by simp
next
  case False
  with assms show ?thesis by (cases p) auto
qed

lemma ensure_frame_all:
  assumes "walkLeavesEnsureObjects obj p fail fn = Inr obj'"
    and "\<And>o1 o2. fn o1 (seg_name (last p)) = Inr o2 \<Longrightarrow> fmlookup o2 k = fmlookup o1 k"
    and "k \<notin> seg_name ` set p"
  shows "fmlookup obj' k = fmlookup obj k"
proof (cases "1 < length p")
  case True
  moreover from True assms(3) have "k \<noteq> seg_name (hd p)" by (cases p) auto
  ultimately show ?thesis using write_walk.frame [OF assms(1)] by simp
next
  case False
  with assms show ?thesis by (cases p) auto
qed

lemma last_name: "p \<noteq> [] \<Longrightarrow> k \<notin> seg_name ` set p \<Longrightarrow> k \<noteq> seg_name (last p)"
  using last_in_set by blast

lemma apply_op_frame:
  assumes "apply_op lib fail (obj, opts) x = Inr (obj', opts')" and "k \<notin> op_names x"
  shows "fmlookup obj' k = fmlookup obj k"
  using assms(1)
proof (cases rule: apply_op_cases)
  case (rename src dst)
  with assms(2) have k: "k \<notin> seg_name ` set src" "k \<noteq> seg_name (last dst)"
    by (auto simp: op_names_def dest: last_in_set)
  from rename(4) _ k(1) show ?thesis
  proof (rule walk_frame_all)
    fix o1 o2
    assume o: "rename_leaf fail opts src dst (seg_name (last dst)) o1 (seg_name (last src)) = Inr o2"
    from rename(4) have "src \<noteq> []" by auto
    with k show "fmlookup o2 k = fmlookup o1 k"
      using leaf_fn_frame(1) [OF o] last_name by blast
  qed
next
  case (default f v)
  then have "f \<noteq> []" by auto
  with default assms(2) show ?thesis
    by (intro ensure_frame_all [OF default(3)]) (auto simp: op_names_def dest!: leaf_fn_frame(3) last_name)
next
  case (optionalize f)
  then show ?thesis by simp
next
  case (coerce f t)
  then have "f \<noteq> []" by auto
  with coerce assms(2) show ?thesis
    by (intro walk_frame_all [OF coerce(3)]) (auto simp: op_names_def dest!: leaf_fn_frame(2) last_name)
qed

lemma apply_op_fails:
  assumes "apply_op lib fail st x = Inl e" and "op_wf x"
  shows "\<exists>reason. e = fail reason"
proof -
  obtain obj opts where st: "st = (obj, opts)" by (cases st)
  have "path_ok p \<Longrightarrow> p \<noteq> []" for p by (auto simp: path_ok_def)
  with assms show ?thesis
    by (cases x)
      (auto simp: st result_simps op_wf_def path_ok_def
        dest!: read_walk.errors write_walk.errors leaf_fn_fails split: if_splits)
qed

lemma sfold_fails:
  "sfold f s xs = Inl e \<Longrightarrow> \<exists>x \<in> set xs. \<exists>t. f t x = Inl e"
  by (induction xs arbitrary: s) (auto simp: result_simps)

lemma apply_ops_fails:
  assumes "apply_ops lib fail ops obj = Inl e" and "list_all op_wf ops"
  shows "\<exists>reason. e = fail reason"
  using assms apply_op_fails
  by (fastforce simp: apply_ops_def result_simps list_all_iff dest!: sfold_fails)

text \<open>Whatever the operations are, a fault is the \<open>fail\<close> closure's or the panic of an empty path.\<close>

lemma apply_op_faults:
  assumes "apply_op lib fail st x = Inl e"
  shows "(\<exists>m. e = GoPanic m) \<or> (\<exists>reason. e = fail reason)"
proof -
  obtain obj opts where st: "st = (obj, opts)" by (cases st)
  with assms show ?thesis
    by (cases x)
      (auto simp: st result_simps dest!: read_walk.errors write_walk.errors leaf_fn_fails split: if_splits)
qed

lemma apply_ops_faults:
  assumes "apply_ops lib fail ops obj = Inl e"
  shows "(\<exists>m. e = GoPanic m) \<or> (\<exists>reason. e = fail reason)"
proof -
  from assms have "sfold (apply_op lib fail) (obj, []) ops = Inl e"
    by (auto simp: apply_ops_def result_simps)
  then obtain x t where "apply_op lib fail t x = Inl e" using sfold_fails by meson
  then show ?thesis by (rule apply_op_faults)
qed

lemma apply_body_fails:
  assumes "apply_body lib ops body request = Inl e" and "list_all op_wf ops"
  shows "\<exists>reason. e = fail_as request reason"
proof -
  from assms(1) consider reason where "e = fail_as request reason"
    | obj where "apply_ops lib (fail_as request) ops obj = Inl e"
    by (auto simp: apply_body_def result_simps split: if_splits option.splits json.splits)
  then show ?thesis
    using apply_ops_fails [OF _ assms(2)] by cases blast+
qed

lemma apply_ops_single:
  "apply_ops lib fail [x] obj = sbind (apply_op lib fail (obj, []) x) (\<lambda>(obj', _). Inr obj')"
  by (simp add: apply_ops_def sbind_assoc)

section \<open>Optionalize\<close>

lemma coversByName_mono: "set opts \<subseteq> set opts' \<Longrightarrow> coversByName opts p \<Longrightarrow> coversByName opts' p"
  by (auto simp: coversByName_def list_ex_iff)

lemma array_mono:
  assumes "smap (on_object e k) arr = Inr arr'" and "\<And>sub sub'. k sub = Inr sub' \<Longrightarrow> h sub = Inr sub'"
  shows "smap (on_object e' h) arr = Inr arr'"
  using assms(1)
  by (induction arr arbitrary: arr') (auto simp: result_simps on_object_eq_Inr dest: assms(2))

lemma walkLeaves_mono:
  assumes "walkLeaves obj p opts fail fn = Inr obj'"
    and "set opts \<subseteq> set opts'"
    and "\<And>o1 o2. fn o1 (seg_name (last p)) = Inr o2 \<Longrightarrow> gn o1 (seg_name (last p)) = Inr o2"
  shows "walkLeaves obj p opts' fail gn = Inr obj'"
  using assms(1,3)
proof (induction p arbitrary: obj obj' rule: induct_list012)
  case (3 seg seg2 rest)
  have sub: "walkLeaves sub (seg2 # rest) opts' fail gn = Inr sub'"
    if "walkLeaves sub (seg2 # rest) opts fail fn = Inr sub'" for sub sub'
    using that "3.prems"(2) by (intro "3.IH"(2)) auto
  from "3.prems"(1) show ?case
  proof (cases rule: walkLeaves_deepE)
    case skip
    with coversByName_mono [OF assms(2)] show ?thesis by simp
  next
    case (array e arr arr')
    have "smap (on_object e' (\<lambda>sub. walkLeaves sub (seg2 # rest) opts' fail gn)) arr = Inr arr'" for e'
      using array(3) by (rule array_mono) (rule sub)
    with array show ?thesis by simp
  next
    case (object sub1 sub1')
    then show ?thesis using sub [OF object(3)] by simp
  qed
qed auto

lemma rename_leaf_mono:
  "rename_leaf fail opts src dst toLeaf o1 leaf = Inr o2 \<Longrightarrow> set opts \<subseteq> set opts' \<Longrightarrow>
   rename_leaf fail opts' src dst toLeaf o1 leaf = Inr o2"
  by (erule rename_leafE) (simp_all add: rename_leaf_def coversByName_mono)

lemma coerce_leaf_mono:
  "coerce_leaf lib fail opts f t o1 leaf = Inr o2 \<Longrightarrow> set opts \<subseteq> set opts' \<Longrightarrow>
   coerce_leaf lib fail opts' f t o1 leaf = Inr o2"
  by (erule coerce_leafE) (simp_all add: coerce_leaf_def coversByName_mono)

lemma apply_op_mono:
  assumes "apply_op lib fail (obj, opts) x = Inr (obj1, opts1)" and "set opts \<subseteq> set opts'"
  shows "\<exists>opts1'. apply_op lib fail (obj, opts') x = Inr (obj1, opts1') \<and> set opts1 \<subseteq> set opts1'"
  using assms(1)
proof (cases rule: apply_op_cases)
  case (rename src dst)
  have "walkLeaves obj src opts' fail (rename_leaf fail opts' src dst (seg_name (last dst))) = Inr obj1"
    using rename(4) assms(2)
    by (rule walkLeaves_mono) (rule rename_leaf_mono [OF _ assms(2)])
  with rename assms(2) show ?thesis by simp
next
  case (coerce f t)
  have "walkLeaves obj f opts' fail (coerce_leaf lib fail opts' f t) = Inr obj1"
    using coerce(3) assms(2)
    by (rule walkLeaves_mono) (rule coerce_leaf_mono [OF _ assms(2)])
  with coerce assms(2) show ?thesis by simp
qed (use assms(2) in auto)

lemma apply_ops_mono_state:
  assumes "sfold (apply_op lib fail) (obj, opts) ops = Inr (obj1, opts1)" and "set opts \<subseteq> set opts'"
  shows "\<exists>opts1'. sfold (apply_op lib fail) (obj, opts') ops = Inr (obj1, opts1')"
  using assms
proof (induction ops arbitrary: obj opts opts')
  case (Cons x ops)
  from Cons.prems(1) obtain obj2 opts2 where x: "apply_op lib fail (obj, opts) x = Inr (obj2, opts2)"
    and rest: "sfold (apply_op lib fail) (obj2, opts2) ops = Inr (obj1, opts1)"
    by (auto simp: result_simps)
  from apply_op_mono [OF x Cons.prems(2)] obtain opts2' where
    "apply_op lib fail (obj, opts') x = Inr (obj2, opts2')" "set opts2 \<subseteq> set opts2'" by auto
  with Cons.IH [OF rest] show ?case by simp
qed simp

section \<open>Rename and default\<close>

lemma rename_undone:
  assumes "apply_op lib fail (obj, []) (Rename from to) = Inr (obj', [])"
    and "butlast from = butlast to" and "length from = length to"
  shows "apply_op lib fail (obj', []) (Rename to from) = Inr (obj, [])"
proof -
  from assms(1) have ne: "to \<noteq> []" by (auto split: if_splits)
  with assms(3) have fne: "from \<noteq> []" by auto
  from assms(1) ne have w:
    "walkLeaves obj from [] fail (rename_leaf fail [] from to (seg_name (last to))) = Inr obj'"
    by (auto simp: result_simps)
  have "walkLeaves obj' to [] fail (rename_leaf fail [] to from (seg_name (last from))) = Inr obj"
    using w
  proof (rule walkLeaves_undo)
    fix o1 o2
    assume "rename_leaf fail [] from to (seg_name (last to)) o1 (seg_name (last from)) = Inr o2"
    then show "rename_leaf fail [] to from (seg_name (last from)) o2 (seg_name (last to)) = Inr o1"
      by (cases rule: rename_leafE)
        (auto simp: rename_leaf_def coversByName_def fmupd_fmdrop_swap split: option.splits)
  qed (use assms in auto)
  with fne show ?thesis by simp
qed

lemma default_twice:
  "sbind (apply_op lib fail (obj, opts) (Default f v)) (\<lambda>st. apply_op lib fail st (Default f v))
     = apply_op lib fail (obj, opts) (Default f v)"
proof (cases "walkLeavesEnsureObjects obj f fail (default_leaf v)")
  case (Inr obj')
  then have "walkLeavesEnsureObjects obj' f fail (default_leaf v) = Inr obj'"
    by (rule write_walk.idempotent) (rule default_leaf_idem)
  with Inr show ?thesis by simp
qed simp

section \<open>Properties\<close>

text \<open>C8. Undoing a rename: on every tree on which \<open>rename from to\<close> succeeds (\<open>to\<close> shares every
  segment of \<open>from\<close> but the leaf, which is what the loader enforces), \<open>rename to from\<close> after it
  succeeds as well and gives back the original tree, through arrays and nested objects.\<close>

theorem rename_round_trip:
  assumes "apply_ops lib fail [Rename src dst] obj = Inr obj'"
    and "butlast src = butlast dst" and "length src = length dst"
  shows "apply_ops lib fail [Rename src dst, Rename dst src] obj = Inr obj"
proof -
  from assms(1) have "apply_op lib fail (obj, []) (Rename src dst) = Inr (obj', [])"
    by (auto simp: apply_ops_def result_simps split: if_splits)
  from this rename_undone [OF this assms(2,3)] show ?thesis
    by (simp add: apply_ops_def del: apply_op.simps)
qed

text \<open>C9. What one verb does to the tree, object by object.  The objects its path reaches before
  and after correspond one to one, and each pair is as the verb promises: a rename takes the value
  out of the old field and puts it into the new one, which was free; a default fills an absent or
  null leaf and keeps any other; a coerce replaces the leaf by a value of the JSON type asked for
  (the one \<open>coerce\<close> computes).\<close>

theorem op_postcondition:
  assumes "apply_op lib fail (obj, []) x = Inr (obj', opts')"
  shows "case x of
      Rename src dst \<Rightarrow>
        list_all2 (\<lambda>o1 o2. \<exists>v. fmlookup o1 (seg_name (last src)) = Some v \<and>
            fmlookup o1 (seg_name (last dst)) = None \<and>
            o2 = fmupd (seg_name (last dst)) v (fmdrop (seg_name (last src)) o1))
          (leaf_parents obj src) (leaf_parents obj' src)
    | Default f v \<Rightarrow>
        list_all2 (\<lambda>o1 o2. o2 = (if absent o1 (seg_name (last f)) then fmupd (seg_name (last f)) v o1 else o1))
          (ensured_parents obj f) (ensured_parents obj' f)
    | Optionalize f \<Rightarrow> obj' = obj \<and> opts' = [f]
    | Coerce f t \<Rightarrow>
        list_all2 (\<lambda>o1 o2. \<exists>v w. fmlookup o1 (seg_name (last f)) = Some v \<and> coerce lib v t = Inr w \<and>
            json_kind w = t \<and> o2 = fmupd (seg_name (last f)) w o1)
          (leaf_parents obj f) (leaf_parents obj' f)"
  using assms
proof (cases rule: apply_op_cases)
  case (rename src dst)
  show ?thesis unfolding rename(1) op.case
    using rename(4) by (rule read_walk.pointwise) (erule rename_leafE; auto simp: coversByName_def)
next
  case (default f v)
  show ?thesis unfolding default(1) op.case
    using default(3) by (rule write_walk.pointwise) (auto simp: default_leaf_def absent_def split: if_splits)
next
  case (optionalize f)
  then show ?thesis by simp
next
  case (coerce f t)
  show ?thesis unfolding coerce(1) op.case
    using coerce(3) by (rule read_walk.pointwise)
      (erule coerce_leafE; auto simp: coversByName_def dest: coerce_kind)
qed

text \<open>A stanza touches only the fields it names: a top-level field whose name occurs in no
  path of the stanza has the same value before and after.\<close>

theorem apply_ops_frame:
  assumes "apply_ops lib fail ops obj = Inr obj'" and "k \<notin> (\<Union>x \<in> set ops. op_names x)"
  shows "fmlookup obj' k = fmlookup obj k"
proof -
  from assms(1) obtain opts' where "sfold (apply_op lib fail) (obj, []) ops = Inr (obj', opts')"
    by (auto simp: apply_ops_def result_simps)
  then have "fmlookup (fst (obj', opts')) k = fmlookup obj k"
    by (rule sfold_invariant [where P = "\<lambda>st. fmlookup (fst st) k = fmlookup obj k"])
      (use assms(2) apply_op_frame in fastforce)+
  then show ?thesis by simp
qed

text \<open>\<open>optionalize\<close> only widens what is accepted: a stanza that succeeds gives the same tree
  when further \<open>optionalize\<close> verbs are put in front of it.\<close>

theorem optionalize_monotone:
  assumes "apply_ops lib fail ops obj = Inr obj'"
  shows "apply_ops lib fail (map Optionalize fs @ ops) obj = Inr obj'"
proof -
  have opts: "sfold (apply_op lib fail) (obj, opts) (map Optionalize fs) = Inr (obj, opts @ fs)" for opts
    by (induction fs arbitrary: opts) auto
  from assms obtain opts' where "sfold (apply_op lib fail) (obj, []) ops = Inr (obj', opts')"
    by (auto simp: apply_ops_def result_simps)
  from apply_ops_mono_state [OF this, of fs] show ?thesis
    by (auto simp: apply_ops_def sfold_append opts)
qed

text \<open>\<open>default\<close> is idempotent: authored twice, it does on every body, failing ones included,
  exactly what it does once.\<close>

theorem default_idempotent:
  "apply_ops lib fail [Default f v, Default f v] obj = apply_ops lib fail [Default f v] obj"
proof -
  let ?s = "apply_op lib fail (obj, []) (Default f v)"
  have "apply_ops lib fail [Default f v, Default f v] obj
      = sbind (sbind ?s (\<lambda>st. apply_op lib fail st (Default f v))) (\<lambda>(obj', _). Inr obj')"
    by (simp add: apply_ops_def sbind_assoc del: apply_op.simps)
  also have "\<dots> = apply_ops lib fail [Default f v] obj"
    unfolding default_twice apply_ops_single ..
  finally show ?thesis .
qed

text \<open>A stanza of well-formed operations fails only with \<open>transform_failed\<close>: status 422 and the
  client's fault on a request, 502 and the upstream's on a response, never a panic.\<close>

theorem transform_failures:
  assumes "list_all op_wf ops" and "apply_body lib ops body request = Inl e"
  shows "\<exists>reason. e = Wire (if request then TransformFailedRequest reason
                            else TransformFailedResponse reason)"
  using apply_body_fails [OF assms(2,1)] by (simp add: fail_as_def)

text \<open>\<open>optionalize a.b\<close> covers \<open>a.b.c\<close> only while \<open>a\<close> is absent: with \<open>a\<close> present and empty, a
  rename below \<open>a.b\<close> fails although the verb declares \<open>a.b\<close> optional.  The walk compares the
  declared path with the remainder of the walked one.\<close>

theorem optionalize_covers_only_from_root:
  assumes "a \<noteq> b"
    and "ops = [Optionalize [fld a, fld b], Rename [fld a, fld b, fld c] [fld a, fld b, fld d]]"
  shows "apply_ops lib fail ops fmempty = Inr fmempty \<and>
    (\<exists>reason. apply_ops lib fail ops (fmupd a (JObj fmempty) fmempty) = Inl (fail reason))"
  using assms
  by (auto simp: apply_ops_def walkLeaves.simps(3) coversByName_def HasPrefixByName_def fld_def)

text \<open>A \<open>default\<close> authored as a YAML integer cannot be coerced: it is injected as a Go integer,
  which \<open>coerce\<close> knows for no target, so the pair always fails where the default fires.\<close>

theorem integer_default_not_coercible:
  assumes "fmlookup obj (seg_name seg) = None \<or> fmlookup obj (seg_name seg) = Some JNull"
    and "NewDefaultValue (YInt n) = Inr v"
  shows "\<exists>reason. apply_ops lib fail [Default [seg] v, Coerce [seg] t] obj = Inl (fail reason)"
  using assms coerce_int_fails [of lib n t]
  by (auto simp: apply_ops_def default_leaf_def coerce_leaf_def)

section \<open>Witnesses\<close>

text \<open>A text codec for the witnesses below, which do not read or write text.\<close>

definition no_text :: textlib where
  "no_text = \<lparr>format_float = \<lambda>x. ''0'', parse_float = \<lambda>s. None,
              json_unmarshal = \<lambda>s. None, json_marshal = \<lambda>v. None\<rparr>"


definition two_items :: obj where
  "two_items = fmupd ''items'' (JArr [JObj (fmupd ''id'' (JBool True) fmempty),
                                      JObj (fmupd ''id'' JNull fmempty)]) fmempty"

lemma two_items_lookup: "fmlookup two_items ''items'' =
    Some (JArr [JObj (fmupd ''id'' (JBool True) fmempty), JObj (fmupd ''id'' JNull fmempty)])"
  by (simp add: two_items_def)

definition two_keys :: obj where
  "two_keys = fmupd ''items'' (JArr [JObj (fmupd ''key'' (JBool True) fmempty),
                                     JObj (fmupd ''key'' JNull fmempty)]) fmempty"

lemma two_items_renamed:
  "apply_ops no_text fail [Rename [each ''items'', fld ''id''] [each ''items'', fld ''key'']] two_items
     = Inr two_keys"
  by (simp add: apply_ops_def two_items_def two_keys_def rename_leaf_def fmdrop_fmupd)

theorem rename_round_trip_witness:
  "apply_ops no_text (fail_as True)
     [Rename [each ''items'', fld ''id''] [each ''items'', fld ''key''],
      Rename [each ''items'', fld ''key''] [each ''items'', fld ''id'']] two_items = Inr two_items"
  by (rule rename_round_trip [OF two_items_renamed]) simp_all

theorem op_postcondition_witness:
  "list_all2 (\<lambda>o1 o2. \<exists>v. fmlookup o1 ''id'' = Some v \<and> fmlookup o1 ''key'' = None \<and>
       o2 = fmupd ''key'' v (fmdrop ''id'' o1))
     (leaf_parents two_items [each ''items'', fld ''id'']) (leaf_parents two_keys [each ''items'', fld ''id''])"
proof -
  have "apply_op no_text (fail_as True) (two_items, [])
      (Rename [each ''items'', fld ''id''] [each ''items'', fld ''key'']) = Inr (two_keys, [])"
    using two_items_renamed [of "fail_as True"] by (auto simp: apply_ops_def result_simps)
  from op_postcondition [OF this] show ?thesis by simp
qed

theorem apply_ops_frame_witness:
  "fmlookup (fmupd ''b'' (JInt 1) (fmupd ''a'' JNull fmempty)) ''a'' = fmlookup (fmupd ''a'' JNull fmempty) ''a''"
  by (rule apply_ops_frame [where lib = no_text and fail = "fail_as True" and ops = "[Default [fld ''b''] (JInt 1)]"])
    (simp_all add: apply_ops_def default_leaf_def op_names_def)

theorem optionalize_monotone_witness:
  "apply_ops no_text (fail_as False) (map Optionalize [[fld ''x''], [fld ''items'']]
     @ [Rename [each ''items'', fld ''id''] [each ''items'', fld ''key'']]) two_items = Inr two_keys"
  by (rule optionalize_monotone) (rule two_items_renamed)

theorem transform_failures_witness:
  "\<exists>reason. apply_body (no_text\<lparr>json_unmarshal := \<lambda>s. Some (JObj fmempty)\<rparr>)
      [Coerce [fld ''n''] ''number''] ''{}'' False = Inl (Wire (TransformFailedResponse reason))"
proof -
  let ?r = "apply_body (no_text\<lparr>json_unmarshal := \<lambda>s. Some (JObj fmempty)\<rparr>)
      [Coerce [fld ''n''] ''number''] ''{}'' False"
  obtain e where e: "?r = Inl e"
    by (simp add: apply_body_def apply_ops_def coerce_leaf_def coversByName_def)
  have "list_all op_wf [Coerce [fld ''n''] ''number'']"
    by (simp add: op_wf_def path_ok_def name_ok_def contains_any_def)
  from transform_failures [OF this e] e show ?thesis by simp
qed

theorem optionalize_covers_only_from_root_witness:
  "\<exists>reason. apply_ops no_text (fail_as True)
     [Optionalize [fld ''a'', fld ''b''],
      Rename [fld ''a'', fld ''b'', fld ''c''] [fld ''a'', fld ''b'', fld ''d'']]
     (fmupd ''a'' (JObj fmempty) fmempty) = Inl (fail_as True reason)"
  using optionalize_covers_only_from_root [of "''a''" "''b''" _ "''c''" "''d''" no_text "fail_as True"]
  by auto

theorem integer_default_not_coercible_witness:
  "\<exists>reason. apply_ops no_text (fail_as True)
     [Default [fld ''n''] (JInt 3), Coerce [fld ''n''] ''string''] fmempty = Inl (fail_as True reason)"
  by (rule integer_default_not_coercible [of _ _ 3]) simp_all

end
