(* ===== verification/Bundle.thy ===== *)
theory Bundle
  imports Transform_Facts "HOL-Library.AList"
begin

text \<open>
  The in-memory model of \<open>internal/bundle/bundle.go\<close>: contracts, selectors, the loaded bundle and
  its three lookups.  A Go map is an association list with distinct keys; where the code ranges
  over a map, the list order is the iteration order.

  A \<open>Contract\<close> points at the contracts of its transform chain.  The runtime reads the bindings and
  operations of the chain's members, never their own chains, so \<open>bound\<close> extends the record
  \<open>contract\<close> by a list of plain contracts.

  Protobuf descriptors come from a library: \<open>'m\<close> is its type of message descriptors, and
  \<open>files\<close> the registry built from the bundle's descriptor set, as its lookup function.
\<close>

section \<open>Contracts\<close>

record contract =
  c_version :: string
  c_route :: string
  c_method :: string
  request_message :: string
  response_message :: string
  request_ops :: "op list"
  response_ops :: "op list"
  target :: string
  transform_target :: string
  error_messages :: "(int \<times> string) list"
  error_response_ops :: "(int \<times> op list) list"
  strict :: bool

record bound = contract +
  chain :: "contract list"

text \<open>An absent entry of \<open>errorResponseOps\<close> is a nil slice: no operations.\<close>

definition ErrorResponseOps :: "'a contract_scheme \<Rightarrow> int \<Rightarrow> op list" where
  "ErrorResponseOps c status =
     (case map_of (error_response_ops c) status of None \<Rightarrow> [] | Some ops \<Rightarrow> ops)"

definition ErrorMessage :: "'a contract_scheme \<Rightarrow> int \<Rightarrow> string option" where
  "ErrorMessage c status = map_of (error_messages c) status"

section \<open>Selectors\<close>

record selectors =
  profile :: string
  tenant :: string
  cohort :: string

definition no_selectors :: selectors where
  "no_selectors = \<lparr>profile = '''', tenant = '''', cohort = ''''\<rparr>"

definition selectorMatches :: "selectors \<Rightarrow> selectors \<Rightarrow> bool" where
  "selectorMatches rule request =
     ((profile rule = '''' \<or> profile rule = profile request) \<and>
      (tenant rule = '''' \<or> tenant rule = tenant request) \<and>
      (cohort rule = '''' \<or> cohort rule = cohort request))"

definition selectorOverlap :: "selectors \<Rightarrow> selectors \<Rightarrow> bool" where
  "selectorOverlap a b =
     ((profile a = '''' \<or> profile b = '''' \<or> profile a = profile b) \<and>
      (tenant a = '''' \<or> tenant b = '''' \<or> tenant a = tenant b) \<and>
      (cohort a = '''' \<or> cohort b = '''' \<or> cohort a = cohort b))"

definition selectorEmpty :: "selectors \<Rightarrow> bool" where
  "selectorEmpty s = (s = no_selectors)"

section \<open>The bundle\<close>

datatype 'm descriptor = MessageDescriptor 'm | OtherDescriptor

type_synonym 'm registry = "string \<Rightarrow> 'm descriptor option"
type_synonym contract_key = "string \<times> string \<times> string"   \<comment> \<open>version, route, method\<close>
type_synonym 'c version_index = "(string \<times> 'c list) list"

record 'm contract_bundle =
  contracts :: "bound list"
  by_version :: "bound version_index"
  selector_variants :: "(contract_key \<times> (selectors \<times> bound) list) list"
  files :: "'m registry"

text \<open>\<open>m[k] = append(m[k], v)\<close>, and \<open>m[k]\<close> of a map of slices.\<close>

definition multi_get :: "('k \<times> 'v list) list \<Rightarrow> 'k \<Rightarrow> 'v list" where
  "multi_get m k = (case map_of m k of None \<Rightarrow> [] | Some vs \<Rightarrow> vs)"

definition multi_add :: "'k \<Rightarrow> 'v \<Rightarrow> ('k \<times> 'v list) list \<Rightarrow> ('k \<times> 'v list) list" where
  "multi_add k v m = AList.update k (multi_get m k @ [v]) m"

definition binds :: "string \<Rightarrow> string \<Rightarrow> 'a contract_scheme \<Rightarrow> bool" where
  "binds path meth c = (c_route c = path \<and> c_method c = meth)"

definition Contract :: "'m contract_bundle \<Rightarrow> string \<Rightarrow> bound option" where
  "Contract b version =
     (case map_of (by_version b) version of
        None \<Rightarrow> None
      | Some cs \<Rightarrow> (case cs of [] \<Rightarrow> None | c # _ \<Rightarrow> Some c))"

definition LookupRoute :: "'m contract_bundle \<Rightarrow> string \<Rightarrow> string \<Rightarrow> bound option" where
  "LookupRoute b path meth = find (binds path meth) (contracts b)"

definition Lookup ::
  "'m contract_bundle \<Rightarrow> string \<Rightarrow> string \<Rightarrow> string \<Rightarrow> selectors list \<Rightarrow> bound option" where
  "Lookup b path meth version sels =
     (case map_of (by_version b) version of
        None \<Rightarrow> None
      | Some cs \<Rightarrow>
          let selected = (case sels of [] \<Rightarrow> no_selectors | s # _ \<Rightarrow> s) in
          (case find (binds path meth) cs of
             None \<Rightarrow> None
           | Some c \<Rightarrow>
               (case find (\<lambda>v. selectorMatches (fst v) selected)
                       (multi_get (selector_variants b) (version, path, meth)) of
                  Some v \<Rightarrow> Some (snd v)
                | None \<Rightarrow> Some c)))"

definition Versions :: "'m contract_bundle \<Rightarrow> string list" where
  "Versions b = sort (map fst (by_version b))"

definition Message :: "'m contract_bundle \<Rightarrow> string \<Rightarrow> 'm option" where
  "Message b name =
     (case files b name of Some (MessageDescriptor md) \<Rightarrow> Some md | _ \<Rightarrow> None)"

section \<open>Maps of slices\<close>

lemma multi_get_simps [simp]: "multi_get [] k = []"
  by (simp add: multi_get_def)

lemma multi_get_add [simp]:
  "multi_get (multi_add k v m) k' = (if k' = k then multi_get m k @ [v] else multi_get m k')"
  by (simp add: multi_get_def multi_add_def update_conv')

lemma map_of_multi_add:
  "map_of (multi_add k v m) k' = (if k' = k then Some (multi_get m k @ [v]) else map_of m k')"
  by (simp add: multi_add_def update_conv')

lemma map_of_multi_get: "map_of m k = Some vs \<Longrightarrow> multi_get m k = vs"
  by (simp add: multi_get_def)

lemma distinct_multi_add: "distinct (map fst m) \<Longrightarrow> distinct (map fst (multi_add k v m))"
  by (simp add: multi_add_def distinct_update)

lemma keys_multi_add: "set (map fst (multi_add k v m)) = insert k (set (map fst m))"
  by (simp add: multi_add_def dom_update)

section \<open>Rules and the requests they match\<close>

text \<open>A set of rules of which at most one may claim a request: what the loader checks pairwise with
  \<open>overlap\<close> makes the first match of the runtime's loop the only one.\<close>

locale rule_set =
  fixes matches :: "'r \<Rightarrow> 'q \<Rightarrow> bool"
    and overlap :: "'r \<Rightarrow> 'r \<Rightarrow> bool"
  assumes overlap_iff: "overlap a b \<longleftrightarrow> (\<exists>q. matches a q \<and> matches b q)"
begin

definition unambiguous :: "('r \<times> 'v) list \<Rightarrow> bool" where
  "unambiguous rs = sorted_wrt (\<lambda>a b. \<not> overlap (fst a) (fst b)) rs"

lemma unambiguous_snoc:
  "unambiguous (rs @ [r]) \<longleftrightarrow> unambiguous rs \<and> (\<forall>x \<in> set rs. \<not> overlap (fst x) (fst r))"
  by (simp add: unambiguous_def sorted_wrt_append)

lemma only_match:
  assumes "unambiguous rs" and "r \<in> set rs" and "s \<in> set rs"
    and "matches (fst r) q" and "matches (fst s) q"
  shows "r = s"
  using assms by (induction rs) (auto simp: unambiguous_def overlap_iff)

lemma find_iff:
  assumes "unambiguous rs"
  shows "find (\<lambda>r. matches (fst r) q) rs = Some r \<longleftrightarrow> r \<in> set rs \<and> matches (fst r) q"
proof
  assume "find (\<lambda>r. matches (fst r) q) rs = Some r"
  then show "r \<in> set rs \<and> matches (fst r) q" by (auto dest: find_Some_D)
next
  assume r: "r \<in> set rs \<and> matches (fst r) q"
  then obtain s where s: "find (\<lambda>r. matches (fst r) q) rs = Some s"
    by (cases "find (\<lambda>r. matches (fst r) q) rs") (auto dest: find_None_D)
  with r have "r = s"
    by (auto dest: find_Some_D intro: only_match [OF assms])
  with s show "find (\<lambda>r. matches (fst r) q) rs = Some r" by simp
qed

lemma order_irrelevant:
  assumes "unambiguous rs" and "set rs = set ss"
  shows "find (\<lambda>r. matches (fst r) q) rs = find (\<lambda>r. matches (fst r) q) ss"
proof (rule find_unique_perm [OF _ assms(2)])
  fix x y
  assume "x \<in> set rs" "y \<in> set rs" "matches (fst x) q" "matches (fst y) q"
  then show "x = y" by (rule only_match [OF assms(1)])
qed

end

lemma axis_overlap:
  "(a = '''' \<or> b = '''' \<or> a = b) \<longleftrightarrow> (\<exists>q. (a = '''' \<or> a = q) \<and> (b = '''' \<or> b = q))"
  by auto

lemma selectors_ex: "(\<exists>q :: selectors. P (profile q) (tenant q) (cohort q)) \<longleftrightarrow> (\<exists>a b c. P a b c)"
proof
  assume "\<exists>a b c. P a b c"
  then obtain a b c where "P a b c" by auto
  then have "P (profile \<lparr>profile = a, tenant = b, cohort = c\<rparr>)
               (tenant \<lparr>profile = a, tenant = b, cohort = c\<rparr>)
               (cohort \<lparr>profile = a, tenant = b, cohort = c\<rparr>)" by simp
  then show "\<exists>q :: selectors. P (profile q) (tenant q) (cohort q)" by (rule exI)
qed auto

lemma selectorOverlap_iff:
  "selectorOverlap a b \<longleftrightarrow> (\<exists>q. selectorMatches a q \<and> selectorMatches b q)"
  unfolding selectorMatches_def selectors_ex
    [where P = "\<lambda>p t c. ((profile a = '''' \<or> profile a = p) \<and> (tenant a = '''' \<or> tenant a = t) \<and>
       (cohort a = '''' \<or> cohort a = c)) \<and> (profile b = '''' \<or> profile b = p) \<and>
       (tenant b = '''' \<or> tenant b = t) \<and> (cohort b = '''' \<or> cohort b = c)"]
  unfolding selectorOverlap_def by auto

interpretation sel: rule_set selectorMatches selectorOverlap
  by unfold_locales (rule selectorOverlap_iff)

section \<open>Lookup\<close>

lemma LookupRoute_binds: "LookupRoute b path meth = Some c \<Longrightarrow> c \<in> set (contracts b) \<and> binds path meth c"
  unfolding LookupRoute_def by (rule find_Some_D)

lemma Lookup_cases:
  assumes "Lookup b path meth version sels = Some c"
  obtains (canonical) cs where "map_of (by_version b) version = Some cs" "c \<in> set cs" "binds path meth c"
  | (variant) sel where "(sel, c) \<in> set (multi_get (selector_variants b) (version, path, meth))"
      "selectorMatches sel (case sels of [] \<Rightarrow> no_selectors | s # _ \<Rightarrow> s)"
  using assms
  by (auto simp: Lookup_def Let_def dest!: find_Some_D split: option.splits)

end
