(* ===== verification/Bundle_Stanza.thy ===== *)
theory Bundle_Stanza
  imports Bundle
begin

text \<open>
  Transform stanzas at load time: \<open>validatePathAgainstMessage\<close> of \<open>internal/bundle/pathvalidate.go\<close>,
  \<open>sameParentDifferentLeaf\<close> and \<open>toOps\<close> of \<open>internal/bundle/bundle.go\<close>, and the typed errors of
  the loader.

  The reflection interface of the protobuf library is the record \<open>reflection\<close>, over the library's
  type \<open>'m\<close> of message descriptors.
\<close>

section \<open>Errors\<close>

datatype load_error =
    ReadError string string
  | ParseError string string
  | UnsupportedVersionError int
  | ValidationError (ve_contract: string) (ve_field: string) (ve_reason: string)
  | MessageNotFoundError string string
  | PackageCollisionError string "string list"
  | OtherError string

fun load_error_text :: "load_error \<Rightarrow> string" where
  "load_error_text (ReadError f e) = ''read '' @ f @ '': '' @ e"
| "load_error_text (ParseError f e) = ''parse '' @ f @ '': '' @ e"
| "load_error_text (UnsupportedVersionError v) =
     ''unsupported bundle schema version '' @ itoa v @ '' (only 1 is supported)''"
| "load_error_text (ValidationError c f r) =
     ''invalid versions.yaml (contract='' @ go_quote c @ '' field='' @ go_quote f @ ''): '' @ r"
| "load_error_text (MessageNotFoundError c m) =
     ''contract '' @ go_quote c @ '' binding message '' @ go_quote m @ '' not found in descriptors''"
| "load_error_text (PackageCollisionError p ls) =
     ''bundle layers ['' @ join_with '' '' ls @ ''] share proto package '' @ go_quote p
     @ ''; per-version proto packages are required (e.g., wavefront.gen.v<version>)''"
| "load_error_text (OtherError e) = e"

section \<open>pathvalidate.go\<close>

datatype 'm field_kind = MessageKind 'm | ScalarKind

record 'm field_desc =
  fd_repeated :: bool        \<comment> \<open>\<open>Cardinality() == Repeated\<close>\<close>
  fd_is_map :: bool
  fd_kind :: "'m field_kind"

record 'm reflection =
  full_name :: "'m \<Rightarrow> string"
  by_name :: "'m \<Rightarrow> string \<Rightarrow> 'm field_desc option"
  by_json_name :: "'m \<Rightarrow> string \<Rightarrow> 'm field_desc option"

definition find_field :: "'m reflection \<Rightarrow> 'm \<Rightarrow> string \<Rightarrow> 'm field_desc option" where
  "find_field R md n = (case by_name R md n of Some fd \<Rightarrow> Some fd | None \<Rightarrow> by_json_name R md n)"

text \<open>\<open>validate_from\<close> is the loop from segment \<open>i\<close> on; \<open>rest \<noteq> []\<close> is \<open>i < len(p)-1\<close>.\<close>

fun validate_from :: "'m reflection \<Rightarrow> string \<Rightarrow> nat \<Rightarrow> 'm \<Rightarrow> path \<Rightarrow> string + unit" where
  "validate_from R lbl i cur [] = Inr ()"
| "validate_from R lbl i cur (seg # rest) =
     (case find_field R cur (seg_name seg) of
        None \<Rightarrow> Inl (lbl @ '': '' @ full_name R cur @ '' has no field '' @ go_quote (seg_name seg)
                     @ '' at segment '' @ itoa (int i + 1))
      | Some fd \<Rightarrow>
          let repeated = (fd_repeated fd \<and> \<not> fd_is_map fd);
              at = '': field '' @ go_quote (seg_name seg) @ '' at segment '' @ itoa (int i + 1)
          in
            if seg_array seg \<and> \<not> repeated then
              Inl (lbl @ at @ '' is not repeated; path uses [] but the descriptor isn't an array'')
            else if \<not> seg_array seg \<and> repeated \<and> rest \<noteq> [] then
              Inl (lbl @ at @ '' is repeated; non-final segment must use [] to iterate'')
            else if rest \<noteq> [] then
              (case fd_kind fd of
                 MessageKind md \<Rightarrow> validate_from R lbl (i + 1) md rest
               | ScalarKind \<Rightarrow> Inl (lbl @ at @ '' is scalar; path expects an object intermediate''))
            else Inr ())"

definition validatePathAgainstMessage :: "'m reflection \<Rightarrow> path \<Rightarrow> 'm \<Rightarrow> string \<Rightarrow> string + unit" where
  "validatePathAgainstMessage R p md lbl = validate_from R lbl 0 md p"

text \<open>The declarative reading of the check: a path is a chain of message fields, iterating with
  \<open>[]\<close> exactly where a field is repeated, that ends at any field.\<close>

definition iterates :: "'m field_desc \<Rightarrow> bool" where
  "iterates fd = (fd_repeated fd \<and> \<not> fd_is_map fd)"

inductive typed_path :: "'m reflection \<Rightarrow> 'm \<Rightarrow> path \<Rightarrow> bool" for R where
  Leaf: "find_field R md (seg_name seg) = Some fd \<Longrightarrow> (seg_array seg \<Longrightarrow> iterates fd) \<Longrightarrow>
         typed_path R md [seg]"
| Step: "find_field R md (seg_name seg) = Some fd \<Longrightarrow> seg_array seg = iterates fd \<Longrightarrow>
         fd_kind fd = MessageKind md' \<Longrightarrow> typed_path R md' (seg2 # rest) \<Longrightarrow>
         typed_path R md (seg # seg2 # rest)"

inductive_simps typed_path_Nil [simp]: "typed_path R md []"
inductive_simps typed_path_leaf: "typed_path R md [seg]"
inductive_simps typed_path_deep: "typed_path R md (seg # seg2 # rest)"

lemma validate_from_iff: "p \<noteq> [] \<Longrightarrow> validate_from R lbl i md p = Inr () \<longleftrightarrow> typed_path R md p"
proof (induction p arbitrary: md i rule: induct_list012)
  case (2 seg)
  then show ?case
    by (auto simp: typed_path_leaf iterates_def Let_def split: option.splits)
next
  case (3 seg seg2 rest)
  show ?case
    using "3.IH"(2) by (cases "seg_array seg")
      (auto simp: typed_path_deep iterates_def Let_def split: option.splits field_kind.splits
        simp del: validate_from.simps(2) simp: validate_from.simps(2) [of R lbl _ _ seg])
qed simp

section \<open>toOps\<close>

definition sameParentDifferentLeaf :: "path \<Rightarrow> path \<Rightarrow> bool" where
  "sameParentDifferentLeaf p q =
     (if length p \<noteq> length q \<or> p = [] then False
      else if butlast p \<noteq> butlast q then False
      else seg_name (last p) \<noteq> seg_name (last q))"

record yaml_rename =
  yr_from :: string
  yr_to :: string

record yaml_default =
  yd_field :: string
  yd_value :: yvalue

record yaml_coerce =
  yc_field :: string
  yc_to :: string

record yaml_op =
  y_rename :: "yaml_rename option"
  y_default :: "yaml_default option"
  y_optionalize :: "string option"    \<comment> \<open>\<open>yamlField\<close> has the one key \<open>field\<close>\<close>
  y_coerce :: "yaml_coerce option"

text \<open>\<open>external\<close>: the descriptor against which the path of a stanza role is checked, if any.\<close>

definition external :: "string \<Rightarrow> 'm option \<Rightarrow> 'm option \<Rightarrow> string \<Rightarrow> 'm option" where
  "external dir reqMsg respMsg role =
     (if dir = ''request'' then
        (if role \<in> {''rename.from'', ''coerce.field'', ''optionalize.field''} then reqMsg else None)
      else if dir = ''response'' then
        (if role \<in> {''rename.to'', ''default.field''} then respMsg else None)
      else None)"

definition check_external ::
  "'m reflection \<Rightarrow> string \<Rightarrow> string \<Rightarrow> 'm option \<Rightarrow> path \<Rightarrow> load_error + unit" where
  "check_external R cv key md p =
     (case md of
        None \<Rightarrow> Inr ()
      | Some m \<Rightarrow>
          (case validatePathAgainstMessage R p m key of
             Inl err \<Rightarrow> Inl (ValidationError cv key err)
           | Inr _ \<Rightarrow> Inr ()))"

definition parse_field :: "string \<Rightarrow> string \<Rightarrow> string \<Rightarrow> load_error + path" where
  "parse_field cv key s =
     (case ParsePath s of
        Inl err \<Rightarrow> Inl (ValidationError cv key (path_error_text err))
      | Inr p \<Rightarrow> Inr p)"

text \<open>The four blocks of the loop body; \<open>ext\<close> is \<open>external\<close> at the call's direction.\<close>

definition rename_block ::
  "'m reflection \<Rightarrow> string \<Rightarrow> string \<Rightarrow> (string \<Rightarrow> 'm option) \<Rightarrow> yaml_rename \<Rightarrow> load_error + op" where
  "rename_block R cv dir ext y =
     (if yr_from y = '''' \<or> yr_to y = '''' \<or> yr_from y = yr_to y then
        Inl (ValidationError cv (dir @ ''.rename'') ''from/to must be non-empty and distinct'')
      else
        sbind (parse_field cv (dir @ ''.rename.from'') (yr_from y)) (\<lambda>fromPath.
        sbind (parse_field cv (dir @ ''.rename.to'') (yr_to y)) (\<lambda>toPath.
          if \<not> sameParentDifferentLeaf fromPath toPath then
            Inl (ValidationError cv (dir @ ''.rename'')
              ''from/to must share every non-final segment AND differ at the leaf (leaf-only rename)'')
          else
            sbind (check_external R cv (dir @ ''.rename.from'') (ext ''rename.from'') fromPath) (\<lambda>_.
            sbind (check_external R cv (dir @ ''.rename.to'') (ext ''rename.to'') toPath) (\<lambda>_.
              Inr (Rename fromPath toPath))))))"

definition default_block ::
  "'m reflection \<Rightarrow> string \<Rightarrow> string \<Rightarrow> (string \<Rightarrow> 'm option) \<Rightarrow> yaml_default \<Rightarrow> load_error + op" where
  "default_block R cv dir ext y =
     (if yd_field y = '''' then
        Inl (ValidationError cv (dir @ ''.default'') ''field must be non-empty'')
      else
        sbind (parse_field cv (dir @ ''.default.field'') (yd_field y)) (\<lambda>fieldPath.
          case NewDefaultValue (yd_value y) of
            Inl err \<Rightarrow> Inl (ValidationError cv (dir @ ''.default.value'') err)
          | Inr dv \<Rightarrow>
              sbind (check_external R cv (dir @ ''.default.field'') (ext ''default.field'') fieldPath) (\<lambda>_.
                Inr (Default fieldPath dv))))"

definition optionalize_block ::
  "'m reflection \<Rightarrow> string \<Rightarrow> string \<Rightarrow> (string \<Rightarrow> 'm option) \<Rightarrow> string \<Rightarrow> load_error + op" where
  "optionalize_block R cv dir ext key =
     (if key = '''' then
        Inl (ValidationError cv (dir @ ''.optionalize'') ''field must be non-empty'')
      else
        sbind (parse_field cv (dir @ ''.optionalize.field'') key) (\<lambda>fieldPath.
        sbind (check_external R cv (dir @ ''.optionalize.field'') (ext ''optionalize.field'') fieldPath) (\<lambda>_.
          Inr (Optionalize fieldPath))))"

definition coerce_block ::
  "'m reflection \<Rightarrow> string \<Rightarrow> string \<Rightarrow> (string \<Rightarrow> 'm option) \<Rightarrow> yaml_coerce \<Rightarrow> load_error + op" where
  "coerce_block R cv dir ext y =
     (if yc_field y = '''' then
        Inl (ValidationError cv (dir @ ''.coerce'') ''field must be non-empty'')
      else if yc_to y \<noteq> ''string'' \<and> yc_to y \<noteq> ''number'' \<and> yc_to y \<noteq> ''bool'' then
        Inl (ValidationError cv (dir @ ''.coerce.to'') ''must be string|number|bool'')
      else
        sbind (parse_field cv (dir @ ''.coerce.field'') (yc_field y)) (\<lambda>fieldPath.
        sbind (check_external R cv (dir @ ''.coerce.field'') (ext ''coerce.field'') fieldPath) (\<lambda>_.
          Inr (Coerce fieldPath (yc_to y)))))"

text \<open>\<open>when_set f y acc\<close> runs one block when its key is present; \<open>acc\<close> collects the operations
  built so far, so its length is the counter \<open>set\<close>.\<close>

fun when_set :: "('y \<Rightarrow> load_error + op) \<Rightarrow> 'y option \<Rightarrow> op list \<Rightarrow> load_error + op list" where
  "when_set f None acc = Inr acc"
| "when_set f (Some y) acc = sbind (f y) (\<lambda>x. Inr (acc @ [x]))"

definition to_op ::
  "'m reflection \<Rightarrow> string \<Rightarrow> string \<Rightarrow> (string \<Rightarrow> 'm option) \<Rightarrow> yaml_op \<Rightarrow> load_error + op" where
  "to_op R cv dir ext y =
     sbind (when_set (rename_block R cv dir ext) (y_rename y) []) (\<lambda>a.
     sbind (when_set (default_block R cv dir ext) (y_default y) a) (\<lambda>b.
     sbind (when_set (optionalize_block R cv dir ext) (y_optionalize y) b) (\<lambda>c.
     sbind (when_set (coerce_block R cv dir ext) (y_coerce y) c) (\<lambda>d.
       case d of
         [x] \<Rightarrow> Inr x
       | _ \<Rightarrow> Inl (ValidationError cv dir ''each transform op must set exactly one verb'')))))"

definition toOps ::
  "'m reflection \<Rightarrow> string \<Rightarrow> string \<Rightarrow> yaml_op list \<Rightarrow> 'm option \<Rightarrow> 'm option \<Rightarrow> load_error + op list" where
  "toOps R cv dir raw reqMsg respMsg =
     (if dir \<noteq> ''request'' \<and> dir \<noteq> ''response'' then
        Inl (OtherError (''toOps: unknown direction '' @ go_quote dir
                         @ '' (must be request or response)''))
      else smap (to_op R cv dir (external dir reqMsg respMsg)) raw)"

section \<open>What toOps accepts\<close>

definition typed_external :: "'m reflection \<Rightarrow> 'm option \<Rightarrow> path \<Rightarrow> bool" where
  "typed_external R md p = (case md of None \<Rightarrow> True | Some m \<Rightarrow> typed_path R m p)"

definition op_valid :: "'m reflection \<Rightarrow> (string \<Rightarrow> 'm option) \<Rightarrow> op \<Rightarrow> bool" where
  "op_valid R ext x =
     (op_wf x \<and>
      (case x of
         Rename src dst \<Rightarrow> sameParentDifferentLeaf src dst
           \<and> typed_external R (ext ''rename.from'') src \<and> typed_external R (ext ''rename.to'') dst
       | Default f v \<Rightarrow> typed_external R (ext ''default.field'') f
       | Optionalize f \<Rightarrow> typed_external R (ext ''optionalize.field'') f
       | Coerce f t \<Rightarrow> t \<in> {''string'', ''number'', ''bool''}
           \<and> typed_external R (ext ''coerce.field'') f))"

definition no_verb :: yaml_op where
  "no_verb = \<lparr>y_rename = None, y_default = None, y_optionalize = None, y_coerce = None\<rparr>"

text \<open>The YAML mapping an operation is written as.\<close>

fun written_as :: "op \<Rightarrow> yaml_op \<Rightarrow> bool" where
  "written_as (Rename src dst) y =
     (y = no_verb\<lparr>y_rename := Some \<lparr>yr_from = path_string src, yr_to = path_string dst\<rparr>\<rparr>)"
| "written_as (Default f v) y =
     (\<exists>w. NewDefaultValue w = Inr v \<and>
          y = no_verb\<lparr>y_default := Some \<lparr>yd_field = path_string f, yd_value = w\<rparr>\<rparr>)"
| "written_as (Optionalize f) y = (y = no_verb\<lparr>y_optionalize := Some (path_string f)\<rparr>)"
| "written_as (Coerce f t) y =
     (y = no_verb\<lparr>y_coerce := Some \<lparr>yc_field = path_string f, yc_to = t\<rparr>\<rparr>)"

lemma sameParentDifferentLeaf_iff:
  "sameParentDifferentLeaf p q \<longleftrightarrow>
     p \<noteq> [] \<and> length p = length q \<and> butlast p = butlast q \<and> seg_name (last p) \<noteq> seg_name (last q)"
  by (auto simp: sameParentDifferentLeaf_def)

lemma path_ok_ne: "path_ok p \<Longrightarrow> p \<noteq> []"
  by (simp add: path_ok_def)

lemma check_external_iff:
  "p \<noteq> [] \<Longrightarrow> check_external R cv k md p = Inr u \<longleftrightarrow> typed_external R md p"
  by (auto simp: check_external_def typed_external_def validatePathAgainstMessage_def
      simp flip: validate_from_iff [of p R k 0] split: option.splits sum.splits)

lemma parse_field_iff: "parse_field cv k s = Inr p \<longleftrightarrow> path_ok p \<and> path_string p = s"
  by (auto simp: parse_field_def simp flip: ParsePath_iff split: sum.splits)

lemma path_string_ne [simp]: "path_ok p \<Longrightarrow> path_string p \<noteq> []" "path_ok p \<Longrightarrow> [] \<noteq> path_string p"
  using path_string_ends(1) [of p] by auto

lemmas block_simps = result_simps parse_field_iff check_external_iff path_ok_ne op_valid_def op_wf_def

lemma rename_block_iff:
  "rename_block R cv dir ext y = Inr x \<longleftrightarrow>
     (\<exists>src dst. x = Rename src dst \<and> op_valid R ext x \<and>
                y = \<lparr>yr_from = path_string src, yr_to = path_string dst\<rparr>)"
proof -
  have "path_string src \<noteq> path_string dst"
    if "path_ok src" "path_ok dst" "sameParentDifferentLeaf src dst" for src dst
    using that path_string_inj by (auto simp: sameParentDifferentLeaf_iff)
  then show ?thesis
    by (cases y) (auto simp: rename_block_def block_simps cong: conj_cong split: if_splits)
qed

lemma default_block_iff:
  "default_block R cv dir ext y = Inr x \<longleftrightarrow>
     (\<exists>f v w. x = Default f v \<and> op_valid R ext x \<and> NewDefaultValue w = Inr v \<and>
              y = \<lparr>yd_field = path_string f, yd_value = w\<rparr>)"
  by (cases y; cases "NewDefaultValue (yd_value y)")
    (auto simp: default_block_def block_simps cong: conj_cong split: if_splits)

lemma optionalize_block_iff:
  "optionalize_block R cv dir ext s = Inr x \<longleftrightarrow>
     (\<exists>f. x = Optionalize f \<and> op_valid R ext x \<and> s = path_string f)"
  by (auto simp: optionalize_block_def block_simps cong: conj_cong split: if_splits)

lemma coerce_block_iff:
  "coerce_block R cv dir ext y = Inr x \<longleftrightarrow>
     (\<exists>f t. x = Coerce f t \<and> op_valid R ext x \<and> y = \<lparr>yc_field = path_string f, yc_to = t\<rparr>)"
  by (cases y) (auto simp: coerce_block_def block_simps cong: conj_cong split: if_splits)

lemma when_set_iff:
  "when_set f y acc = Inr out \<longleftrightarrow>
     (case y of None \<Rightarrow> out = acc | Some v \<Rightarrow> \<exists>x. f v = Inr x \<and> out = acc @ [x])"
  by (cases y) (auto simp: result_simps)

lemma to_op_iff: "to_op R cv dir ext y = Inr x \<longleftrightarrow> op_valid R ext x \<and> written_as x y"
proof -
  obtain r d f c where y: "y = \<lparr>y_rename = r, y_default = d, y_optionalize = f, y_coerce = c\<rparr>"
    by (cases y)
  have "to_op R cv dir ext y = Inr x \<longleftrightarrow>
      (\<exists>v. r = Some v \<and> rename_block R cv dir ext v = Inr x) \<and> d = None \<and> f = None \<and> c = None \<or>
      (\<exists>v. d = Some v \<and> default_block R cv dir ext v = Inr x) \<and> r = None \<and> f = None \<and> c = None \<or>
      (\<exists>v. f = Some v \<and> optionalize_block R cv dir ext v = Inr x) \<and> r = None \<and> d = None \<and> c = None \<or>
      (\<exists>v. c = Some v \<and> coerce_block R cv dir ext v = Inr x) \<and> r = None \<and> d = None \<and> f = None"
    by (cases r; cases d; cases f; cases c)
      (auto simp: y to_op_def result_simps when_set_iff)
  also have "\<dots> \<longleftrightarrow> op_valid R ext x \<and> written_as x y"
    unfolding rename_block_iff default_block_iff optionalize_block_iff coerce_block_iff
    by (cases x) (auto simp: y no_verb_def)
  finally show ?thesis .
qed


lemma op_valid_wf: "op_valid R ext x \<Longrightarrow> op_wf x"
  by (simp add: op_valid_def)

lemma toOps_valid:
  assumes "toOps R cv dir raw reqMsg respMsg = Inr ops"
  shows "list_all (op_valid R (external dir reqMsg respMsg)) ops"
  using assms smap_Inr_mem [of "to_op R cv dir (external dir reqMsg respMsg)" raw ops]
  by (auto simp: toOps_def to_op_iff list_all_iff split: if_splits)

section \<open>Properties\<close>

text \<open>C6. The static check of a path against a message accepts exactly the chains of message
  fields, iterated with \<open>[]\<close> where and only where a field is repeated, that end at a field.\<close>

theorem validatePathAgainstMessage_exact:
  assumes "p \<noteq> []"
  shows "validatePathAgainstMessage R p md lbl = Inr () \<longleftrightarrow> typed_path R md p"
  unfolding validatePathAgainstMessage_def using assms by (rule validate_from_iff)

text \<open>C5. What \<open>toOps\<close> accepts: one verb per entry, written with parseable paths; renames that
  change the leaf under one parent; the three coerce targets; and every path that names the
  external shape of its direction present in that message.  The operations it returns are the
  ones written, in order, and everything of this form is accepted.\<close>

theorem toOps_exact:
  assumes "dir = ''request'' \<or> dir = ''response''"
  shows "toOps R cv dir raw reqMsg respMsg = Inr ops \<longleftrightarrow>
     list_all2 (\<lambda>y x. op_valid R (external dir reqMsg respMsg) x \<and> written_as x y) raw ops"
  using assms by (auto simp: toOps_def smap_eq_Inr_iff to_op_iff)

section \<open>Witnesses\<close>

text \<open>Messages named by strings: \<open>''Order''\<close> has a scalar \<open>id\<close> and repeated \<open>items\<close> of \<open>''Item''\<close>,
  which has a scalar \<open>sku\<close>.\<close>

definition order_fields :: "string \<Rightarrow> string \<Rightarrow> string field_desc option" where
  "order_fields md n =
     (if md = ''Order'' \<and> n = ''id'' \<or> md = ''Item'' \<and> n = ''sku'' then
        Some \<lparr>fd_repeated = False, fd_is_map = False, fd_kind = ScalarKind\<rparr>
      else if md = ''Order'' \<and> n = ''items'' then
        Some \<lparr>fd_repeated = True, fd_is_map = False, fd_kind = MessageKind ''Item''\<rparr>
      else None)"

definition order_messages :: "string reflection" where
  "order_messages = \<lparr>full_name = id, by_name = order_fields, by_json_name = \<lambda>md n. None\<rparr>"

lemma order_messages_simps [simp]:
  "find_field order_messages md n = order_fields md n" "full_name order_messages md = md"
  by (auto simp: order_messages_def find_field_def split: option.splits)

theorem validatePathAgainstMessage_exact_witness:
  "typed_path order_messages ''Order'' [each ''items'', fld ''sku''] \<and>
   \<not> typed_path order_messages ''Order'' [fld ''items'', fld ''sku'']"
  using validatePathAgainstMessage_exact [of "[each ''items'', fld ''sku'']" order_messages "''Order''" "''''"]
    validatePathAgainstMessage_exact [of "[fld ''items'', fld ''sku'']" order_messages "''Order''" "''''"]
  by (simp add: validatePathAgainstMessage_def order_fields_def)

theorem toOps_exact_witness:
  "toOps order_messages ''v1'' ''request''
     [no_verb\<lparr>y_rename := Some \<lparr>yr_from = ''items[].sku'', yr_to = ''items[].code''\<rparr>\<rparr>]
     (Some ''Order'') None
   = Inr [Rename [each ''items'', fld ''sku''] [each ''items'', fld ''code'']]"
proof -
  have "typed_path order_messages ''Order'' [each ''items'', fld ''sku'']"
    by (simp add: typed_path_deep typed_path_leaf order_fields_def iterates_def)
  then show ?thesis
    by (simp add: toOps_exact op_valid_def op_wf_def path_ok_def name_ok_def contains_any_def
        sameParentDifferentLeaf_iff typed_external_def external_def path_string_def
        segment_string_def)
qed

end
