(* ===== verification/Go_Fs.thy ===== *)
theory Go_Fs
  imports Go_Prelude "HOL-Library.AList"
begin

text \<open>
  The part of package \<open>os\<close> the bundle code uses, on a tree of files and directories.  A directory is
  an association list from names to nodes; \<open>os.ReadDir\<close> returns its entries sorted by name.  A
  place in the tree that may hold nothing is a \<open>node option\<close>.  An operation fails here only for what
  is, or is not, in the tree; \<open>Go_Disk\<close> adds the calls the machine fails.
\<close>

datatype node =
    FileNode string
  | DirNode "(string \<times> node) list"

datatype io_error = NotExist | NotDir | IsDir

fun io_error_text :: "io_error \<Rightarrow> string" where
  "io_error_text NotExist = ''no such file or directory''"
| "io_error_text NotDir = ''not a directory''"
| "io_error_text IsDir = ''is a directory''"

fun is_dir :: "node \<Rightarrow> bool" where
  "is_dir (DirNode es) = True"
| "is_dir (FileNode s) = False"

text \<open>\<open>node_at root path\<close> resolves a path of names below \<open>root\<close>.\<close>

fun node_at :: "node option \<Rightarrow> string list \<Rightarrow> io_error + node" where
  "node_at None p = Inl NotExist"
| "node_at (Some n) [] = Inr n"
| "node_at (Some (FileNode s)) (x # xs) = Inl NotDir"
| "node_at (Some (DirNode es)) (x # xs) = node_at (map_of es x) xs"

definition ReadFile :: "node option \<Rightarrow> string list \<Rightarrow> io_error + string" where
  "ReadFile root p =
     sbind (node_at root p) (\<lambda>n. case n of FileNode s \<Rightarrow> Inr s | DirNode es \<Rightarrow> Inl IsDir)"

definition ReadDir :: "node option \<Rightarrow> string list \<Rightarrow> io_error + (string \<times> node) list" where
  "ReadDir root p =
     sbind (node_at root p)
       (\<lambda>n. case n of FileNode s \<Rightarrow> Inl NotDir | DirNode es \<Rightarrow> Inr (sort_key fst es))"

text \<open>The names of the subdirectories of a directory, in the order \<open>os.ReadDir\<close> lists them.\<close>

definition subdirs :: "(string \<times> node) list \<Rightarrow> string list" where
  "subdirs entries = map fst (filter (\<lambda>e. is_dir (snd e)) entries)"

text \<open>\<open>os.WriteFile\<close>, \<open>os.MkdirAll\<close> and \<open>os.RemoveAll\<close> below an existing directory.\<close>

fun put_node :: "node option \<Rightarrow> string list \<Rightarrow> node \<Rightarrow> io_error + node" where
  "put_node root [] n = Inr n"
| "put_node None (x # xs) n = Inl NotExist"
| "put_node (Some (FileNode s)) (x # xs) n = Inl NotDir"
| "put_node (Some (DirNode es)) (x # xs) n =
     sbind (put_node (map_of es x) xs n) (\<lambda>n'. Inr (DirNode (AList.update x n' es)))"

definition WriteFile :: "node option \<Rightarrow> string list \<Rightarrow> string \<Rightarrow> io_error + node" where
  "WriteFile root p s =
     (case node_at root p of
        Inr (DirNode es) \<Rightarrow> Inl IsDir
      | _ \<Rightarrow> put_node root p (FileNode s))"

fun MkdirAll :: "node option \<Rightarrow> string list \<Rightarrow> io_error + node" where
  "MkdirAll (Some (FileNode s)) xs = Inl NotDir"
| "MkdirAll None [] = Inr (DirNode [])"
| "MkdirAll (Some (DirNode es)) [] = Inr (DirNode es)"
| "MkdirAll None (x # xs) = sbind (MkdirAll None xs) (\<lambda>n. Inr (DirNode [(x, n)]))"
| "MkdirAll (Some (DirNode es)) (x # xs) =
     sbind (MkdirAll (map_of es x) xs) (\<lambda>n. Inr (DirNode (AList.update x n es)))"

text \<open>\<open>os.RemoveAll(filepath.Join(dir, name))\<close>: nothing happens when there is no such entry.\<close>

definition RemoveAll :: "node option \<Rightarrow> string \<Rightarrow> node option" where
  "RemoveAll root x =
     (case root of Some (DirNode es) \<Rightarrow> Some (DirNode (AList.delete x es)) | _ \<Rightarrow> root)"

section \<open>Lemmas\<close>

lemma ReadFile_Inr: "ReadFile root p = Inr s \<longleftrightarrow> node_at root p = Inr (FileNode s)"
  by (cases "node_at root p") (auto simp: ReadFile_def split: node.splits)

lemma node_at_put:
  "put_node root p n = Inr root' \<Longrightarrow> node_at (Some root') p = Inr n"
proof (induction root p n arbitrary: root' rule: put_node.induct)
  case (4 es x xs n)
  then show ?case by (auto simp: result_simps update_conv')
qed auto

lemma ReadFile_WriteFile: "WriteFile root p s = Inr root' \<Longrightarrow> ReadFile (Some root') p = Inr s"
  by (auto simp: WriteFile_def ReadFile_Inr split: sum.splits node.splits dest: node_at_put)

lemma set_subdirs: "x \<in> set (subdirs entries) \<longleftrightarrow> (\<exists>n. (x, n) \<in> set entries \<and> is_dir n)"
  by (auto simp: subdirs_def image_iff)

lemma subdirs_sorted: "sorted (subdirs (sort_key fst es))"
  unfolding subdirs_def
  by (metis filter_sort sorted_sort_key)

end
