(* ===== verification/Bundle_Load.thy ===== *)
theory Bundle_Load
  imports Bundle_Stanza Go_Fs
begin

text \<open>
  \<open>Load\<close> of \<open>internal/bundle/bundle.go\<close> and everything it calls: the layers and the operator's
  \<open>resolution.yaml\<close> are read from the bundle directory, validated, merged and resolved, and the
  first failure is the typed error of that step.

  YAML and protobuf decoding are library code: the record \<open>codecs\<close> holds the decoders as
  parameters.  \<open>'x\<close> is what a file descriptor holds beside its name and package.
\<close>

section \<open>On-disk shapes\<close>

record yaml_contract =
  yk_version :: string
  yk_route :: string
  yk_method :: string
  yk_request :: string
  yk_response :: string
  yk_errors :: "(string \<times> string) list"
  yk_strict :: bool

record yaml_bundle =
  yb_version :: int
  yb_contracts :: "yaml_contract list"

record yaml_transform =
  yt_request :: "yaml_op list"
  yt_response :: "yaml_op list"
  yt_errors :: "(string \<times> yaml_op list) list"
  yt_target :: string

text \<open>A selector key is a \<open>yaml.Node\<close>: \<open>None\<close> when absent (\<open>Kind == 0\<close>), and otherwise what
  decoding the node into a string gives, which is all the code does with it.\<close>

record yaml_resolution =
  yr_version :: string
  yr_profile :: "(string + string) option"
  yr_tenant :: "(string + string) option"
  yr_cohort :: "(string + string) option"
  yr_transform :: "yaml_transform option"
  yr_route :: "string option"

record yaml_resolution_file =
  yf_version :: int
  yf_overrides :: "yaml_resolution list"

record 'x fdp =
  fdp_name :: string
  fdp_package :: string
  fdp_content :: 'x

record ('x, 'm) codecs =
  decode_versions :: "string \<Rightarrow> string + yaml_bundle"             \<comment> \<open>strict YAML\<close>
  decode_resolution :: "string \<Rightarrow> string + yaml_resolution_file"   \<comment> \<open>strict YAML\<close>
  unmarshal_fds :: "string \<Rightarrow> string + 'x fdp list"
  marshal_fd :: "'x fdp \<Rightarrow> string + string"                       \<comment> \<open>deterministic\<close>
  new_files :: "'x fdp list \<Rightarrow> string + 'm registry"              \<comment> \<open>\<open>protodesc.NewFiles\<close>\<close>
  reflect :: "'m reflection"
  text_codec :: textlib

definition fileDescriptors :: string where "fileDescriptors = ''descriptors.binpb''"
definition fileOpenAPI :: string where "fileOpenAPI = ''openapi.json''"
definition fileVersions :: string where "fileVersions = ''versions.yaml''"
definition fileResolution :: string where "fileResolution = ''resolution.yaml''"

text \<open>\<open>fail_with mk r\<close> wraps the error of a library call.\<close>

fun fail_with :: "('e \<Rightarrow> load_error) \<Rightarrow> 'e + 'a \<Rightarrow> load_error + 'a" where
  "fail_with mk (Inl e) = Inl (mk e)"
| "fail_with mk (Inr x) = Inr x"

section \<open>resolution.yaml\<close>

fun selector_field :: "string \<Rightarrow> (string + string) option \<Rightarrow> string + string" where
  "selector_field name None = Inr ''''"
| "selector_field name (Some (Inl err)) = Inl (name @ '' must be a string: '' @ err)"
| "selector_field name (Some (Inr value)) =
     (if trim_space value = '''' then Inl (name @ '' must not be blank when set'')
      else Inr (trim_space value))"

definition resolutionSelectors :: "yaml_resolution \<Rightarrow> string + selectors" where
  "resolutionSelectors ov =
     sbind (selector_field ''profile'' (yr_profile ov)) (\<lambda>p.
     sbind (selector_field ''tenant'' (yr_tenant ov)) (\<lambda>t.
     sbind (selector_field ''cohort'' (yr_cohort ov)) (\<lambda>c.
       Inr \<lparr>profile = p, tenant = t, cohort = c\<rparr>)))"

text \<open>The zero value \<open>resolutionSelectors\<close> returns beside an error, for the callers that drop it.\<close>

definition selectors_of :: "yaml_resolution \<Rightarrow> selectors" where
  "selectors_of ov = (case resolutionSelectors ov of Inl e \<Rightarrow> no_selectors | Inr s \<Rightarrow> s)"

fun check_selectors :: "string \<Rightarrow> selectors \<Rightarrow> yaml_resolution list \<Rightarrow> load_error + unit" where
  "check_selectors cv s [] = Inr ()"
| "check_selectors cv s (existing # rest) =
     (let t = selectors_of existing in
        if selectorEmpty s \<and> selectorEmpty t then
          Inl (ValidationError cv ''selector'' ''duplicate version-only resolution override'')
        else if \<not> selectorEmpty s \<and> \<not> selectorEmpty t \<and> selectorOverlap s t then
          Inl (ValidationError cv ''selector''
                 ''ambiguous resolution overrides can match the same request'')
        else check_selectors cv s rest)"

type_synonym resolution_map = "(string \<times> yaml_resolution list) list"

definition load_override :: "resolution_map \<Rightarrow> yaml_resolution \<Rightarrow> load_error + resolution_map" where
  "load_override out ov =
     (let cv = trim_space (yr_version ov) in
        if cv = '''' then
          Inl (ValidationError '''' ''contract_version''
                 ''resolution override must name a contract version'')
        else
          sbind (fail_with (ValidationError cv ''selector'') (resolutionSelectors ov)) (\<lambda>s.
          sbind (check_selectors cv s (multi_get out cv)) (\<lambda>_.
            if (yr_transform ov \<noteq> None) = (yr_route ov \<noteq> None) then
              Inl (ValidationError cv ''override'' ''must set exactly one of transform or route'')
            else if yr_route ov \<noteq> None \<and> trim_space (the (yr_route ov)) = '''' then
              Inl (ValidationError cv ''route.target'' ''route.target must name a target'')
            else Inr (multi_add cv ov out))))"

definition loadResolution :: "('x, 'm) codecs \<Rightarrow> node option \<Rightarrow> load_error + resolution_map" where
  "loadResolution L root =
     (case ReadFile root [fileResolution] of
        Inl NotExist \<Rightarrow> Inr []
      | Inl err \<Rightarrow> Inl (ReadError fileResolution (io_error_text err))
      | Inr raw \<Rightarrow>
          sbind (fail_with (ParseError fileResolution) (decode_resolution L raw)) (\<lambda>yr.
            if yf_version yr \<noteq> 1 then Inl (UnsupportedVersionError (yf_version yr))
            else sfold load_override [] (yf_overrides yr)))"

section \<open>versions.yaml\<close>

definition allowedMethods :: "string list" where
  "allowedMethods = [''GET'', ''POST'', ''PUT'', ''PATCH'', ''DELETE'', ''HEAD'', ''OPTIONS'']"

definition add_error_message ::
  "string \<Rightarrow> (int \<times> string) list \<Rightarrow> string \<times> string \<Rightarrow> load_error + (int \<times> string) list" where
  "add_error_message cv m entry =
     (let code = fst entry; name = trim_space (snd entry) in
        case atoi (trim_space code) of
          None \<Rightarrow> Inl (ValidationError cv ''error_messages'' (''status key '' @ code @ '' is not a number''))
        | Some status \<Rightarrow>
            if 200 \<le> status \<and> status \<le> 299 then
              Inl (ValidationError cv ''error_messages''
                     (''status '' @ code @ '' is 2xx; success bodies bind via response_message''))
            else if IsCapabilityCeiling status then
              Inl (ValidationError cv ''error_messages''
                     (''status '' @ code @ '' is a capability ceiling and is always 502''))
            else if name = '''' then
              Inl (ValidationError cv ''error_messages'' (''status '' @ code @ '' has an empty message name''))
            else Inr (AList.update status name m))"

definition validateContract :: "yaml_contract \<Rightarrow> load_error + contract" where
  "validateContract yc =
     (let cv = trim_space (yk_version yc);
          route = trim_space (yk_route yc);
          meth = to_upper (trim_space (yk_method yc));
          req = trim_space (yk_request yc);
          resp = trim_space (yk_response yc)
      in
        if cv = '''' then Inl (ValidationError '''' ''contract_version'' ''must not be empty'')
        else if route = '''' \<or> \<not> prefix ''/'' route then
          Inl (ValidationError cv ''route'' ''must be a path beginning with /'')
        else if meth = '''' then Inl (ValidationError cv ''method'' ''must not be empty'')
        else if meth \<notin> set allowedMethods then
          Inl (ValidationError cv ''method'' ''not a valid HTTP method'')
        else if req = '''' then Inl (ValidationError cv ''request_message'' ''must not be empty'')
        else if resp = '''' then Inl (ValidationError cv ''response_message'' ''must not be empty'')
        else
          sbind (sfold (add_error_message cv) [] (yk_errors yc)) (\<lambda>msgs.
            Inr \<lparr>c_version = cv, c_route = route, c_method = meth,
                 request_message = req, response_message = resp,
                 request_ops = [], response_ops = [], target = '''', transform_target = '''',
                 error_messages = msgs, error_response_ops = [], strict = yk_strict yc\<rparr>))"

section \<open>Descriptors\<close>

record contribution =
  co_layers :: "string list"
  co_bytes :: "string list"

definition add_contribution ::
  "('x, 'm) codecs \<Rightarrow> string \<Rightarrow> (string \<times> contribution) list \<Rightarrow> 'x fdp \<Rightarrow>
   load_error + (string \<times> contribution) list" where
  "add_contribution L layer m f =
     sbind (fail_with (ParseError fileDescriptors) (marshal_fd L f)) (\<lambda>b.
       let c = (case map_of m (fdp_name f) of
                  None \<Rightarrow> \<lparr>co_layers = [], co_bytes = []\<rparr> | Some c \<Rightarrow> c)
       in Inr (AList.update (fdp_name f)
                 \<lparr>co_layers = List.insert layer (co_layers c), co_bytes = List.insert b (co_bytes c)\<rparr> m))"

definition file_contributions ::
  "('x, 'm) codecs \<Rightarrow> (string \<times> 'x fdp list) list \<Rightarrow> load_error + (string \<times> contribution) list" where
  "file_contributions L layers =
     sfold (\<lambda>m (layer, fdps). sfold (add_contribution L layer) m fdps) [] layers"

text \<open>The package of a file: looked up in the first layer that contributes it.\<close>

definition contributed_package :: "(string \<times> 'x fdp list) list \<Rightarrow> string \<Rightarrow> contribution \<Rightarrow> string" where
  "contributed_package layers file c =
     (case find (\<lambda>l. fst l \<in> set (co_layers c)) layers of
        None \<Rightarrow> ''''
      | Some (_, fdps) \<Rightarrow>
          (case find (\<lambda>f. fdp_name f = file) fdps of None \<Rightarrow> '''' | Some f \<Rightarrow> fdp_package f))"

text \<open>One turn of the loop that attributes packages: \<open>owners\<close> maps a package to its layers.\<close>

definition attribute_package ::
  "(string \<times> 'x fdp list) list \<Rightarrow> string \<times> contribution \<Rightarrow> (string \<times> string list) list \<Rightarrow>
   (string \<times> string list) list" where
  "attribute_package layers entry owners =
     (let file = fst entry; c = snd entry; pkg = contributed_package layers file c in
        if length (co_layers c) > 1 \<and> length (co_bytes c) = 1 then owners
        else if length (co_bytes c) > 1 then owners
        else if pkg = '''' then owners
        else AList.update pkg (fold List.insert (co_layers c) (multi_get owners pkg)) owners)"

definition checkPackageCollisions ::
  "('x, 'm) codecs \<Rightarrow> string list \<Rightarrow> 'x fdp list list \<Rightarrow> load_error + unit" where
  "checkPackageCollisions L names perLayer =
     (if length names \<noteq> length perLayer then
        Inl (OtherError (''checkPackageCollisions: '' @ itoa (int (length names)) @ '' layer names but ''
                         @ itoa (int (length perLayer)) @ '' FDS slices''))
      else
        let layers = zip names perLayer in
        sbind (file_contributions L layers) (\<lambda>contribs.
          let owners = fold (attribute_package layers) contribs [];
              colliding = map fst (filter (\<lambda>e. length (snd e) > 1) owners)
          in
            (case sort colliding of
               [] \<Rightarrow> Inr ()
             | pkg # _ \<Rightarrow> Inl (PackageCollisionError pkg (sort (multi_get owners pkg))))))"

text \<open>One file of \<open>mergeDescriptors\<close>: the state is the map \<open>seen\<close> and the merged list.\<close>

definition merge_file ::
  "('x, 'm) codecs \<Rightarrow> (string \<times> string) list \<times> 'x fdp list \<Rightarrow> 'x fdp \<Rightarrow>
   load_error + (string \<times> string) list \<times> 'x fdp list" where
  "merge_file L st f =
     sbind (fail_with (ParseError fileDescriptors) (marshal_fd L f)) (\<lambda>b.
       case map_of (fst st) (fdp_name f) of
         Some prev \<Rightarrow>
           (if prev \<noteq> b then
              Inl (ParseError fileDescriptors
                     (''conflicting definitions of '' @ go_quote (fdp_name f) @ '' across layers''))
            else Inr st)
       | None \<Rightarrow> Inr (AList.update (fdp_name f) b (fst st), snd st @ [f]))"

definition mergeDescriptors :: "('x, 'm) codecs \<Rightarrow> 'x fdp list list \<Rightarrow> load_error + 'm registry" where
  "mergeDescriptors L perLayer =
     sbind (sfold (\<lambda>st fdps. sfold (merge_file L) st fdps) ([], []) perLayer) (\<lambda>(seen, merged).
       fail_with (ParseError fileDescriptors) (new_files L merged))"

definition messageDescriptor :: "'m registry \<Rightarrow> string \<Rightarrow> string \<Rightarrow> load_error + 'm" where
  "messageDescriptor reg cv name =
     (case reg name of
        Some (MessageDescriptor md) \<Rightarrow> Inr md
      | _ \<Rightarrow> Inl (MessageNotFoundError cv name))"

section \<open>Layers\<close>

definition layerDirs :: "string \<Rightarrow> node option \<Rightarrow> load_error + string list" where
  "layerDirs dir root =
     sbind (fail_with (\<lambda>err. ReadError dir (io_error_text err)) (ReadDir root [])) (\<lambda>entries.
       if subdirs entries = [] then
         Inl (ValidationError '''' '''' ''bundle directory contains no layers'')
       else Inr (subdirs entries))"

definition loadLayerDescriptors ::
  "('x, 'm) codecs \<Rightarrow> node option \<Rightarrow> string \<Rightarrow> load_error + 'x fdp list" where
  "loadLayerDescriptors L root layer =
     sbind (fail_with (\<lambda>err. ReadError fileDescriptors (io_error_text err))
              (ReadFile root [layer, fileDescriptors])) (\<lambda>raw.
       fail_with (ParseError fileDescriptors) (unmarshal_fds L raw))"

definition validateOpenAPI :: "('x, 'm) codecs \<Rightarrow> node option \<Rightarrow> string \<Rightarrow> load_error + unit" where
  "validateOpenAPI L root layer =
     sbind (fail_with (\<lambda>err. ReadError fileOpenAPI (io_error_text err))
              (ReadFile root [layer, fileOpenAPI])) (\<lambda>raw.
       case json_unmarshal (text_codec L) raw of
         Some (JObj doc) \<Rightarrow> Inr ()
       | Some JNull \<Rightarrow> Inr ()
       | _ \<Rightarrow> Inl (ParseError fileOpenAPI ''not a JSON object''))"

definition loadVersions :: "('x, 'm) codecs \<Rightarrow> node option \<Rightarrow> string \<Rightarrow> load_error + yaml_bundle" where
  "loadVersions L root layer =
     sbind (fail_with (\<lambda>err. ReadError fileVersions (io_error_text err))
              (ReadFile root [layer, fileVersions])) (\<lambda>raw.
       fail_with (ParseError fileVersions) (decode_versions L raw))"

record 'x layer =
  la_name :: string
  la_fdps :: "'x fdp list"
  la_yb :: yaml_bundle

definition load_layer :: "('x, 'm) codecs \<Rightarrow> node option \<Rightarrow> string \<Rightarrow> load_error + 'x layer" where
  "load_layer L root name =
     sbind (loadLayerDescriptors L root name) (\<lambda>fdps.
     sbind (validateOpenAPI L root name) (\<lambda>_.
     sbind (loadVersions L root name) (\<lambda>yb.
       if yb_version yb \<noteq> 1 then Inl (UnsupportedVersionError (yb_version yb))
       else Inr \<lparr>la_name = name, la_fdps = fdps, la_yb = yb\<rparr>)))"

section \<open>Contracts of the layers\<close>

text \<open>Every binding must resolve: the two messages of a contract, then its error messages.\<close>

definition resolve_messages :: "'m registry \<Rightarrow> contract \<Rightarrow> load_error + unit" where
  "resolve_messages reg c =
     sbind (smap (messageDescriptor reg (c_version c))
              ([request_message c, response_message c] @ map snd (error_messages c)))
       (\<lambda>_. Inr ())"

definition contract_key_of :: "'a contract_scheme \<Rightarrow> contract_key" where
  "contract_key_of c = (c_version c, c_route c, c_method c)"

definition add_contract ::
  "'m registry \<Rightarrow> contract list \<Rightarrow> yaml_contract \<Rightarrow> load_error + contract list" where
  "add_contract reg cs yc =
     sbind (validateContract yc) (\<lambda>c.
       if contract_key_of c \<in> set (map contract_key_of cs) then
         Inl (ValidationError (c_version c) ''contract_version''
                ''duplicate (version, route, method) across layers'')
       else
         sbind (resolve_messages reg c) (\<lambda>_. Inr (cs @ [c])))"

definition add_layer :: "'m registry \<Rightarrow> contract list \<Rightarrow> 'x layer \<Rightarrow> load_error + contract list" where
  "add_layer reg cs l =
     (if yb_contracts (la_yb l) = [] then Inl (ValidationError '''' '''' ''layer has no contracts'')
      else sfold (add_contract reg) cs (yb_contracts (la_yb l)))"

definition index_by_version :: "'a contract_scheme list \<Rightarrow> 'a contract_scheme version_index" where
  "index_by_version cs = foldl (\<lambda>m c. multi_add (c_version c) c m) [] cs"

section \<open>Resolution\<close>

definition set_error_ops ::
  "('x, 'm) codecs \<Rightarrow> 'm registry \<Rightarrow> contract \<Rightarrow> 'm \<Rightarrow> (int \<times> op list) list \<Rightarrow> string \<times> yaml_op list \<Rightarrow>
   load_error + (int \<times> op list) list" where
  "set_error_ops L reg c reqDesc m entry =
     (let code = fst entry; raw = snd entry; cv = c_version c in
        case atoi (trim_space code) of
          None \<Rightarrow> Inl (ValidationError cv ''transform.error_responses''
                         (''status key '' @ code @ '' is not a number''))
        | Some status \<Rightarrow>
            (case ErrorMessage c status of
               None \<Rightarrow> Inl (ValidationError cv ''transform.error_responses''
                              (''status '' @ code @ '' has no error_messages binding to transform''))
             | Some name \<Rightarrow>
                 sbind (messageDescriptor reg cv name) (\<lambda>errDesc.
                 sbind (toOps (reflect L) cv ''response'' raw (Some reqDesc) (Some errDesc)) (\<lambda>ops.
                   Inr (AList.update status ops m)))))"

definition applyResolution ::
  "('x, 'm) codecs \<Rightarrow> 'm registry \<Rightarrow> contract \<Rightarrow> yaml_resolution \<Rightarrow> load_error + contract" where
  "applyResolution L reg c ov =
     (case yr_transform ov of
        None \<Rightarrow> Inr (c\<lparr>target := trim_space (the (yr_route ov))\<rparr>)
      | Some t \<Rightarrow>
          sbind (messageDescriptor reg (c_version c) (request_message c)) (\<lambda>reqDesc.
          sbind (messageDescriptor reg (c_version c) (response_message c)) (\<lambda>respDesc.
          sbind (toOps (reflect L) (c_version c) ''request'' (yt_request t) (Some reqDesc) (Some respDesc)) (\<lambda>reqOps.
          sbind (toOps (reflect L) (c_version c) ''response'' (yt_response t) (Some reqDesc) (Some respDesc)) (\<lambda>respOps.
            let c' = c\<lparr>request_ops := reqOps, response_ops := respOps,
                       transform_target := trim_space (yt_target t)\<rparr>
            in
              if yt_errors t = [] then Inr c'
              else
                sbind (sfold (set_error_ops L reg c' reqDesc) [] (yt_errors t)) (\<lambda>m.
                  Inr (c'\<lparr>error_response_ops := m\<rparr>)))))))"

type_synonym variant = "contract_key \<times> selectors \<times> contract"

text \<open>The rules of one contract: the version-only rule changes the canonical contract \<open>c\<close>, every
  other rule a copy of \<open>raw\<close>, the contract as validated.\<close>

definition apply_rule ::
  "('x, 'm) codecs \<Rightarrow> 'm registry \<Rightarrow> contract \<Rightarrow> contract \<times> variant list \<Rightarrow> yaml_resolution \<Rightarrow>
   load_error + contract \<times> variant list" where
  "apply_rule L reg raw st ov =
     (let sel = selectors_of ov in
        if selectorEmpty sel then
          sbind (applyResolution L reg (fst st) ov) (\<lambda>c. Inr (c, snd st))
        else
          sbind (applyResolution L reg raw ov) (\<lambda>v.
            Inr (fst st, snd st @ [(contract_key_of raw, sel, v)])))"

definition materialize ::
  "('x, 'm) codecs \<Rightarrow> 'm registry \<Rightarrow> resolution_map \<Rightarrow> contract list \<times> variant list \<Rightarrow> contract \<Rightarrow>
   load_error + contract list \<times> variant list" where
  "materialize L reg rmap st c =
     sbind (sfold (apply_rule L reg c) (c, snd st) (multi_get rmap (c_version c))) (\<lambda>(c', vs).
       Inr (fst st @ [c'], vs))"

section \<open>Chains\<close>

text \<open>The walk terminates because every turn adds a version to \<open>seen\<close>; only the first contract may
  have a version outside the index.\<close>

definition index_versions :: "contract version_index \<Rightarrow> string set" where
  "index_versions bv = c_version ` (\<Union>cs \<in> set (map snd bv). set cs)"

definition walk_measure :: "contract version_index \<Rightarrow> string list \<Rightarrow> contract \<Rightarrow> nat" where
  "walk_measure bv seen cur =
     2 * card (index_versions bv - set seen) + (if c_version cur \<in> index_versions bv then 0 else 1)"

lemma finite_index_versions [simp]: "finite (index_versions bv)"
  by (simp add: index_versions_def)

lemma index_versions_mem:
  assumes "map_of bv v = Some cs" and "find P cs = Some c"
  shows "c_version c \<in> index_versions bv"
proof -
  from assms have "(v, cs) \<in> set bv" "c \<in> set cs"
    by (auto dest: map_of_SomeD find_Some_D)
  then show ?thesis by (force simp: index_versions_def)
qed

lemma walk_measure_less:
  assumes "c_version cur \<notin> set seen" and "c_version next \<in> index_versions bv"
  shows "walk_measure bv (c_version cur # seen) next < walk_measure bv seen cur"
proof (cases "c_version cur \<in> index_versions bv")
  case True
  with assms(1) have "card (index_versions bv - set (c_version cur # seen))
      < card (index_versions bv - set seen)"
    by (intro psubset_card_mono) auto
  with True assms(2) show ?thesis by (simp add: walk_measure_def)
next
  case False
  then have "index_versions bv - insert (c_version cur) (set seen) = index_versions bv - set seen"
    by auto
  with False assms(2) show ?thesis by (simp add: walk_measure_def)
qed

function walk_chain ::
  "contract version_index \<Rightarrow> string \<Rightarrow> string \<Rightarrow> string list \<Rightarrow> contract \<Rightarrow> load_error + contract list" where
  "walk_chain bv route meth seen cur =
     (if c_version cur \<in> set seen then
        Inl (ValidationError (c_version cur) ''transform.target'' ''transform chain cycles'')
      else if transform_target cur = '''' then Inr [cur]
      else
        (case map_of bv (transform_target cur) of
           None \<Rightarrow> Inl (ValidationError (c_version cur) ''transform.target''
                          ''transform target names an unknown version'')
         | Some candidates \<Rightarrow>
             (case find (binds route meth) candidates of
                None \<Rightarrow> Inl (ValidationError (c_version cur) ''transform.target''
                  (''transform target version does not bind ('' @ route @ '', '' @ meth @ '')''))
              | Some next \<Rightarrow>
                  sbind (walk_chain bv route meth (c_version cur # seen) next)
                    (\<lambda>chain. Inr (cur # chain)))))"
  by pat_completeness auto
termination
  by (relation "measure (\<lambda>(bv, route, meth, seen, cur). walk_measure bv seen cur)")
    (auto intro!: walk_measure_less index_versions_mem)

declare walk_chain.simps [simp del]

definition bind_chain :: "contract version_index \<Rightarrow> contract \<Rightarrow> load_error + bound" where
  "bind_chain bv c =
     sbind (walk_chain bv (c_route c) (c_method c) [] c) (\<lambda>ch.
       Inr (contract.extend c (bound.fields ch)))"

definition resolveChains :: "contract version_index \<Rightarrow> contract list \<Rightarrow> load_error + bound list" where
  "resolveChains bv cs = smap (bind_chain bv) cs"

section \<open>Load\<close>

definition unknown_override :: "resolution_map \<Rightarrow> contract version_index \<Rightarrow> string option" where
  "unknown_override rmap bv = find (\<lambda>cv. map_of bv cv = None) (map fst rmap)"

definition index_variants :: "(variant \<times> bound) list \<Rightarrow> (contract_key \<times> (selectors \<times> bound) list) list" where
  "index_variants vs = foldl (\<lambda>m ((key, s, _), b). multi_add key (s, b) m) [] vs"

definition resolve_bundle ::
  "('x, 'm) codecs \<Rightarrow> 'm registry \<Rightarrow> resolution_map \<Rightarrow> contract list \<Rightarrow> load_error + 'm contract_bundle" where
  "resolve_bundle L reg rmap cs =
     (case unknown_override rmap (index_by_version cs) of
        Some cv \<Rightarrow> Inl (ValidationError cv ''contract_version''
                          ''resolution override names an unknown contract version'')
      | None \<Rightarrow>
          sbind (sfold (materialize L reg rmap) ([], []) cs) (\<lambda>(canonical, variants).
          let bv = index_by_version canonical in
          sbind (resolveChains bv canonical) (\<lambda>bounds.
          sbind (resolveChains bv (map (\<lambda>v. snd (snd v)) variants)) (\<lambda>vbounds.
            Inr \<lparr>contracts = bounds, by_version = index_by_version bounds,
                 selector_variants = index_variants (zip variants vbounds), files = reg\<rparr>))))"

text \<open>\<open>dir\<close> is the path of the bundle directory and \<open>root\<close> what is there.\<close>

definition Load ::
  "('x, 'm) codecs \<Rightarrow> string \<Rightarrow> node option \<Rightarrow> load_error + 'm contract_bundle" where
  "Load L dir root =
     sbind (layerDirs dir root) (\<lambda>names.
     sbind (loadResolution L root) (\<lambda>rmap.
     sbind (smap (load_layer L root) names) (\<lambda>loaded.
     sbind (checkPackageCollisions L (map la_name loaded) (map la_fdps loaded)) (\<lambda>_.
     sbind (mergeDescriptors L (map la_fdps loaded)) (\<lambda>reg.
     sbind (sfold (add_layer reg) [] loaded) (\<lambda>cs.
       resolve_bundle L reg rmap cs))))))"

end
