(* ===== verification/Bundle_Facts.thy ===== *)
theory Bundle_Facts
  imports Bundle_Load
begin

text \<open>
  What \<open>bundle.Load\<close> guarantees about the bundle it returns: unique and resolvable bindings,
  operations checked against the descriptors, unambiguous selector rules, and finite transform
  chains.  The server, the adapter and the negotiation rest on these facts.
\<close>

section \<open>The version index\<close>

lemma index_by_version_snoc:
  "index_by_version (cs @ [c]) = multi_add (c_version c) c (index_by_version cs)"
  by (simp add: index_by_version_def)

lemma index_by_version_Nil [simp]: "index_by_version [] = []"
  by (simp add: index_by_version_def)

lemma multi_get_index: "multi_get (index_by_version cs) v = filter (\<lambda>c. c_version c = v) cs"
  by (induction cs rule: rev_induct) (auto simp: index_by_version_snoc)

lemma map_of_index:
  "map_of (index_by_version cs) v =
     (if \<exists>c \<in> set cs. c_version c = v then Some (filter (\<lambda>c. c_version c = v) cs) else None)"
proof (induction cs rule: rev_induct)
  case (snoc c cs)
  then show ?case by (auto simp: index_by_version_snoc map_of_multi_add multi_get_index)
qed simp

lemma keys_index: "set (map fst (index_by_version cs)) = c_version ` set cs"
proof (induction cs rule: rev_induct)
  case (snoc c cs)
  then show ?case using keys_multi_add [of "c_version c" c "index_by_version cs"]
    by (simp add: index_by_version_snoc)
qed simp

lemma distinct_index: "distinct (map fst (index_by_version cs))"
  by (induction cs rule: rev_induct) (auto simp: index_by_version_snoc intro: distinct_multi_add)

section \<open>Chains\<close>

text \<open>The declarative reading of a chain: each member is the contract its predecessor's
  \<open>transform.target\<close> names at the same route and method, and the last one names none.\<close>

inductive linked :: "contract version_index \<Rightarrow> string \<Rightarrow> string \<Rightarrow> contract \<Rightarrow> contract list \<Rightarrow> bool"
  for bv route meth where
  Terminal: "transform_target c = '''' \<Longrightarrow> linked bv route meth c [c]"
| Link: "transform_target c \<noteq> '''' \<Longrightarrow> map_of bv (transform_target c) = Some cs \<Longrightarrow>
         find (binds route meth) cs = Some c' \<Longrightarrow> linked bv route meth c' ch \<Longrightarrow>
         linked bv route meth c (c # ch)"

lemma linked_terminal: "transform_target c = '''' \<Longrightarrow> linked bv route meth c ch \<longleftrightarrow> ch = [c]"
  by (subst linked.simps) auto

lemma linked_link:
  "transform_target c \<noteq> '''' \<Longrightarrow> map_of bv (transform_target c) = Some cs \<Longrightarrow>
   find (binds route meth) cs = Some c' \<Longrightarrow>
   linked bv route meth c ch \<longleftrightarrow> (\<exists>rest. ch = c # rest \<and> linked bv route meth c' rest)"
  by (subst linked.simps) auto

lemma linked_stuck:
  "transform_target c \<noteq> '''' \<Longrightarrow>
   \<not> (\<exists>cs c'. map_of bv (transform_target c) = Some cs \<and> find (binds route meth) cs = Some c') \<Longrightarrow>
   \<not> linked bv route meth c ch"
  by (subst linked.simps) auto

lemma linked_hd: "linked bv route meth c ch \<Longrightarrow> ch \<noteq> [] \<and> hd ch = c"
  by (erule linked.cases) auto

lemma linked_last: "linked bv route meth c ch \<Longrightarrow> transform_target (last ch) = ''''"
  by (induction rule: linked.induct) (auto dest: linked_hd)

lemma linked_tl:
  "linked bv route meth c ch \<Longrightarrow> x \<in> set (tl ch) \<Longrightarrow>
   binds route meth x \<and> (\<exists>v cs. map_of bv v = Some cs \<and> x \<in> set cs)"
proof (induction rule: linked.induct)
  case (Link c cs c' ch)
  then show ?case
    using linked_hd [OF Link(4)] by (cases ch) (auto dest!: find_Some_D)
qed simp

lemma walk_chain_iff:
  "walk_chain bv route meth seen cur = Inr ch \<longleftrightarrow>
     linked bv route meth cur ch \<and> distinct (map c_version ch) \<and> c_version ` set ch \<inter> set seen = {}"
proof (induction bv route meth seen cur arbitrary: ch rule: walk_chain.induct)
  case (1 bv route meth seen cur)
  show ?case
  proof (cases "c_version cur \<in> set seen \<or> transform_target cur = ''''")
    case True
    show ?thesis
    proof (cases "c_version cur \<in> set seen")
      case seen: True
      then have "linked bv route meth cur ch \<Longrightarrow> c_version ` set ch \<inter> set seen \<noteq> {}"
        by (metis IntI imageI linked_hd list.set_sel(1) empty_iff)
      with seen show ?thesis by (subst walk_chain.simps) auto
    next
      case False
      with True show ?thesis
        by (subst walk_chain.simps) (auto simp: linked_terminal)
    qed
  next
    case False
    show ?thesis
    proof (cases "\<exists>cs next. map_of bv (transform_target cur) = Some cs \<and> find (binds route meth) cs = Some next")
      case True
      then obtain cs "next" where n: "map_of bv (transform_target cur) = Some cs"
        "find (binds route meth) cs = Some next" by auto
      with False have "walk_chain bv route meth seen cur = Inr ch \<longleftrightarrow>
          (\<exists>rest. ch = cur # rest \<and> walk_chain bv route meth (c_version cur # seen) next = Inr rest)"
        by (subst walk_chain.simps) (auto simp: result_simps)
      also have "\<dots> \<longleftrightarrow> (\<exists>rest. ch = cur # rest \<and> linked bv route meth next rest \<and>
          distinct (map c_version rest) \<and> c_version ` set rest \<inter> set (c_version cur # seen) = {})"
        using False n "1.IH" [OF _ _ n] by auto
      also have "\<dots> \<longleftrightarrow> linked bv route meth cur ch \<and> distinct (map c_version ch) \<and>
          c_version ` set ch \<inter> set seen = {}"
      proof -
        have "distinct (map c_version rest) \<and> c_version ` set rest \<inter> set (c_version cur # seen) = {} \<longleftrightarrow>
            distinct (map c_version (cur # rest)) \<and> c_version ` set (cur # rest) \<inter> set seen = {}" for rest
          using False by auto
        then show ?thesis
          using False n by (auto simp: linked_link simp del: set_simps list.map distinct.simps)
      qed
      finally show ?thesis .
    next
      case nolink: False
      with False have "\<exists>e. walk_chain bv route meth seen cur = Inl e"
        by (subst walk_chain.simps) (auto split: option.splits)
      moreover from False nolink have "\<not> linked bv route meth cur ch"
        by (intro linked_stuck) auto
      ultimately show ?thesis by auto
    qed
  qed
qed

lemma walk_chain_error:
  "walk_chain bv route meth seen cur = Inl e \<Longrightarrow> \<exists>cv why. e = ValidationError cv ''transform.target'' why"
proof (induction bv route meth seen cur rule: walk_chain.induct)
  case (1 bv route meth seen cur)
  from "1.prems" show ?case
    by (subst (asm) walk_chain.simps)
      (auto simp: result_simps split: if_splits option.splits dest!: "1.IH" [rotated 4])
qed

section \<open>Validated contracts\<close>

definition resolvable :: "'m registry \<Rightarrow> string \<Rightarrow> bool" where
  "resolvable reg n = (\<exists>md. reg n = Some (MessageDescriptor md))"

definition declared_status_ok :: "int \<Rightarrow> bool" where
  "declared_status_ok s = (\<not> (200 \<le> s \<and> s \<le> 299) \<and> \<not> IsCapabilityCeiling s)"

definition binding_ok :: "'m registry \<Rightarrow> 'a contract_scheme \<Rightarrow> bool" where
  "binding_ok reg c =
     (c_version c \<noteq> '''' \<and> prefix ''/'' (c_route c) \<and> c_method c \<in> set allowedMethods \<and>
      resolvable reg (request_message c) \<and> resolvable reg (response_message c) \<and>
      distinct (map fst (error_messages c)) \<and>
      list_all (\<lambda>(s, n). declared_status_ok s \<and> n \<noteq> '''' \<and> resolvable reg n) (error_messages c))"

text \<open>A resolution rule changes operations and targets, never the binding.\<close>

definition same_binding :: "'a contract_scheme \<Rightarrow> 'b contract_scheme \<Rightarrow> bool" where
  "same_binding c d =
     (c_version c = c_version d \<and> c_route c = c_route d \<and> c_method c = c_method d \<and>
      request_message c = request_message d \<and> response_message c = response_message d \<and>
      error_messages c = error_messages d \<and> strict c = strict d)"

lemma same_binding_refl [simp]: "same_binding c c"
  by (simp add: same_binding_def)

lemma same_binding_trans: "same_binding a b \<Longrightarrow> same_binding b c \<Longrightarrow> same_binding a c"
  by (simp add: same_binding_def)

lemma same_binding_key: "same_binding c d \<Longrightarrow> contract_key_of c = contract_key_of d"
  by (simp add: same_binding_def contract_key_of_def)

lemma same_binding_ok: "same_binding c d \<Longrightarrow> binding_ok reg c = binding_ok reg d"
  by (simp add: same_binding_def binding_ok_def)

lemma messageDescriptor_iff:
  "messageDescriptor reg cv n = Inr md \<longleftrightarrow> reg n = Some (MessageDescriptor md)"
  by (auto simp: messageDescriptor_def split: option.splits descriptor.splits)

lemma resolve_messages_iff:
  "resolve_messages reg c = Inr () \<longleftrightarrow>
     list_all (resolvable reg) ([request_message c, response_message c] @ map snd (error_messages c))"
proof -
  have "(\<exists>mds. smap (messageDescriptor reg cv) ns = Inr mds) \<longleftrightarrow> list_all (resolvable reg) ns" for cv ns
  proof
    assume "\<exists>mds. smap (messageDescriptor reg cv) ns = Inr mds"
    then show "list_all (resolvable reg) ns"
      by (auto simp: smap_eq_Inr_iff list_all2_conv_all_nth list_all_length messageDescriptor_iff
          resolvable_def)
  next
    assume "list_all (resolvable reg) ns"
    then show "\<exists>mds. smap (messageDescriptor reg cv) ns = Inr mds"
      by (intro smap_total) (auto simp: list_all_iff resolvable_def messageDescriptor_iff)
  qed
  note * = this [of "c_version c" "[request_message c, response_message c] @ map snd (error_messages c)"]
  show ?thesis
    unfolding resolve_messages_def sbind_eq_Inr * [symmetric] by blast
qed

definition message_entry_ok :: "(int \<times> string) \<Rightarrow> bool" where
  "message_entry_ok e = (declared_status_ok (fst e) \<and> snd e \<noteq> '''')"

lemma set_AList_update: "set (AList.update k v m) \<subseteq> insert (k, v) (set m)"
  by (induction m) auto

lemma add_error_message_ok:
  assumes "add_error_message cv m e = Inr m'" and "distinct (map fst m)" and "list_all message_entry_ok m"
  shows "distinct (map fst m') \<and> list_all message_entry_ok m'"
proof -
  from assms(1) obtain s where "m' = AList.update s (trim_space (snd e)) m"
    "declared_status_ok s" "trim_space (snd e) \<noteq> ''''"
    by (auto simp: add_error_message_def Let_def declared_status_ok_def split: option.splits if_splits)
  then show ?thesis
    using assms(2,3) set_AList_update [of s "trim_space (snd e)" m]
    by (auto simp: distinct_update list_all_iff message_entry_ok_def)
qed

lemma validateContract_ok:
  assumes "validateContract yc = Inr c"
  shows "c_version c \<noteq> '''' \<and> prefix ''/'' (c_route c) \<and> c_method c \<in> set allowedMethods \<and>
    request_message c \<noteq> '''' \<and> response_message c \<noteq> '''' \<and>
    distinct (map fst (error_messages c)) \<and> list_all message_entry_ok (error_messages c) \<and>
    request_ops c = [] \<and> response_ops c = [] \<and> error_response_ops c = [] \<and>
    target c = '''' \<and> transform_target c = ''''"
proof -
  from assms obtain msgs where m: "sfold (add_error_message (c_version c)) [] (yk_errors yc) = Inr msgs"
    and c: "error_messages c = msgs"
    "c_version c \<noteq> '''' \<and> prefix ''/'' (c_route c) \<and> c_method c \<in> set allowedMethods \<and>
     request_message c \<noteq> '''' \<and> response_message c \<noteq> '''' \<and>
     request_ops c = [] \<and> response_ops c = [] \<and> error_response_ops c = [] \<and>
     target c = '''' \<and> transform_target c = ''''"
    by (auto simp: validateContract_def Let_def result_simps split: if_splits)
  from m have "distinct (map fst msgs) \<and> list_all message_entry_ok msgs"
    by (rule sfold_invariant [where P = "\<lambda>m. distinct (map fst m) \<and> list_all message_entry_ok m"])
      (auto dest: add_error_message_ok)
  with c show ?thesis by simp
qed

lemma add_contract_ok:
  assumes "add_contract reg cs yc = Inr cs'"
    and "distinct (map contract_key_of cs)" and "list_all (binding_ok reg) cs"
  shows "distinct (map contract_key_of cs') \<and> list_all (binding_ok reg) cs'"
proof -
  from assms(1) obtain c where c: "validateContract yc = Inr c"
    "contract_key_of c \<notin> set (map contract_key_of cs)"
    "resolve_messages reg c = Inr ()" "cs' = cs @ [c]"
    by (auto simp: add_contract_def result_simps split: if_splits)
  from c(3) have "binding_ok reg c"
    using validateContract_ok [OF c(1)]
    by (auto simp: binding_ok_def resolve_messages_iff list_all_iff message_entry_ok_def)
  with c assms(2,3) show ?thesis by auto
qed

lemma add_layer_ok:
  assumes "add_layer reg cs l = Inr cs'"
    and "distinct (map contract_key_of cs) \<and> list_all (binding_ok reg) cs"
  shows "distinct (map contract_key_of cs') \<and> list_all (binding_ok reg) cs'"
proof -
  from assms(1) have "sfold (add_contract reg) cs (yb_contracts (la_yb l)) = Inr cs'"
    by (simp add: add_layer_def split: if_splits)
  then show ?thesis
    using assms(2) by (rule sfold_invariant) (auto dest: add_contract_ok)
qed

section \<open>Resolution rules\<close>

text \<open>The operations of a contract were checked against the messages it binds.\<close>

definition error_ops_ok :: "('x, 'm) codecs \<Rightarrow> 'm registry \<Rightarrow> 'a contract_scheme \<Rightarrow> int \<times> op list \<Rightarrow> bool" where
  "error_ops_ok L reg c e =
     (\<exists>n md. ErrorMessage c (fst e) = Some n \<and> reg n = Some (MessageDescriptor md) \<and>
        list_all (\<lambda>x. \<exists>req. op_valid (reflect L) (external ''response'' (Some req) (Some md)) x) (snd e))"

definition ops_ok :: "('x, 'm) codecs \<Rightarrow> 'm registry \<Rightarrow> 'a contract_scheme \<Rightarrow> bool" where
  "ops_ok L reg c =
     (\<exists>req resp.
        reg (request_message c) = Some (MessageDescriptor req) \<and>
        reg (response_message c) = Some (MessageDescriptor resp) \<and>
        list_all (op_valid (reflect L) (external ''request'' (Some req) (Some resp))) (request_ops c) \<and>
        list_all (op_valid (reflect L) (external ''response'' (Some req) (Some resp))) (response_ops c) \<and>
        list_all (error_ops_ok L reg c) (error_response_ops c))"

lemma set_error_ops_ok:
  assumes "set_error_ops L reg c req m e = Inr m'" and "list_all (error_ops_ok L reg c) m"
  shows "list_all (error_ops_ok L reg c) m'"
proof -
  from assms(1) obtain s n md ops where e: "ErrorMessage c s = Some n" "reg n = Some (MessageDescriptor md)"
    "toOps (reflect L) (c_version c) ''response'' (snd e) (Some req) (Some md) = Inr ops"
    "m' = AList.update s ops m"
    by (auto simp: set_error_ops_def Let_def result_simps messageDescriptor_iff split: option.splits)
  from toOps_valid [OF e(3)] have "error_ops_ok L reg c (s, ops)"
    using e by (auto simp: error_ops_ok_def list_all_iff)
  with assms(2) e(4) set_AList_update [of s ops m] show ?thesis
    by (auto simp: list_all_iff)
qed

definition with_ops :: "contract \<Rightarrow> op list \<Rightarrow> op list \<Rightarrow> yaml_transform \<Rightarrow> contract" where
  "with_ops c reqOps respOps t =
     c\<lparr>request_ops := reqOps, response_ops := respOps, transform_target := trim_space (yt_target t)\<rparr>"

lemma applyResolution_transform:
  assumes "yr_transform ov = Some t" and "applyResolution L reg c ov = Inr c'"
  obtains req resp reqOps respOps where
    "reg (request_message c) = Some (MessageDescriptor req)"
    "reg (response_message c) = Some (MessageDescriptor resp)"
    "toOps (reflect L) (c_version c) ''request'' (yt_request t) (Some req) (Some resp) = Inr reqOps"
    "toOps (reflect L) (c_version c) ''response'' (yt_response t) (Some req) (Some resp) = Inr respOps"
    "(if yt_errors t = [] then Inr (with_ops c reqOps respOps t)
      else sbind (sfold (set_error_ops L reg (with_ops c reqOps respOps t) req) [] (yt_errors t))
        (\<lambda>m. Inr (with_ops c reqOps respOps t\<lparr>error_response_ops := m\<rparr>))) = Inr c'"
  using assms unfolding applyResolution_def Let_def with_ops_def [symmetric]
  by (auto simp: sbind_eq_Inr messageDescriptor_iff)

lemma applyResolution_ok:
  assumes "applyResolution L reg c ov = Inr c'" and "ops_ok L reg c"
  shows "same_binding c' c \<and> ops_ok L reg c'"
proof (cases "yr_transform ov")
  case None
  with assms show ?thesis
    by (auto simp: applyResolution_def same_binding_def ops_ok_def error_ops_ok_def ErrorMessage_def
        list_all_iff)
next
  case (Some t)
  from Some assms(1) obtain req resp reqOps respOps where
    d: "reg (request_message c) = Some (MessageDescriptor req)"
      "reg (response_message c) = Some (MessageDescriptor resp)"
      "toOps (reflect L) (c_version c) ''request'' (yt_request t) (Some req) (Some resp) = Inr reqOps"
      "toOps (reflect L) (c_version c) ''response'' (yt_response t) (Some req) (Some resp) = Inr respOps"
    and c': "(if yt_errors t = [] then Inr (with_ops c reqOps respOps t)
       else sbind (sfold (set_error_ops L reg (with_ops c reqOps respOps t) req) [] (yt_errors t))
         (\<lambda>m. Inr (with_ops c reqOps respOps t\<lparr>error_response_ops := m\<rparr>))) = Inr c'"
    by (rule applyResolution_transform)
  note v = toOps_valid [OF d(3)] toOps_valid [OF d(4)]
  let ?c = "with_ops c reqOps respOps t"
  have err: "error_ops_ok L reg (?c\<lparr>error_response_ops := m\<rparr>) = error_ops_ok L reg c"
    "error_ops_ok L reg ?c = error_ops_ok L reg c" for m
    by (auto simp: error_ops_ok_def ErrorMessage_def with_ops_def)
  have c: "same_binding ?c c" "same_binding (?c\<lparr>error_response_ops := m\<rparr>) c" for m
    by (simp_all add: same_binding_def with_ops_def)
  have ok: "ops_ok L reg (?c\<lparr>error_response_ops := m\<rparr>)" if "list_all (error_ops_ok L reg c) m" for m
    using d v that by (simp add: ops_ok_def err) (simp add: with_ops_def)
  show ?thesis
  proof (cases "yt_errors t = []")
    case True
    with c' have "c' = ?c\<lparr>error_response_ops := error_response_ops c\<rparr>" by (cases c) (auto simp: with_ops_def)
    with c(2) ok assms(2) show ?thesis by (auto simp: ops_ok_def)
  next
    case False
    with c' obtain m where m: "sfold (set_error_ops L reg ?c req) [] (yt_errors t) = Inr m"
      "c' = ?c\<lparr>error_response_ops := m\<rparr>"
      by (auto simp: sbind_eq_Inr)
    from m(1) have "list_all (error_ops_ok L reg ?c) m"
      by (rule sfold_invariant) (auto dest: set_error_ops_ok)
    with m(2) c(2) ok show ?thesis by (auto simp: err)
  qed
qed

section \<open>Selector rules\<close>

definition rules_ok :: "yaml_resolution list \<Rightarrow> bool" where
  "rules_ok ovs =
     sorted_wrt (\<lambda>a b. \<not> selectorOverlap a b) (filter (\<lambda>s. \<not> selectorEmpty s) (map selectors_of ovs))"

lemma selectorOverlap_sym: "selectorOverlap a b \<longleftrightarrow> selectorOverlap b a"
  by (auto simp: selectorOverlap_def)

lemma check_selectors_ok:
  "check_selectors cv s ovs = Inr () \<Longrightarrow> \<not> selectorEmpty s \<Longrightarrow>
   list_all (\<lambda>t. selectorEmpty t \<or> \<not> selectorOverlap t s) (map selectors_of ovs)"
  by (induction ovs) (auto simp: Let_def selectorOverlap_sym split: if_splits)

lemma load_override_ok:
  assumes "load_override m ov = Inr m'" and "\<And>cv. rules_ok (multi_get m cv)"
  shows "rules_ok (multi_get m' cv)"
proof -
  from assms(1) obtain v s where m: "m' = multi_add v ov m" "resolutionSelectors ov = Inr s"
    "check_selectors v s (multi_get m v) = Inr ()"
    by (cases "resolutionSelectors ov")
      (auto simp: load_override_def Let_def result_simps split: if_splits)
  then have "selectors_of ov = s" by (simp add: selectors_of_def)
  with m assms(2) [of v] have "rules_ok (multi_get m v @ [ov])"
    using check_selectors_ok [OF m(3)]
    by (auto simp: rules_ok_def sorted_wrt_append list_all_iff)
  with assms(2) show ?thesis by (simp add: m(1))
qed

lemma loadResolution_ok:
  assumes "loadResolution L root = Inr m"
  shows "rules_ok (multi_get m cv)"
proof -
  have nil: "rules_ok []" by (simp add: rules_ok_def)
  from assms consider "m = []"
    | ovs where "sfold load_override [] ovs = Inr m"
  proof (cases "ReadFile root [fileResolution]")
    case (Inl err)
    with assms that(1) show thesis by (cases err) (auto simp: loadResolution_def)
  next
    case (Inr raw)
    with assms that(2) show thesis by (auto simp: loadResolution_def sbind_eq_Inr split: if_splits)
  qed
  then show ?thesis
  proof cases
    case 1
    with nil show ?thesis by simp
  next
    case 2
    then have "\<forall>cv. rules_ok (multi_get m cv)"
      by (rule sfold_invariant [where P = "\<lambda>m. \<forall>cv. rules_ok (multi_get m cv)"])
        (auto simp: nil dest: load_override_ok)
    then show ?thesis by simp
  qed
qed

section \<open>Materialized contracts and variants\<close>

definition variants_for :: "contract_key \<Rightarrow> variant list \<Rightarrow> variant list" where
  "variants_for k vs = filter (\<lambda>v. fst v = k) vs"

definition variant_ok :: "('x, 'm) codecs \<Rightarrow> 'm registry \<Rightarrow> variant \<Rightarrow> bool" where
  "variant_ok L reg v = (contract_key_of (snd (snd v)) = fst v \<and>
     binding_ok reg (snd (snd v)) \<and> ops_ok L reg (snd (snd v)))"

definition rule_selectors :: "yaml_resolution list \<Rightarrow> selectors list" where
  "rule_selectors ovs = filter (\<lambda>s. \<not> selectorEmpty s) (map selectors_of ovs)"

lemma apply_rule_simps [simp]:
  "selectorEmpty (selectors_of ov) \<Longrightarrow>
   apply_rule L reg raw (c, vs) ov = sbind (applyResolution L reg c ov) (\<lambda>c'. Inr (c', vs))"
  "\<not> selectorEmpty (selectors_of ov) \<Longrightarrow>
   apply_rule L reg raw (c, vs) ov = sbind (applyResolution L reg raw ov)
     (\<lambda>v. Inr (c, vs @ [(contract_key_of raw, selectors_of ov, v)]))"
  by (simp_all add: apply_rule_def)

lemma apply_rules_ok:
  assumes "sfold (apply_rule L reg raw) (c, vs) ovs = Inr (c', vs')"
    and "same_binding c raw" "ops_ok L reg c" "ops_ok L reg raw" "binding_ok reg raw"
  shows "same_binding c' raw \<and> ops_ok L reg c' \<and>
    (\<exists>new. vs' = vs @ new \<and> list_all (variant_ok L reg) new \<and>
       map (\<lambda>v. (fst v, fst (snd v))) new = map (\<lambda>s. (contract_key_of raw, s)) (rule_selectors ovs))"
  using assms(1-3)
proof (induction ovs arbitrary: c vs)
  case Nil
  then show ?case by (simp add: rule_selectors_def)
next
  case (Cons ov ovs)
  show ?case
  proof (cases "selectorEmpty (selectors_of ov)")
    case True
    with Cons.prems(1) obtain c2 where c2: "applyResolution L reg c ov = Inr c2"
      "sfold (apply_rule L reg raw) (c2, vs) ovs = Inr (c', vs')"
      by (auto simp: result_simps)
    from applyResolution_ok [OF c2(1) Cons.prems(3)] Cons.prems(2)
    have "same_binding c2 raw" "ops_ok L reg c2" by (auto intro: same_binding_trans)
    from Cons.IH [OF c2(2) this] True show ?thesis by (simp add: rule_selectors_def)
  next
    case False
    with Cons.prems(1) obtain v where v: "applyResolution L reg raw ov = Inr v"
      "sfold (apply_rule L reg raw) (c, vs @ [(contract_key_of raw, selectors_of ov, v)]) ovs = Inr (c', vs')"
      by (auto simp: result_simps)
    from applyResolution_ok [OF v(1) assms(4)] assms(5)
    have "variant_ok L reg (contract_key_of raw, selectors_of ov, v)"
      using same_binding_key [of v raw] same_binding_ok [of v raw reg] by (simp add: variant_ok_def)
    with Cons.IH [OF v(2) Cons.prems(2,3)] False show ?thesis
      by (auto simp: rule_selectors_def)
  qed
qed

text \<open>The invariant of the loop over the contracts: \<open>done\<close> are the contracts handled so far.\<close>

definition materialized ::
  "('x, 'm) codecs \<Rightarrow> 'm registry \<Rightarrow> resolution_map \<Rightarrow> contract list \<Rightarrow> contract list \<times> variant list \<Rightarrow> bool" where
  "materialized L reg rmap handled st =
     (list_all2 same_binding (fst st) handled \<and> list_all (ops_ok L reg) (fst st) \<and>
      list_all (variant_ok L reg) (snd st) \<and>
      (\<forall>k. map (\<lambda>v. fst (snd v)) (variants_for k (snd st)) =
         (if k \<in> contract_key_of ` set handled then rule_selectors (multi_get rmap (fst k)) else [])))"

lemma materialize_step:
  assumes "materialize L reg rmap st c = Inr st'" and "materialized L reg rmap handled st"
    and "binding_ok reg c" "ops_ok L reg c" "contract_key_of c \<notin> contract_key_of ` set handled"
  shows "materialized L reg rmap (handled @ [c]) st'"
proof -
  from assms(1) obtain c' where s: "sfold (apply_rule L reg c) (c, snd st) (multi_get rmap (c_version c))
      = Inr (c', snd st')" "fst st' = fst st @ [c']"
    by (auto simp: materialize_def result_simps)
  from apply_rules_ok [OF s(1) same_binding_refl assms(4,4,3)] obtain new where
    new: "same_binding c' c" "ops_ok L reg c'" "snd st' = snd st @ new"
      "list_all (variant_ok L reg) new"
      "map (\<lambda>v. (fst v, fst (snd v))) new =
       map (\<lambda>s. (contract_key_of c, s)) (rule_selectors (multi_get rmap (c_version c)))"
    by auto
  have sel: "map (\<lambda>v. fst (snd v)) (variants_for k new) =
      (if k = contract_key_of c then rule_selectors (multi_get rmap (c_version c)) else [])" for k
  proof -
    have "map (\<lambda>v. fst (snd v)) (variants_for k new) =
        map snd (filter (\<lambda>p. fst p = k) (map (\<lambda>v. (fst v, fst (snd v))) new))"
      by (simp add: variants_for_def filter_map comp_def)
    also have "\<dots> = (if k = contract_key_of c then rule_selectors (multi_get rmap (c_version c)) else [])"
      unfolding new(5) by (auto simp: filter_map comp_def)
    finally show ?thesis .
  qed
  have "map (\<lambda>v. fst (snd v)) (variants_for k (snd st')) =
      (if k \<in> contract_key_of ` set (handled @ [c]) then rule_selectors (multi_get rmap (fst k)) else [])" for k
  proof -
    have app: "map (\<lambda>v. fst (snd v)) (variants_for k (snd st')) =
        map (\<lambda>v. fst (snd v)) (variants_for k (snd st)) @ map (\<lambda>v. fst (snd v)) (variants_for k new)"
      by (simp add: new(3) variants_for_def)
    have old: "map (\<lambda>v. fst (snd v)) (variants_for k (snd st)) =
        (if k \<in> contract_key_of ` set handled then rule_selectors (multi_get rmap (fst k)) else [])"
      using assms(2) unfolding materialized_def by blast
    have "fst k = c_version c" if "k = contract_key_of c"
      using that by (simp add: contract_key_of_def)
    then show ?thesis
      unfolding app sel old using assms(5) by auto
  qed
  with assms(2) new s(2) show ?thesis
    by (auto simp: materialized_def list_all2_appendI)
qed

lemma materialize_all:
  assumes "sfold (materialize L reg rmap) st cs = Inr st'" and "materialized L reg rmap handled st"
    and "distinct (map contract_key_of (handled @ cs))"
    and "list_all (binding_ok reg) cs" "list_all (ops_ok L reg) cs"
  shows "materialized L reg rmap (handled @ cs) st'"
  using assms
proof (induction cs arbitrary: handled st)
  case (Cons c cs)
  then obtain st2 where s: "materialize L reg rmap st c = Inr st2"
    "sfold (materialize L reg rmap) st2 cs = Inr st'"
    by (auto simp: result_simps)
  have "materialized L reg rmap (handled @ [c]) st2"
    using s(1) Cons.prems(2) by (rule materialize_step) (use Cons.prems in auto)
  from Cons.IH [OF s(2) this] Cons.prems show ?case by simp
qed simp

section \<open>Loaded bundles\<close>

lemma bind_chain_ok:
  assumes "bind_chain bv c = Inr b"
  shows "contract.truncate b = c \<and> same_binding b c \<and>
    linked bv (c_route b) (c_method b) (contract.truncate b) (chain b) \<and> distinct (map c_version (chain b))"
proof -
  from assms obtain ch where ch: "walk_chain bv (c_route c) (c_method c) [] c = Inr ch"
    "b = contract.extend c (bound.fields ch)"
    by (auto simp: bind_chain_def result_simps)
  have b: "contract.truncate b = c" "same_binding b c" "chain b = ch" "c_route b = c_route c"
    "c_method b = c_method c"
    by (cases c; simp add: ch(2) contract.defs bound.defs same_binding_def)+
  then show ?thesis
    using ch(1) by (simp add: walk_chain_iff)
qed

lemma ops_ok_truncate: "ops_ok L reg (contract.truncate b) = ops_ok L reg b"
proof -
  have "error_ops_ok L reg (contract.truncate b) = error_ops_ok L reg b"
    by (rule ext) (simp add: error_ops_ok_def ErrorMessage_def contract.defs)
  then show ?thesis by (simp add: ops_ok_def) (simp add: contract.defs)
qed

lemma binding_ok_truncate: "binding_ok reg (contract.truncate b) = binding_ok reg b"
  by (simp add: binding_ok_def contract.defs)

lemma contract_key_truncate: "contract_key_of (contract.truncate b) = contract_key_of b"
  by (simp add: contract_key_of_def contract.defs)

text \<open>What holds of each contract a request can be dispatched to, canonical or variant.\<close>

definition bound_ok :: "('x, 'm) codecs \<Rightarrow> 'm contract_bundle \<Rightarrow> bound \<Rightarrow> bool" where
  "bound_ok L b c =
     (binding_ok (files b) c \<and> ops_ok L (files b) c \<and>
      linked (index_by_version (map contract.truncate (contracts b))) (c_route c) (c_method c)
        (contract.truncate c) (chain c) \<and>
      distinct (map c_version (chain c)))"

definition bundle_ok :: "('x, 'm) codecs \<Rightarrow> 'm contract_bundle \<Rightarrow> bool" where
  "bundle_ok L b =
     (distinct (map contract_key_of (contracts b)) \<and>
      by_version b = index_by_version (contracts b) \<and>
      list_all (bound_ok L b) (contracts b) \<and>
      (\<forall>k. sel.unambiguous (multi_get (selector_variants b) k) \<and>
           list_all (\<lambda>v. contract_key_of (snd v) = k \<and> bound_ok L b (snd v))
             (multi_get (selector_variants b) k)))"

lemma multi_get_variants:
  "multi_get (index_variants vs) k =
     map (\<lambda>((_, s, _), b). (s, b)) (filter (\<lambda>v. fst (fst v) = k) vs)"
  by (induction vs rule: rev_induct) (auto simp: index_variants_def)

lemma unambiguous_map_fst:
  "sel.unambiguous rs \<longleftrightarrow> sorted_wrt (\<lambda>a b. \<not> selectorOverlap a b) (map fst rs)"
  by (simp add: sel.unambiguous_def sorted_wrt_map)

lemma resolveChains_ok:
  assumes "resolveChains bv cs = Inr bs"
  shows "map contract.truncate bs = cs \<and>
    list_all (\<lambda>b. linked bv (c_route b) (c_method b) (contract.truncate b) (chain b)
                  \<and> distinct (map c_version (chain b))) bs"
  using assms unfolding resolveChains_def smap_eq_Inr_iff
  by (induction rule: list_all2_induct) (auto dest: bind_chain_ok)

lemma index_by_version_truncate_versions:
  "map contract.truncate bs = cs \<Longrightarrow> map contract_key_of bs = map contract_key_of cs"
  by (auto simp: contract_key_truncate)

lemma zip_filter_map:
  assumes "length vs = length bs"
  shows "map fst (map (\<lambda>((_, s, _), b). (s, b)) (filter (\<lambda>v. fst (fst v) = k) (zip vs bs)))
    = map (\<lambda>v. fst (snd v)) (filter (\<lambda>v. fst v = k) vs)"
  using assms by (induction vs bs rule: list_induct2) auto

lemma same_bindings:
  "list_all2 same_binding cs ds \<Longrightarrow>
   map contract_key_of cs = map contract_key_of ds \<and>
   list_all (binding_ok reg) cs = list_all (binding_ok reg) ds"
  by (induction rule: list_all2_induct)
    (auto dest: same_binding_key same_binding_ok [of _ _ reg])

lemma bound_okI:
  assumes "map contract.truncate (contracts b) = canonical"
    and "binding_ok (files b) (contract.truncate c)" "ops_ok L (files b) (contract.truncate c)"
    and "linked (index_by_version canonical) (c_route c) (c_method c) (contract.truncate c) (chain c) \<and>
      distinct (map c_version (chain c))"
  shows "bound_ok L b c"
  using assms(2-4) unfolding bound_ok_def assms(1) by (simp add: binding_ok_truncate ops_ok_truncate)

lemma variants_unambiguous:
  assumes "materialized L reg rmap cs (canonical, variants)" and "length variants = length vbounds"
    and "rules_ok (multi_get rmap (fst k))"
  shows "sel.unambiguous (multi_get (index_variants (zip variants vbounds)) k)"
proof -
  have "map (\<lambda>v. fst (snd v)) (variants_for k variants) =
      (if k \<in> contract_key_of ` set cs then rule_selectors (multi_get rmap (fst k)) else [])"
    using assms(1) unfolding materialized_def snd_conv by blast
  then show ?thesis
    using assms(3)
    by (auto simp: unambiguous_map_fst multi_get_variants zip_filter_map [OF assms(2)]
        variants_for_def rules_ok_def rule_selectors_def simp del: map_map)
qed

lemma resolve_bundle_ok:
  assumes "resolve_bundle L reg rmap cs = Inr b"
    and "distinct (map contract_key_of cs)" "list_all (binding_ok reg) cs" "list_all (ops_ok L reg) cs"
    and "\<And>cv. rules_ok (multi_get rmap cv)"
  shows "bundle_ok L b"
proof -
  from assms(1) obtain canonical variants bounds vbounds where
    m: "sfold (materialize L reg rmap) ([], []) cs = Inr (canonical, variants)"
    and bs: "resolveChains (index_by_version canonical) canonical = Inr bounds"
    and vbs: "resolveChains (index_by_version canonical) (map (\<lambda>v. snd (snd v)) variants) = Inr vbounds"
    and b: "b = \<lparr>contracts = bounds, by_version = index_by_version bounds,
                 selector_variants = index_variants (zip variants vbounds), files = reg\<rparr>"
    by (auto simp: resolve_bundle_def Let_def result_simps split: option.splits)
  have "materialized L reg rmap [] ([], [])" by (simp add: materialized_def variants_for_def)
  from materialize_all [OF m this] assms(2-4)
  have mat: "materialized L reg rmap cs (canonical, variants)" by simp
  have keys: "map contract_key_of canonical = map contract_key_of cs"
    and binds: "list_all (binding_ok reg) canonical"
    using same_bindings [of canonical cs reg] mat assms(3) by (auto simp: materialized_def)
  note bok = resolveChains_ok [OF bs] and vok = resolveChains_ok [OF vbs]
  have trunc: "map contract.truncate (contracts b) = canonical" using bok by (simp add: b)
  have canonical_ok: "bound_ok L b c" if "c \<in> set bounds" for c
  proof (rule bound_okI [OF trunc])
    have "contract.truncate c \<in> set canonical" using bok that by auto
    then show "binding_ok (files b) (contract.truncate c)" "ops_ok L (files b) (contract.truncate c)"
      using binds mat by (auto simp: b materialized_def list_all_iff)
  qed (use bok that in \<open>auto simp: list_all_iff\<close>)
  have len: "length variants = length vbounds"
    using arg_cong [OF conjunct1 [OF vok], of length] by simp
  have variant_ok: "contract_key_of v = k \<and> bound_ok L b v"
    if "((k, s, c), v) \<in> set (zip variants vbounds)" for k s c v
  proof -
    from that obtain i where i: "i < length variants" "variants ! i = (k, s, c)" "vbounds ! i = v"
      by (auto simp: set_zip)
    then have c: "contract.truncate v = c"
      using arg_cong [OF conjunct1 [OF vok], of "\<lambda>l. l ! i"] len by simp
    have v: "variant_ok L reg (k, s, c)"
      using mat that by (auto simp: materialized_def list_all_iff dest: set_zip_leftD)
    have "bound_ok L b v"
      by (rule bound_okI [OF trunc])
        (use c v vok that in \<open>auto simp: b variant_ok_def list_all_iff dest: set_zip_rightD\<close>)
    then show ?thesis using c v by (auto simp: variant_ok_def contract_key_truncate)
  qed
  have "sel.unambiguous (multi_get (selector_variants b) k)" for k
    using variants_unambiguous [OF mat len assms(5)] by (simp add: b)
  moreover have "list_all (\<lambda>v. contract_key_of (snd v) = k \<and> bound_ok L b (snd v))
      (multi_get (selector_variants b) k)" for k
    using variant_ok by (force simp: b multi_get_variants list_all_iff)
  moreover have "map contract_key_of (contracts b) = map contract_key_of cs"
    using index_by_version_truncate_versions [OF trunc] keys by simp
  ultimately show ?thesis
    unfolding bundle_ok_def using assms(2) canonical_ok by (auto simp: b list_all_iff)
qed

lemma validated_ops_ok: "binding_ok reg c \<Longrightarrow>
   request_ops c = [] \<and> response_ops c = [] \<and> error_response_ops c = [] \<Longrightarrow> ops_ok L reg c"
  by (auto simp: binding_ok_def ops_ok_def resolvable_def)

lemma add_contract_ops:
  assumes "add_contract reg cs yc = Inr cs'"
    and "list_all (\<lambda>c. request_ops c = [] \<and> response_ops c = [] \<and> error_response_ops c = []) cs"
  shows "list_all (\<lambda>c. request_ops c = [] \<and> response_ops c = [] \<and> error_response_ops c = []) cs'"
  using assms by (auto simp: add_contract_def result_simps split: if_splits dest!: validateContract_ok)

lemma Load_ok:
  fixes L :: "('x, 'm) codecs"
  assumes "Load L dir root = Inr b"
  shows "bundle_ok L b"
proof -
  from assms obtain rmap reg cs and loaded :: "'x layer list" where
    r: "loadResolution L root = Inr rmap" and l: "sfold (add_layer reg) [] loaded = Inr cs"
    and b: "resolve_bundle L reg rmap cs = Inr b"
    by (auto simp: Load_def result_simps)
  from l have c: "distinct (map contract_key_of cs) \<and> list_all (binding_ok reg) cs"
    by (rule sfold_invariant) (auto dest: add_layer_ok)
  let ?fresh = "\<lambda>c. request_ops c = [] \<and> response_ops c = [] \<and> error_response_ops c = []"
  from l have "list_all ?fresh cs"
  proof (rule sfold_invariant)
    fix s l s'
    assume "add_layer reg s l = Inr s'" "list_all ?fresh s"
    then show "list_all ?fresh s'"
      unfolding add_layer_def by (auto split: if_splits elim!: sfold_invariant dest: add_contract_ops)
  qed simp
  with c have "list_all (ops_ok L reg) cs"
    by (auto simp: list_all_iff intro: validated_ops_ok)
  with b c loadResolution_ok [OF r] show ?thesis
    by (intro resolve_bundle_ok [OF b]) auto
qed

end
