(* ===== verification/Bundle_Properties.thy ===== *)
theory Bundle_Properties
  imports Bundle_Facts
begin

text \<open>
  The properties of \<open>internal/bundle\<close>: what a bundle that loads guarantees to the request path,
  with a small two-version bundle on which each of them is exercised.
\<close>

section \<open>Lookup in a loaded bundle\<close>

lemma unique_key:
  assumes "distinct (map contract_key_of cs)" and "c \<in> set cs" "d \<in> set cs"
    and "contract_key_of c = contract_key_of d"
  shows "c = d"
  using assms by (metis distinct_map inj_onD)

lemma find_binds:
  assumes "distinct (map contract_key_of cs)"
  shows "find (binds path meth) (filter (\<lambda>c. c_version c = v) cs) = Some c \<longleftrightarrow>
    c \<in> set cs \<and> contract_key_of c = (v, path, meth)"
    (is "find ?P ?cs = _ \<longleftrightarrow> ?in c")
proof
  assume "find ?P ?cs = Some c"
  then show "?in c" by (auto dest!: find_Some_D simp: binds_def contract_key_of_def)
next
  assume c: "?in c"
  then have "find ?P ?cs \<noteq> None"
    by (auto simp: find_None_iff binds_def contract_key_of_def)
  then obtain d where d: "find ?P ?cs = Some d" by auto
  then have "?in d" by (auto dest!: find_Some_D simp: binds_def contract_key_of_def)
  with c d show "find ?P ?cs = Some c" using unique_key [OF assms, of d c] by simp
qed

lemma Lookup_index:
  assumes "bundle_ok L b"
  shows "Lookup b path meth v sels =
    (case find (binds path meth) (filter (\<lambda>c. c_version c = v) (contracts b)) of
       None \<Rightarrow> None
     | Some c \<Rightarrow>
         (case find (\<lambda>x. selectorMatches (fst x) (case sels of [] \<Rightarrow> no_selectors | s # _ \<Rightarrow> s))
             (multi_get (selector_variants b) (v, path, meth)) of
            Some x \<Rightarrow> Some (snd x) | None \<Rightarrow> Some c))"
proof (cases "\<exists>c \<in> set (contracts b). c_version c = v")
  case True
  with assms show ?thesis
    unfolding Lookup_def by (auto simp: bundle_ok_def map_of_index Let_def)
next
  case False
  then have "filter (\<lambda>c. c_version c = v) (contracts b) = []" by (auto simp: filter_empty_conv)
  with False assms show ?thesis
    unfolding Lookup_def by (auto simp: bundle_ok_def map_of_index)
qed

lemma Lookup_bound_ok:
  assumes "bundle_ok L b" and "Lookup b path meth v sels = Some c"
  shows "bound_ok L b c \<and> contract_key_of c = (v, path, meth)"
  using assms(2)
proof (cases rule: Lookup_cases)
  case (canonical cs)
  then show ?thesis
    using assms(1)
    by (auto simp: bundle_ok_def map_of_index list_all_iff binds_def contract_key_of_def split: if_splits)
next
  case (variant sel)
  then show ?thesis using assms(1) by (force simp: bundle_ok_def list_all_iff)
qed

lemma linked_steps:
  assumes "linked (index_by_version cs) route meth c ch"
  shows "successively (\<lambda>x y. c_version y = transform_target x) ch \<and>
    list_all (\<lambda>x. x \<in> set cs \<and> binds route meth x) (tl ch)"
  using assms
proof (induction rule: linked.induct)
  case (Link c ds c' ch)
  then have c': "c' \<in> set cs" "c_version c' = transform_target c" "binds route meth c'"
    by (auto simp: map_of_index dest!: find_Some_D split: if_splits)
  from linked_hd [OF Link(4)] obtain rest where "ch = c' # rest" by (cases ch) auto
  with Link c' show ?case by simp
qed simp

section \<open>Properties\<close>

text \<open>C3. Every contract of a bundle that loads is well formed: no two share version, route and
  method; each names a route that begins with a slash, an allowed method, resolvable messages and
  only error statuses that are neither 2xx nor capability ceilings; and every transform operation
  on it was checked against the messages it binds.\<close>

theorem Load_contracts:
  assumes "Load L dir root = Inr b"
  shows "distinct (map contract_key_of (contracts b)) \<and>
    list_all (\<lambda>c. binding_ok (files b) c \<and> ops_ok L (files b) c) (contracts b)"
  using Load_ok [OF assms] by (auto simp: bundle_ok_def bound_ok_def list_all_iff)

text \<open>C1. Dispatch in a loaded bundle is a function of the request: a lookup finds a contract
  exactly when the version binds the route and method, and then it is the one selector variant
  that matches the request, or, when none does, the one canonical contract.  No order of the rules
  in \<open>resolution.yaml\<close> matters.\<close>

theorem Lookup_exact:
  assumes "Load L dir root = Inr b"
  shows "Lookup b path meth v [s] = Some c \<longleftrightarrow>
    (\<exists>d \<in> set (contracts b). contract_key_of d = (v, path, meth)) \<and>
    ((\<exists>r. (r, c) \<in> set (multi_get (selector_variants b) (v, path, meth)) \<and> selectorMatches r s) \<or>
     (c \<in> set (contracts b) \<and> contract_key_of c = (v, path, meth) \<and>
      \<not> (\<exists>x \<in> set (multi_get (selector_variants b) (v, path, meth)). selectorMatches (fst x) s)))"
proof -
  let ?vs = "multi_get (selector_variants b) (v, path, meth)"
  let ?find = "find (\<lambda>x. selectorMatches (fst x) s) ?vs"
  have ok: "bundle_ok L b" using assms by (rule Load_ok)
  then have un: "sel.unambiguous ?vs" and d: "distinct (map contract_key_of (contracts b))"
    by (auto simp: bundle_ok_def)
  show ?thesis
  proof (cases "find (binds path meth) (filter (\<lambda>c. c_version c = v) (contracts b))")
    case None
    then have "\<not> (\<exists>d \<in> set (contracts b). contract_key_of d = (v, path, meth))"
      by (auto simp: find_None_iff binds_def contract_key_of_def)
    with None show ?thesis by (simp add: Lookup_index [OF ok])
  next
    case (Some d0)
    note d0 = Some [unfolded find_binds [OF d]]
    show ?thesis
    proof (cases ?find)
      case None
      then have "\<not> (\<exists>x \<in> set ?vs. selectorMatches (fst x) s)" by (auto simp: find_None_iff)
      with None Some d0 unique_key [OF d, of d0 c] show ?thesis
        by (auto simp: Lookup_index [OF ok])
    next
      case (Some x)
      then have x: "x \<in> set ?vs \<and> selectorMatches (fst x) s" by (simp add: sel.find_iff [OF un])
      have "(r, c) = x" if "(r, c) \<in> set ?vs" "selectorMatches r s" for r
        using sel.only_match [OF un that(1)] x that(2) by auto
      with Some \<open>find (binds path meth) _ = Some d0\<close> d0 x show ?thesis
        by (cases x) (auto simp: Lookup_index [OF ok])
    qed
  qed
qed

text \<open>C2. The transform chain of every contract a lookup returns starts at that contract, goes on
  at the same route and method with the contract of the version its predecessor targets, visits
  no version twice (so the runtime's walk over it is bounded by the number of versions), and ends
  at a contract with no target.\<close>

theorem Load_chain:
  assumes "Load L dir root = Inr b" and "Lookup b path meth v sels = Some c"
  shows "chain c \<noteq> [] \<and> hd (chain c) = contract.truncate c \<and>
    transform_target (last (chain c)) = '''' \<and>
    successively (\<lambda>x y. c_version y = transform_target x) (chain c) \<and>
    list_all (\<lambda>x. x \<in> set (map contract.truncate (contracts b)) \<and> binds path meth x) (tl (chain c)) \<and>
    distinct (map c_version (chain c)) \<and>
    length (chain c) \<le> Suc (length (Versions b))"
proof -
  have ok: "bundle_ok L b" using assms(1) by (rule Load_ok)
  let ?cs = "map contract.truncate (contracts b)"
  from Lookup_bound_ok [OF ok assms(2)] have
    l: "linked (index_by_version ?cs) path meth (contract.truncate c) (chain c)"
    and dist: "distinct (map c_version (chain c))"
    by (auto simp: bound_ok_def contract_key_of_def)
  note steps = linked_steps [OF l]
  have versions: "set (Versions b) = c_version ` set (contracts b)"
    using ok keys_index [of "contracts b"] by (simp add: Versions_def bundle_ok_def)
  have "set (map c_version (tl (chain c))) \<subseteq> set (Versions b)"
    using steps by (auto simp: versions list_all_iff contract.defs)
  then have "card (set (map c_version (tl (chain c)))) \<le> card (set (Versions b))"
    by (intro card_mono) auto
  moreover have "distinct (map c_version (tl (chain c)))"
    using dist by (simp only: map_tl distinct_tl)
  ultimately have "length (tl (chain c)) \<le> card (set (Versions b))"
    by (simp only: distinct_card length_map)
  then have "length (tl (chain c)) \<le> length (Versions b)"
    using card_length [of "Versions b"] by (rule le_trans)
  with l dist steps show ?thesis by (auto dest: linked_hd linked_last)
qed

text \<open>C4. The route gate and the version negotiation agree: the proxy's first test lets a path and
  method pass exactly when some version of the bundle binds them.\<close>

theorem route_gate_agrees:
  assumes "Load L dir root = Inr b"
  shows "(\<exists>c. LookupRoute b path meth = Some c) \<longleftrightarrow> (\<exists>v c. Lookup b path meth v sels = Some c)"
proof -
  have ok: "bundle_ok L b" using assms by (rule Load_ok)
  have "(\<exists>c. LookupRoute b path meth = Some c) \<longleftrightarrow> (\<exists>c \<in> set (contracts b). binds path meth c)"
    using find_None_iff [of "binds path meth" "contracts b"] by (auto simp: LookupRoute_def)
  moreover have "(\<exists>v c. Lookup b path meth v sels = Some c) \<longleftrightarrow> (\<exists>c \<in> set (contracts b). binds path meth c)"
  proof
    assume "\<exists>v c. Lookup b path meth v sels = Some c"
    then obtain v c where "Lookup b path meth v sels = Some c" by blast
    then show "\<exists>c \<in> set (contracts b). binds path meth c"
      by (auto simp: Lookup_index [OF ok] split: option.splits dest!: find_Some_D)
  next
    assume "\<exists>c \<in> set (contracts b). binds path meth c"
    then obtain c where c: "c \<in> set (contracts b)" "binds path meth c" by blast
    then have "find (binds path meth) (filter (\<lambda>d. c_version d = c_version c) (contracts b)) \<noteq> None"
      by (auto simp: find_None_iff)
    then have "\<exists>d. Lookup b path meth (c_version c) sels = Some d"
      by (auto simp: Lookup_index [OF ok] split: option.splits)
    then show "\<exists>v c. Lookup b path meth v sels = Some c" by blast
  qed
  ultimately show ?thesis by simp
qed

text \<open>A chain of \<open>transform.target\<close> links resolves exactly when following them ends at a
  contract without a target before any version repeats; an unknown version, a version that does
  not bind the route, and a cycle are typed errors on \<open>transform.target\<close>.\<close>

theorem walk_chain_exact:
  "(walk_chain bv route meth [] c = Inr ch \<longleftrightarrow>
      linked bv route meth c ch \<and> distinct (map c_version ch)) \<and>
   (walk_chain bv route meth [] c = Inl e \<longrightarrow> (\<exists>cv why. e = ValidationError cv ''transform.target'' why))"
  using walk_chain_iff [of bv route meth "[]" c ch] walk_chain_error [of bv route meth "[]" c e] by auto

text \<open>No operation of a loaded bundle can make the transform runtime panic or fail with
  anything but \<open>transform_failed\<close>.\<close>

theorem loaded_ops_fail_cleanly:
  assumes "Load L dir root = Inr b" and "Lookup b path meth v sels = Some c"
    and "apply_body lib (request_ops c) body True = Inl e \<or>
         apply_body lib (response_ops c) body False = Inl e \<or>
         apply_body lib (ErrorResponseOps c status) body False = Inl e"
  shows "\<exists>reason. e = fail_as True reason \<or> e = fail_as False reason"
proof -
  from Lookup_bound_ok [OF Load_ok [OF assms(1)] assms(2)] have ok: "ops_ok L (files b) c"
    by (simp add: bound_ok_def)
  have "list_all op_wf ops" if "map_of (error_response_ops c) status = Some ops" for ops
    using map_of_SomeD [OF that] ok
    by (force simp: ops_ok_def error_ops_ok_def list_all_iff dest: op_valid_wf)
  then have "list_all op_wf (ErrorResponseOps c status)"
    by (cases "map_of (error_response_ops c) status") (auto simp: ErrorResponseOps_def)
  moreover have "list_all op_wf (request_ops c)" "list_all op_wf (response_ops c)"
    using ok by (auto simp: ops_ok_def list_all_iff dest: op_valid_wf)
  ultimately have "list_all op_wf (request_ops c)" "list_all op_wf (response_ops c)"
    "list_all op_wf (ErrorResponseOps c status)" by blast+
  then show ?thesis
    using assms(3) apply_body_fails by blast
qed

section \<open>A bundle of two versions\<close>

text \<open>Versions v1 and v2 of one route.  A v1 request renames \<open>items[].sku\<close> and goes on as v2;
  requests of tenant acme go to another upstream instead.\<close>

definition demo_contract :: "string \<Rightarrow> yaml_contract" where
  "demo_contract v = \<lparr>yk_version = v, yk_route = ''/orders'', yk_method = ''post'',
     yk_request = ''Order'', yk_response = ''Order'', yk_errors = [(''404'', ''Item'')], yk_strict = False\<rparr>"

definition demo_rules :: "yaml_resolution list" where
  "demo_rules =
     [\<lparr>yr_version = ''v1'', yr_profile = None, yr_tenant = None, yr_cohort = None,
       yr_transform = Some
         \<lparr>yt_request = [no_verb\<lparr>y_rename := Some \<lparr>yr_from = ''items[].sku'', yr_to = ''items[].code''\<rparr>\<rparr>],
          yt_response = [], yt_errors = [(''404'', [no_verb\<lparr>y_optionalize := Some ''note''\<rparr>])],
          yt_target = ''v2''\<rparr>,
       yr_route = None\<rparr>,
      \<lparr>yr_version = '' v1'', yr_profile = None, yr_tenant = Some (Inr ''acme''), yr_cohort = None,
       yr_transform = None, yr_route = Some ''http://blue''\<rparr>]"

definition demo_codecs :: "(unit, string) codecs" where
  "demo_codecs =
     \<lparr>decode_versions = \<lambda>s. Inr \<lparr>yb_version = 1, yb_contracts = [demo_contract s]\<rparr>,
      decode_resolution = \<lambda>s. Inr \<lparr>yf_version = 1, yf_overrides = demo_rules\<rparr>,
      unmarshal_fds = \<lambda>s. Inr [\<lparr>fdp_name = s, fdp_package = ''gen.'' @ s, fdp_content = ()\<rparr>],
      marshal_fd = \<lambda>f. Inr (fdp_name f),
      new_files = \<lambda>fs. Inr (\<lambda>n. if n \<in> {''Order'', ''Item''} then Some (MessageDescriptor n) else None),
      reflect = order_messages,
      text_codec = no_text\<lparr>json_unmarshal := \<lambda>s. Some (JObj fmempty)\<rparr>\<rparr>"

definition demo_layer :: "string \<Rightarrow> node" where
  "demo_layer v = DirNode [(''descriptors.binpb'', FileNode (v @ ''.proto'')),
     (''openapi.json'', FileNode ''{}''), (''versions.yaml'', FileNode v)]"

definition demo_root :: "node option" where
  "demo_root = Some (DirNode [(''v2'', demo_layer ''v2''), (''v1'', demo_layer ''v1''),
                              (''resolution.yaml'', FileNode ''rules'')])"

definition demo_bundle :: "string contract_bundle" where
  "demo_bundle = projr (Load demo_codecs ''/bundle'' demo_root)"

lemma demo_is_Inr: "\<not> isl (Load demo_codecs ''/bundle'' demo_root)"
  by code_simp

lemma demo_loads: "Load demo_codecs ''/bundle'' demo_root = Inr demo_bundle"
  using demo_is_Inr by (cases "Load demo_codecs ''/bundle'' demo_root") (auto simp: demo_bundle_def)

text \<open>The loaded bundle written out, for evaluation.\<close>

definition demo_link :: "string \<Rightarrow> op list \<Rightarrow> string \<Rightarrow> string \<Rightarrow> (int \<times> op list) list \<Rightarrow> contract" where
  "demo_link v ops base next_version err_ops =
     \<lparr>c_version = v, c_route = ''/orders'', c_method = ''POST'', request_message = ''Order'',
      response_message = ''Order'', request_ops = ops, response_ops = [], target = base,
      transform_target = next_version, error_messages = [(404, ''Item'')], error_response_ops = err_ops,
      strict = False\<rparr>"

definition demo_bound :: "contract list \<Rightarrow> bound" where
  "demo_bound links = contract.extend (hd links) (bound.fields links)"

definition demo_v2 :: contract where
  "demo_v2 = demo_link ''v2'' [] '''' '''' []"

definition demo_v1 :: contract where
  "demo_v1 = demo_link ''v1'' [Rename [each ''items'', fld ''sku''] [each ''items'', fld ''code'']] '''' ''v2''
     [(404, [Optionalize [fld ''note'']])]"

definition demo_files :: "string registry" where
  "demo_files = files demo_bundle"

lemma demo_files_eval: "demo_files n = (if n = ''Order'' \<or> n = ''Item'' then Some (MessageDescriptor n) else None)"
proof -
  have "files demo_bundle n = (if ''Order'' = n \<or> n \<in> {''Item''} then Some (MessageDescriptor n) else None)"
    by code_simp
  then show ?thesis by (auto simp: demo_files_def)
qed

lemma demo_parts:
  "(contracts demo_bundle, by_version demo_bundle, selector_variants demo_bundle) =
     ([demo_bound [demo_v1, demo_v2], demo_bound [demo_v2]],
      [(''v1'', [demo_bound [demo_v1, demo_v2]]), (''v2'', [demo_bound [demo_v2]])],
      [((''v1'', ''/orders'', ''POST''),
        [(\<lparr>profile = '''', tenant = ''acme'', cohort = ''''\<rparr>, demo_bound [demo_link ''v1'' [] ''http://blue'' '''' []])])])"
  by code_simp

lemma demo_bundle_eval:
  "demo_bundle = \<lparr>contracts = [demo_bound [demo_v1, demo_v2], demo_bound [demo_v2]],
     by_version = [(''v1'', [demo_bound [demo_v1, demo_v2]]), (''v2'', [demo_bound [demo_v2]])],
     selector_variants = [((''v1'', ''/orders'', ''POST''),
        [(\<lparr>profile = '''', tenant = ''acme'', cohort = ''''\<rparr>, demo_bound [demo_link ''v1'' [] ''http://blue'' '''' []])])],
     files = demo_files\<rparr>"
  using demo_parts by (simp add: demo_files_def contract_bundle.equality)

declare demo_files_eval [code] demo_bundle_eval [code]

definition acme :: selectors where
  "acme = \<lparr>profile = '''', tenant = ''acme'', cohort = ''''\<rparr>"

lemma demo_lookup: "Lookup demo_bundle ''/orders'' ''POST'' ''v1'' [no_selectors]
    = Some (the (Lookup demo_bundle ''/orders'' ''POST'' ''v1'' [no_selectors]))"
proof -
  have "Option.is_none (Lookup demo_bundle ''/orders'' ''POST'' ''v1'' [no_selectors]) = False"
    by code_simp
  then show ?thesis
    by (cases "Lookup demo_bundle ''/orders'' ''POST'' ''v1'' [no_selectors]") auto
qed

lemma demo_lookup_acme: "map_option target (Lookup demo_bundle ''/orders'' ''POST'' ''v1'' [acme])
    = Some ''http://blue''"
  by code_simp

lemma demo_ops: "request_ops (the (Lookup demo_bundle ''/orders'' ''POST'' ''v1'' [no_selectors])) =
    [Rename [each ''items'', fld ''sku''] [each ''items'', fld ''code'']]"
  by code_simp

theorem Load_contracts_witness:
  "distinct (map contract_key_of (contracts demo_bundle))"
  using Load_contracts [OF demo_loads] by simp

theorem Lookup_exact_witness:
  "list_ex (\<lambda>d. contract_key_of d = (''v1'', ''/orders'', ''POST'')) (contracts demo_bundle) \<and>
   map_option target (Lookup demo_bundle ''/orders'' ''POST'' ''v1'' [acme]) = Some ''http://blue''"
proof -
  from demo_lookup_acme obtain c where "Lookup demo_bundle ''/orders'' ''POST'' ''v1'' [acme] = Some c"
    by auto
  with Lookup_exact [OF demo_loads] demo_lookup_acme show ?thesis by (auto simp: list_ex_iff)
qed

theorem Load_chain_witness:
  "distinct (map c_version (chain (the (Lookup demo_bundle ''/orders'' ''POST'' ''v1'' [no_selectors]))))"
  using Load_chain [OF demo_loads demo_lookup] by simp

theorem route_gate_agrees_witness:
  "\<exists>c. LookupRoute demo_bundle ''/orders'' ''POST'' = Some c"
  unfolding route_gate_agrees [OF demo_loads, where sels = "[no_selectors]"]
  using demo_lookup by blast

definition self_target :: contract where
  "self_target = (projr (validateContract (demo_contract ''v1'')))\<lparr>transform_target := ''v1''\<rparr>"

lemma self_target_cycles:
  "walk_chain (index_by_version [self_target]) ''/orders'' ''POST'' [] self_target =
     Inl (ValidationError ''v1'' ''transform.target'' ''transform chain cycles'')"
  by code_simp

theorem walk_chain_exact_witness:
  "(\<exists>cv why. projl (walk_chain (index_by_version [self_target]) ''/orders'' ''POST'' [] self_target) =
     ValidationError cv ''transform.target'' why) \<and>
   (\<nexists>ch. linked (index_by_version [self_target]) ''/orders'' ''POST'' self_target ch \<and>
         distinct (map c_version ch))"
  using walk_chain_exact [of "index_by_version [self_target]" "''/orders''" "''POST''" self_target]
    self_target_cycles by simp

theorem loaded_ops_fail_cleanly_witness:
  "\<exists>e reason. apply_body (text_codec demo_codecs)
      (request_ops (the (Lookup demo_bundle ''/orders'' ''POST'' ''v1'' [no_selectors]))) ''{}'' True = Inl e \<and>
     (e = fail_as True reason \<or> e = fail_as False reason)"
proof -
  obtain e where e: "apply_body (text_codec demo_codecs)
      (request_ops (the (Lookup demo_bundle ''/orders'' ''POST'' ''v1'' [no_selectors]))) ''{}'' True = Inl e"
    unfolding demo_ops
    by (auto simp: apply_body_def apply_ops_def demo_codecs_def walkLeaves.simps(3) coversByName_def)
  with loaded_ops_fail_cleanly [OF demo_loads demo_lookup disjI1 [OF e]] show ?thesis by blast
qed

end
