(* ===== verification/Negotiate.thy ===== *)
theory Negotiate
  imports Bundle_Properties
begin

text \<open>
  \<open>internal/negotiate/negotiate.go\<close>: the contract a request names by its path, method and
  contract-version header.
\<close>

definition Resolve ::
  "'m contract_bundle \<Rightarrow> string \<Rightarrow> string \<Rightarrow> string \<Rightarrow> selectors list \<Rightarrow> werror + bound" where
  "Resolve b path meth headerValue sels =
     (let v = trim_space headerValue in
        if v = '''' then Inl (UnsupportedContractVersion ''missing contract-version header'')
        else
          (case Lookup b path meth v sels of
             Some c \<Rightarrow> Inr c
           | None \<Rightarrow>
               (case Contract b v of
                  None \<Rightarrow> Inl (UnsupportedContractVersion
                                 (''contract version '' @ v @ '' is not in the bundle''))
                | Some _ \<Rightarrow> Inl (UnsupportedContractVersion
                                 (''contract version '' @ v @ '' does not bind '' @ meth @ '' '' @ path)))))"

lemma Resolve_Inr:
  "Resolve b path meth h sels = Inr c \<longleftrightarrow>
     trim_space h \<noteq> '''' \<and> Lookup b path meth (trim_space h) sels = Some c"
  by (auto simp: Resolve_def Let_def split: option.splits)

lemma Resolve_Inl:
  "Resolve b path meth h sels = Inl e \<Longrightarrow> \<exists>m. m \<noteq> '''' \<and> e = UnsupportedContractVersion m"
  by (auto simp: Resolve_def Let_def split: option.splits if_splits)

text \<open>C10. Negotiation never guesses: it returns the contract of exactly the version the client
  wrote, or the 400 \<open>unsupported_contract_version\<close>, and which of its three texts depends on
  whether the header is blank, the version is unknown, or the version does not bind the route.\<close>

theorem Resolve_outcomes:
  assumes "Load L dir root = Inr b"
  shows "case Resolve b path meth h [s] of
      Inr c \<Rightarrow> contract_key_of c = (trim_space h, path, meth)
    | Inl e \<Rightarrow>
        we_code e = codeUnsupportedContractVersion \<and> we_status e = 400 \<and>
        \<not> (\<exists>c \<in> set (contracts b). contract_key_of c = (trim_space h, path, meth)) \<and>
        (we_message e = ''missing contract-version header'' \<longleftrightarrow> trim_space h = '''') \<and>
        (trim_space h \<noteq> '''' \<longrightarrow>
          we_message e =
            (if trim_space h \<in> set (Versions b)
             then ''contract version '' @ trim_space h @ '' does not bind '' @ meth @ '' '' @ path
             else ''contract version '' @ trim_space h @ '' is not in the bundle''))"
proof -
  have ok: "bundle_ok L b" using assms by (rule Load_ok)
  let ?v = "trim_space h"
  have versions: "set (Versions b) = c_version ` set (contracts b)"
    using ok keys_index [of "contracts b"] by (simp add: Versions_def bundle_ok_def)
  have known: "Contract b ?v = None \<longleftrightarrow> ?v \<notin> set (Versions b)"
  proof (cases "\<exists>c \<in> set (contracts b). c_version c = ?v")
    case True
    then obtain c cs where "filter (\<lambda>c. c_version c = ?v) (contracts b) = c # cs"
      by (cases "filter (\<lambda>c. c_version c = ?v) (contracts b)") (auto simp: filter_empty_conv)
    moreover have "?v \<in> set (Versions b)" using True versions by force
    moreover have "by_version b = index_by_version (contracts b)" using ok by (simp add: bundle_ok_def)
    ultimately show ?thesis using True by (simp add: Contract_def map_of_index)
  next
    case False
    with ok show ?thesis by (auto simp: Contract_def bundle_ok_def map_of_index versions)
  qed
  have nonblank: "\<not> (\<exists>c \<in> set (contracts b). contract_key_of c = ('''', path, meth))"
    using ok by (auto simp: bundle_ok_def bound_ok_def binding_ok_def list_all_iff contract_key_of_def)
  have miss: "\<not> (\<exists>c \<in> set (contracts b). contract_key_of c = (?v, path, meth))"
    if "Lookup b path meth ?v [s] = None"
    using that
    by (auto simp: Lookup_index [OF ok] find_None_iff binds_def contract_key_of_def split: option.splits)
  show ?thesis
  proof (cases "Resolve b path meth h [s]")
    case (Inr c)
    then have "Lookup b path meth ?v [s] = Some c" by (simp add: Resolve_Inr)
    with Inr Lookup_bound_ok [OF ok this] show ?thesis by simp
  next
    case (Inl e)
    show ?thesis
    proof (cases "?v = ''''")
      case True
      with Inl nonblank show ?thesis by (auto simp: Resolve_def werror_ctor_defs msgOr_def)
    next
      case False
      with Inl have l: "Lookup b path meth ?v [s] = None"
        by (auto simp: Resolve_def Let_def split: option.splits)
      from miss [OF l] known False Inl l show ?thesis
        by (cases "Contract b ?v")
          (auto simp: Resolve_def Let_def werror_ctor_defs msgOr_def)
    qed
  qed
qed

theorem Resolve_outcomes_witness:
  "we_status (projl (Resolve demo_bundle ''/orders'' ''POST'' ''v3'' [acme])) = 400"
proof -
  have "isl (Resolve demo_bundle ''/orders'' ''POST'' ''v3'' [acme])" by code_simp
  with Resolve_outcomes [OF demo_loads, of "''v3''" "''/orders''" "''POST''" acme]
  show ?thesis by (cases "Resolve demo_bundle ''/orders'' ''POST'' ''v3'' [acme]") auto
qed

end
