(* ===== verification/Adapter.thy ===== *)
theory Adapter
  imports Bundle_Properties
begin

text \<open>
  \<open>internal/adapter/adapter.go\<close>: protobuf requests become JSON upstream calls, JSON replies become
  protobuf responses.  The protobuf library (dynamic messages, \<open>proto\<close> and \<open>protojson\<close>) is the
  record \<open>protocodec\<close>, over its types of message descriptors and of dynamic messages; a
  \<open>MessageResolver\<close> is a lookup function.
\<close>

record ('m, 'd) protocodec =
  field_count :: "'m \<Rightarrow> nat"
  proto_unmarshal :: "'m \<Rightarrow> string \<Rightarrow> 'd option"
  protojson_marshal :: "'d \<Rightarrow> string option"
  protojson_unmarshal :: "'m \<Rightarrow> string \<Rightarrow> 'd option"
  proto_marshal :: "'d \<Rightarrow> string option"

type_synonym 'm resolver = "string \<Rightarrow> 'm option"

record upstream_call =
  uc_method :: string
  uc_path :: string
  uc_query :: string
  uc_body :: string
  uc_content_type :: string

definition DecodeRequest ::
  "('m, 'd) protocodec \<Rightarrow> 'm resolver \<Rightarrow> 'a contract_scheme \<Rightarrow> string \<Rightarrow> werror + upstream_call" where
  "DecodeRequest P resolve b bs =
     (case resolve (request_message b) of
        None \<Rightarrow> Inl (DecodeFailed (''request_message '' @ request_message b @ '' is not resolvable''))
      | Some md \<Rightarrow>
          if field_count P md = 0 then
            Inr \<lparr>uc_method = c_method b, uc_path = c_route b, uc_query = '''', uc_body = '''',
                 uc_content_type = ''''\<rparr>
          else
            (case proto_unmarshal P md bs of
               None \<Rightarrow> Inl (DecodeFailed (''request body is not valid protobuf for '' @ request_message b))
             | Some msg \<Rightarrow>
                 (case protojson_marshal P msg of
                    None \<Rightarrow> Inl (DecodeFailed ''could not re-encode request as JSON'')
                  | Some j \<Rightarrow>
                      Inr \<lparr>uc_method = c_method b, uc_path = c_route b, uc_query = '''', uc_body = j,
                           uc_content_type = ''application/json''\<rparr>)))"

definition encodeMessage ::
  "('m, 'd) protocodec \<Rightarrow> 'm resolver \<Rightarrow> string \<Rightarrow> string \<Rightarrow> werror + string \<times> string" where
  "encodeMessage P resolve name upstreamJSON =
     (case resolve name of
        None \<Rightarrow> Inl (UpstreamError (''message '' @ name @ '' is not resolvable''))
      | Some md \<Rightarrow>
          if field_count P md = 0 then Inr ('''', ''application/protobuf'')
          else
            (case protojson_unmarshal P md upstreamJSON of
               None \<Rightarrow> Inl (UpstreamError (''upstream body did not match '' @ name))
             | Some msg \<Rightarrow>
                 (case proto_marshal P msg of
                    None \<Rightarrow> Inl (UpstreamError ''could not encode upstream response'')
                  | Some out \<Rightarrow> Inr (out, ''application/protobuf''))))"

definition EncodeResponse ::
  "('m, 'd) protocodec \<Rightarrow> 'm resolver \<Rightarrow> 'a contract_scheme \<Rightarrow> string \<Rightarrow> werror + string \<times> string" where
  "EncodeResponse P resolve b upstreamJSON = encodeMessage P resolve (response_message b) upstreamJSON"

definition EncodeError ::
  "('m, 'd) protocodec \<Rightarrow> 'm resolver \<Rightarrow> 'a contract_scheme \<Rightarrow> int \<Rightarrow> string \<Rightarrow> werror + string \<times> string" where
  "EncodeError P resolve b status upstreamJSON =
     (case ErrorMessage b status of
        None \<Rightarrow> Inl (UpstreamError (''no declared error message for status '' @ itoa status))
      | Some name \<Rightarrow> encodeMessage P resolve name upstreamJSON)"

lemma DecodeRequest_Inl: "DecodeRequest P resolve b bs = Inl e \<Longrightarrow> \<exists>m. e = DecodeFailed m"
  by (auto simp: DecodeRequest_def split: option.splits if_splits)

lemma encodeMessage_Inl: "encodeMessage P resolve name j = Inl e \<Longrightarrow> \<exists>m. e = UpstreamError m"
  by (auto simp: encodeMessage_def split: option.splits if_splits)

lemma EncodeResponse_Inl: "EncodeResponse P resolve b j = Inl e \<Longrightarrow> \<exists>m. e = UpstreamError m"
  by (auto simp: EncodeResponse_def dest: encodeMessage_Inl)

lemma EncodeError_Inl: "EncodeError P resolve b s j = Inl e \<Longrightarrow> \<exists>m. e = UpstreamError m"
  by (auto simp: EncodeError_def dest: encodeMessage_Inl split: option.splits)

lemma encodeMessage_content_type: "encodeMessage P resolve name j = Inr (out, ct) \<Longrightarrow> ct = ''application/protobuf''"
  by (auto simp: encodeMessage_def split: option.splits if_splits)

text \<open>A typed reply round-trips: when the library's codecs are inverse on a message, what the
  adapter encodes from the JSON of that message is what \<open>proto\<close> decodes back to it; and a request
  body the adapter accepts is the JSON of the message it decodes to.\<close>

theorem adapter_round_trip:
  assumes "resolve name = Some md" and "field_count P md \<noteq> 0"
    and "\<And>msg bs. proto_marshal P msg = Some bs \<Longrightarrow> proto_unmarshal P md bs = Some msg"
    and "protojson_unmarshal P md j = Some msg"
    and "encodeMessage P resolve name j = Inr (out, ct)"
    and "request_message c = name"
  shows "DecodeRequest P resolve c out =
    (case protojson_marshal P msg of
       None \<Rightarrow> Inl (DecodeFailed ''could not re-encode request as JSON'')
     | Some j' \<Rightarrow> Inr \<lparr>uc_method = c_method c, uc_path = c_route c, uc_query = '''', uc_body = j',
                       uc_content_type = ''application/json''\<rparr>)"
  using assms by (auto simp: encodeMessage_def DecodeRequest_def split: option.splits)

definition echo_codec :: "(string, string) protocodec" where
  "echo_codec = \<lparr>field_count = length, proto_unmarshal = \<lambda>md bs. Some bs,
     protojson_marshal = Some, protojson_unmarshal = \<lambda>md j. Some j, proto_marshal = Some\<rparr>"

theorem adapter_round_trip_witness:
  "\<exists>call. DecodeRequest echo_codec (\<lambda>n. Some n) (projr (validateContract (demo_contract ''v1''))) ''{}'' = Inr call
     \<and> uc_body call = ''{}''"
proof -
  let ?c = "projr (validateContract (demo_contract ''v1''))"
  have "request_message ?c = ''Order''" by code_simp
  from adapter_round_trip [of "\<lambda>n. Some n" "''Order''" "''Order''" echo_codec "''{}''" "''{}''" "''{}''"
      "''application/protobuf''" ?c, OF _ _ _ _ _ this]
  show ?thesis by (simp add: echo_codec_def encodeMessage_def)
qed

end
