(* ===== verification/Config.thy ===== *)
theory Config
  imports Json Go_Utf8
begin

text \<open>
  \<open>internal/config/config.go\<close>: the \<open>WAVEFRONT_*\<close> environment, parsed once into a \<open>config\<close>.

  The environment is a lookup function, which is what the code takes it to be (\<open>Lookuper\<close>).
  \<open>url.Parse\<close> (its scheme and host) and the two float conversions are the record \<open>configlib\<close>.  A
  \<open>time.Duration\<close> is a 64-bit word of nanoseconds, so \<open>Duration(ms) * Millisecond\<close> wraps as in Go;
  \<open>MaxBodyBytes\<close> is an \<open>int64\<close> that no arithmetic touches.
\<close>

section \<open>float64 comparisons\<close>

text \<open>The order of IEEE 754 double precision on the bits of a \<open>float64\<close>: no NaN is related to
  anything, both zeros are equal.\<close>

definition f64_magnitude :: "f64 \<Rightarrow> int" where
  "f64_magnitude x = uint x mod 0x8000000000000000"

definition f64_nan :: "f64 \<Rightarrow> bool" where
  "f64_nan x = (f64_magnitude x > 0x7FF0000000000000)"

definition f64_rank :: "f64 \<Rightarrow> int" where
  "f64_rank x = (if uint x < 0x8000000000000000 then f64_magnitude x else - f64_magnitude x)"

definition f64_le :: "f64 \<Rightarrow> f64 \<Rightarrow> bool" where
  "f64_le x y = (\<not> f64_nan x \<and> \<not> f64_nan y \<and> f64_rank x \<le> f64_rank y)"

definition f64_less :: "f64 \<Rightarrow> f64 \<Rightarrow> bool" where
  "f64_less x y = (\<not> f64_nan x \<and> \<not> f64_nan y \<and> f64_rank x < f64_rank y)"

definition f64_zero :: f64 where "f64_zero = 0"
definition f64_one :: f64 where "f64_one = 0x3FF0000000000000"

section \<open>net.SplitHostPort\<close>

fun index_of :: "char \<Rightarrow> string \<Rightarrow> nat option" where
  "index_of c [] = None"
| "index_of c (x # xs) = (if x = c then Some 0 else map_option Suc (index_of c xs))"

definition last_index_of :: "char \<Rightarrow> string \<Rightarrow> nat option" where
  "last_index_of c s = map_option (\<lambda>i. length s - 1 - i) (index_of c (rev s))"

definition addr_error :: "string \<Rightarrow> string \<Rightarrow> string" where
  "addr_error addr why = ''address '' @ addr @ '': '' @ why"

definition split_rest :: "string \<Rightarrow> nat \<Rightarrow> nat \<Rightarrow> string \<Rightarrow> nat \<Rightarrow> string + string \<times> string" where
  "split_rest s j k host i =
     (if CHR ''['' \<in> set (drop j s) then Inl (addr_error s (''unexpected '' @ [CHR 0x27] @ ''['' @ [CHR 0x27] @ '' in address''))
      else if CHR '']'' \<in> set (drop k s) then Inl (addr_error s (''unexpected '' @ [CHR 0x27] @ '']'' @ [CHR 0x27] @ '' in address''))
      else Inr (host, drop (i + 1) s))"

definition SplitHostPort :: "string \<Rightarrow> string + string \<times> string" where
  "SplitHostPort s =
     (case last_index_of CHR '':'' s of
        None \<Rightarrow> Inl (addr_error s ''missing port in address'')
      | Some i \<Rightarrow>
          if prefix ''['' s then
            (case index_of CHR '']'' s of
               None \<Rightarrow> Inl (addr_error s (''missing '' @ [CHR 0x27] @ '']'' @ [CHR 0x27] @ '' in address''))
             | Some e \<Rightarrow>
                 if e + 1 = length s then Inl (addr_error s ''missing port in address'')
                 else if e + 1 = i then split_rest s 1 (e + 1) (take (e - 1) (drop 1 s)) i
                 else if s ! (e + 1) = CHR '':'' then Inl (addr_error s ''too many colons in address'')
                 else Inl (addr_error s ''missing port in address''))
          else if CHR '':'' \<in> set (take i s) then Inl (addr_error s ''too many colons in address'')
          else split_rest s 0 0 (take i s) i)"

section \<open>Configuration\<close>

type_synonym duration = "64 word"
type_synonym env = "string \<Rightarrow> string option"

record configlib =
  url_parse :: "string \<Rightarrow> string + string \<times> string"   \<comment> \<open>scheme and host of \<open>url.Parse\<close>\<close>
  cfg_parse_float :: "string \<Rightarrow> string + f64"           \<comment> \<open>\<open>strconv.ParseFloat(s, 64)\<close>\<close>
  cfg_format_float :: "f64 \<Rightarrow> string"                   \<comment> \<open>\<open>strconv.FormatFloat(x, 'g', -1, 64)\<close>\<close>

record config =
  BundlePath :: string
  UpstreamBaseURL :: string
  Targets :: "(string \<times> string) list"
  ListenAddr :: string
  MetricsAddr :: string
  ContractVersionHeader :: string
  ProfileHeader :: string
  TenantHeader :: string
  CohortHeader :: string
  RequestTimeout :: duration
  ReadHeaderTimeout :: duration
  ReadTimeout :: duration
  MaxBodyBytes :: int
  LogLevel :: int
  TracesEndpoint :: string
  TracesServiceName :: string
  TracesSampleRatio :: f64

datatype config_error =
    MissingError string
  | InvalidError string string string

fun config_error_text :: "config_error \<Rightarrow> string" where
  "config_error_text (MissingError v) = ''missing required env var: '' @ v"
| "config_error_text (InvalidError v value err) =
     ''invalid '' @ v @ '' '' @ go_quote value @ '': '' @ err"

definition defListenAddr :: string where "defListenAddr = ''0.0.0.0:8080''"
definition defMetricsAddr :: string where "defMetricsAddr = ''0.0.0.0:9090''"
definition defCVHeader :: string where "defCVHeader = ''X-Api-Contract-Version''"
definition defProfileHeader :: string where "defProfileHeader = ''X-Wavefront-Profile''"
definition defTenantHeader :: string where "defTenantHeader = ''X-Wavefront-Tenant''"
definition defCohortHeader :: string where "defCohortHeader = ''X-Wavefront-Cohort''"

lemmas config_defaults = defListenAddr_def defMetricsAddr_def defCVHeader_def defProfileHeader_def
  defTenantHeader_def defCohortHeader_def

text \<open>\<open>nonBlank\<close>: a variable that is set to more than white space, trimmed.\<close>

definition nonBlank :: "env \<Rightarrow> string \<Rightarrow> string option" where
  "nonBlank env k =
     (case env k of
        None \<Rightarrow> None
      | Some v \<Rightarrow> if trim_space v = '''' then None else Some (trim_space v))"

definition required :: "env \<Rightarrow> string \<Rightarrow> config_error + string" where
  "required env k = (case nonBlank env k of Some v \<Rightarrow> Inr v | None \<Rightarrow> Inl (MissingError k))"

definition withDefault :: "env \<Rightarrow> string \<Rightarrow> string \<Rightarrow> string" where
  "withDefault env k def = (case nonBlank env k of Some v \<Rightarrow> v | None \<Rightarrow> def)"

definition OpsAddr :: "env \<Rightarrow> string" where
  "OpsAddr env =
     (case env ''WAVEFRONT_METRICS_ADDR'' of
        None \<Rightarrow> defMetricsAddr
      | Some v \<Rightarrow> if trim_space v \<noteq> '''' then trim_space v else defMetricsAddr)"

text \<open>The text of a \<open>*strconv.NumError\<close>.\<close>

definition num_error :: "string \<Rightarrow> string \<Rightarrow> string" where
  "num_error fn s =
     ''strconv.'' @ fn @ '': parsing '' @ go_quote s @ '': '' @
     (let digits = (case s of [] \<Rightarrow> [] | c # t \<Rightarrow> if c = CHR ''-'' \<or> c = CHR ''+'' then t else s)
      in if unsigned_digits digits = None then ''invalid syntax'' else ''value out of range'')"

definition parseIntVar :: "env \<Rightarrow> string \<Rightarrow> int \<Rightarrow> config_error + int" where
  "parseIntVar env k def =
     (case nonBlank env k of
        None \<Rightarrow> Inr def
      | Some v \<Rightarrow> (case atoi v of None \<Rightarrow> Inl (InvalidError k v (num_error ''Atoi'' v)) | Some n \<Rightarrow> Inr n))"

definition parseInt64Var :: "env \<Rightarrow> string \<Rightarrow> int \<Rightarrow> config_error + int" where
  "parseInt64Var env k def =
     (case nonBlank env k of
        None \<Rightarrow> Inr def
      | Some v \<Rightarrow> (case atoi v of None \<Rightarrow> Inl (InvalidError k v (num_error ''ParseInt'' v)) | Some n \<Rightarrow> Inr n))"

definition parseFloatVar :: "configlib \<Rightarrow> env \<Rightarrow> string \<Rightarrow> f64 \<Rightarrow> config_error + f64" where
  "parseFloatVar lib env k def =
     (case nonBlank env k of
        None \<Rightarrow> Inr def
      | Some v \<Rightarrow> (case cfg_parse_float lib v of Inl err \<Rightarrow> Inl (InvalidError k v err) | Inr x \<Rightarrow> Inr x))"

definition validateBaseURL :: "configlib \<Rightarrow> string \<Rightarrow> string + unit" where
  "validateBaseURL lib s =
     sbind (url_parse lib s) (\<lambda>(scheme, host).
       if scheme \<noteq> ''http'' \<and> scheme \<noteq> ''https'' then Inl ''scheme must be http or https''
       else if host = '''' then Inl ''missing host'' else Inr ())"

definition validateHostPort :: "string \<Rightarrow> string + unit" where
  "validateHostPort s =
     sbind (SplitHostPort s) (\<lambda>(_, port).
       case atoi port of
         None \<Rightarrow> Inl (''port '' @ go_quote port @ '' not numeric'')
       | Some pn \<Rightarrow> if pn < 1 \<or> pn > 65535 then Inl (''port '' @ itoa pn @ '' out of range'') else Inr ())"

definition parseLevel :: "string \<Rightarrow> string + int" where
  "parseLevel s =
     (let l = to_lower (trim_space s) in
        if l = ''debug'' then Inr (-4)
        else if l = ''info'' then Inr 0
        else if l = ''warn'' then Inr 4
        else if l = ''error'' then Inr 8
        else Inl (''unknown log level '' @ go_quote s))"

definition invalid :: "string \<Rightarrow> string \<Rightarrow> string + 'a \<Rightarrow> config_error + 'a" where
  "invalid var value r = (case r of Inl err \<Rightarrow> Inl (InvalidError var value err) | Inr x \<Rightarrow> Inr x)"

text \<open>One \<open>name=url\<close> pair of \<open>WAVEFRONT_TARGETS\<close>.\<close>

definition add_target ::
  "configlib \<Rightarrow> string \<Rightarrow> (string \<times> string) list \<Rightarrow> string \<Rightarrow> config_error + (string \<times> string) list" where
  "add_target lib raw targets pair =
     (case str_cut CHR ''='' (trim_space pair) of (n, u, found) \<Rightarrow>
        let name = trim_space n; urlStr = trim_space u in
          if \<not> found \<or> name = '''' \<or> urlStr = '''' then
            Inl (InvalidError ''WAVEFRONT_TARGETS'' raw ''each target must be name=url'')
          else if map_of targets name \<noteq> None then
            Inl (InvalidError ''WAVEFRONT_TARGETS'' raw (''duplicate target '' @ go_quote name))
          else sbind (invalid ''WAVEFRONT_TARGETS'' urlStr (validateBaseURL lib urlStr)) (\<lambda>_.
            Inr (targets @ [(name, urlStr)])))"

definition load_targets :: "configlib \<Rightarrow> env \<Rightarrow> config_error + (string \<times> string) list" where
  "load_targets lib env =
     (case nonBlank env ''WAVEFRONT_TARGETS'' of
        None \<Rightarrow> Inr []
      | Some raw \<Rightarrow> sfold (add_target lib raw) [] (split_on CHR '','' raw))"

definition load_addr :: "env \<Rightarrow> string \<Rightarrow> string \<Rightarrow> config_error + string" where
  "load_addr env k def =
     (let a = withDefault env k def in sbind (invalid k a (validateHostPort a)) (\<lambda>_. Inr a))"

text \<open>\<open>time.Duration(ms) * time.Millisecond\<close>.\<close>

definition milliseconds :: "int \<Rightarrow> duration" where
  "milliseconds ms = of_int ms * 1000000"

definition load_timeout :: "env \<Rightarrow> string \<Rightarrow> int \<Rightarrow> config_error + duration" where
  "load_timeout env k def =
     sbind (parseIntVar env k def) (\<lambda>ms.
       if ms \<le> 0 then Inl (InvalidError k (itoa ms) ''must be greater than zero'')
       else Inr (milliseconds ms))"

definition load_max_body :: "env \<Rightarrow> config_error + int" where
  "load_max_body env =
     sbind (parseInt64Var env ''WAVEFRONT_MAX_BODY_BYTES'' 1048576) (\<lambda>n.
       if n \<le> 0 then Inl (InvalidError ''WAVEFRONT_MAX_BODY_BYTES'' (itoa n) ''must be greater than zero'')
       else Inr n)"

definition load_level :: "env \<Rightarrow> config_error + int" where
  "load_level env =
     (case parseLevel (withDefault env ''WAVEFRONT_LOG_LEVEL'' ''info'') of
        Inl err \<Rightarrow>
          Inl (InvalidError ''WAVEFRONT_LOG_LEVEL''
                 (case nonBlank env ''WAVEFRONT_LOG_LEVEL'' of None \<Rightarrow> '''' | Some v \<Rightarrow> v) err)
      | Inr lvl \<Rightarrow> Inr lvl)"

definition load_traces_endpoint :: "configlib \<Rightarrow> env \<Rightarrow> config_error + string" where
  "load_traces_endpoint lib env =
     (let e = withDefault env ''WAVEFRONT_TRACES_OTLP_ENDPOINT'' '''' in
        if e = '''' then Inr e
        else sbind (invalid ''WAVEFRONT_TRACES_OTLP_ENDPOINT'' e (validateBaseURL lib e)) (\<lambda>_. Inr e))"

definition load_ratio :: "configlib \<Rightarrow> env \<Rightarrow> config_error + f64" where
  "load_ratio lib env =
     sbind (parseFloatVar lib env ''WAVEFRONT_TRACES_SAMPLE_RATIO'' f64_one) (\<lambda>x.
       if f64_le x f64_zero \<or> f64_less f64_one x then
         Inl (InvalidError ''WAVEFRONT_TRACES_SAMPLE_RATIO'' (cfg_format_float lib x) ''must be in (0, 1]'')
       else Inr x)"

definition load_config :: "configlib \<Rightarrow> env \<Rightarrow> config_error + config" where
  "load_config lib env =
     sbind (required env ''WAVEFRONT_BUNDLE_PATH'') (\<lambda>bundlePath.
     sbind (required env ''WAVEFRONT_UPSTREAM_BASE_URL'') (\<lambda>base.
     sbind (invalid ''WAVEFRONT_UPSTREAM_BASE_URL'' base (validateBaseURL lib base)) (\<lambda>_.
     sbind (load_targets lib env) (\<lambda>targets.
     sbind (load_addr env ''WAVEFRONT_LISTEN_ADDR'' defListenAddr) (\<lambda>listen.
     sbind (load_addr env ''WAVEFRONT_METRICS_ADDR'' defMetricsAddr) (\<lambda>ops.
     sbind (load_timeout env ''WAVEFRONT_REQUEST_TIMEOUT_MS'' 15000) (\<lambda>timeout.
     sbind (load_timeout env ''WAVEFRONT_READ_HEADER_TIMEOUT_MS'' 10000) (\<lambda>readHeader.
     sbind (load_timeout env ''WAVEFRONT_READ_TIMEOUT_MS'' 30000) (\<lambda>readAll.
     sbind (load_max_body env) (\<lambda>maxBody.
     sbind (load_level env) (\<lambda>lvl.
     sbind (load_traces_endpoint lib env) (\<lambda>endpoint.
     sbind (load_ratio lib env) (\<lambda>ratio.
       Inr \<lparr>BundlePath = bundlePath, UpstreamBaseURL = base, Targets = targets,
            ListenAddr = listen, MetricsAddr = ops,
            ContractVersionHeader = withDefault env ''WAVEFRONT_CONTRACT_VERSION_HEADER'' defCVHeader,
            ProfileHeader = withDefault env ''WAVEFRONT_PROFILE_HEADER'' defProfileHeader,
            TenantHeader = withDefault env ''WAVEFRONT_TENANT_HEADER'' defTenantHeader,
            CohortHeader = withDefault env ''WAVEFRONT_COHORT_HEADER'' defCohortHeader,
            RequestTimeout = timeout, ReadHeaderTimeout = readHeader, ReadTimeout = readAll,
            MaxBodyBytes = maxBody, LogLevel = lvl, TracesEndpoint = endpoint,
            TracesServiceName = withDefault env ''WAVEFRONT_TRACES_SERVICE_NAME'' '''',
            TracesSampleRatio = ratio\<rparr>)))))))))))))"

definition TargetURL :: "config \<Rightarrow> string \<Rightarrow> string option" where
  "TargetURL cfg name = (if name = '''' then Some (UpstreamBaseURL cfg) else map_of (Targets cfg) name)"

section \<open>What Load guarantees\<close>

definition target_ok :: "configlib \<Rightarrow> string \<times> string \<Rightarrow> bool" where
  "target_ok lib t = (fst t \<noteq> '''' \<and> snd t \<noteq> '''' \<and> validateBaseURL lib (snd t) = Inr ())"

definition config_ok :: "configlib \<Rightarrow> config \<Rightarrow> bool" where
  "config_ok lib cfg =
     (BundlePath cfg \<noteq> '''' \<and> validateBaseURL lib (UpstreamBaseURL cfg) = Inr () \<and>
      distinct (map fst (Targets cfg)) \<and> list_all (target_ok lib) (Targets cfg) \<and>
      validateHostPort (ListenAddr cfg) = Inr () \<and> validateHostPort (MetricsAddr cfg) = Inr () \<and>
      ContractVersionHeader cfg \<noteq> '''' \<and> ProfileHeader cfg \<noteq> '''' \<and>
      TenantHeader cfg \<noteq> '''' \<and> CohortHeader cfg \<noteq> '''' \<and>
      0 < MaxBodyBytes cfg \<and> MaxBodyBytes cfg \<le> int64_max \<and>
      LogLevel cfg \<in> {-4, 0, 4, 8} \<and>
      (TracesEndpoint cfg = '''' \<or> validateBaseURL lib (TracesEndpoint cfg) = Inr ()))"

lemma invalid_iff [simp]: "invalid k v r = Inr x \<longleftrightarrow> r = Inr x"
  by (cases r) (auto simp: invalid_def)

lemma nonBlank_ne: "nonBlank env k = Some v \<Longrightarrow> v \<noteq> ''''"
  by (auto simp: nonBlank_def split: option.splits if_splits)

lemma withDefault_ne [simp]: "def \<noteq> '''' \<Longrightarrow> withDefault env k def \<noteq> ''''"
  by (auto simp: withDefault_def dest: nonBlank_ne split: option.splits)

lemma add_target_ok:
  assumes "add_target lib raw ts pair = Inr ts'"
    and "distinct (map fst ts) \<and> list_all (target_ok lib) ts"
  shows "distinct (map fst ts') \<and> list_all (target_ok lib) ts'"
  using assms
  by (auto simp: add_target_def Let_def result_simps target_ok_def map_of_eq_None_iff
      split: prod.splits if_splits)

lemma load_targets_ok:
  "load_targets lib env = Inr ts \<Longrightarrow> distinct (map fst ts) \<and> list_all (target_ok lib) ts"
  unfolding load_targets_def
  by (auto split: option.splits)
    (auto dest!: sfold_invariant [where P = "\<lambda>ts. distinct (map fst ts) \<and> list_all (target_ok lib) ts"]
      add_target_ok)

lemma load_addr_ok: "load_addr env k def = Inr a \<longleftrightarrow> a = withDefault env k def \<and> validateHostPort a = Inr ()"
  by (auto simp: load_addr_def Let_def result_simps)

lemma load_max_body_ok: "load_max_body env = Inr n \<Longrightarrow> 0 < n \<and> n \<le> int64_max"
  by (auto simp: load_max_body_def parseInt64Var_def result_simps int64_max_def
      dest!: atoi_fits split: option.splits if_splits) (auto simp: fits_int64_def int64_max_def)

lemma load_level_ok: "load_level env = Inr l \<Longrightarrow> l \<in> {-4, 0, 4, 8}"
  by (auto simp: load_level_def parseLevel_def Let_def split: sum.splits if_splits)

lemma load_traces_endpoint_ok:
  "load_traces_endpoint lib env = Inr e \<Longrightarrow> e = '''' \<or> validateBaseURL lib e = Inr ()"
  by (auto simp: load_traces_endpoint_def Let_def result_simps split: if_splits)

lemma milliseconds_small: "0 < ms \<Longrightarrow> ms \<le> 9223372036854 \<Longrightarrow> sint (milliseconds ms) = ms * 1000000"
proof -
  assume ms: "0 < ms" "ms \<le> 9223372036854"
  have "milliseconds ms = word_of_int (ms * 1000000)" by (simp add: milliseconds_def)
  then have "sint (milliseconds ms) = signed_take_bit 63 (ms * 1000000)"
    by (simp only: sint_sbintrunc') simp
  also have "\<dots> = ms * 1000000" using ms by (intro signed_take_bit_int_eq_self) auto
  finally show ?thesis .
qed

lemma milliseconds_wraps: "9223372036855 \<le> ms \<Longrightarrow> ms \<le> 18446744073709 \<Longrightarrow> sint (milliseconds ms) < 0"
proof -
  assume ms: "9223372036855 \<le> ms" "ms \<le> 18446744073709"
  have "milliseconds ms = word_of_int (ms * 1000000 - 2 ^ 64)"
    by (simp add: milliseconds_def)
  then have "sint (milliseconds ms) = signed_take_bit 63 (ms * 1000000 - 2 ^ 64)"
    by (simp only: sint_sbintrunc') simp
  also have "\<dots> = ms * 1000000 - 2 ^ 64" using ms by (intro signed_take_bit_int_eq_self) auto
  finally show ?thesis using ms by simp
qed

text \<open>A timeout is the number written, or the default, a positive number of milliseconds; converted to
  nanoseconds it is that number up to the largest one that fits.\<close>

definition timeout_ok :: "env \<Rightarrow> string \<Rightarrow> int \<Rightarrow> duration \<Rightarrow> bool" where
  "timeout_ok env k def d =
     (\<exists>ms. (case nonBlank env k of None \<Rightarrow> ms = def | Some v \<Rightarrow> atoi v = Some ms) \<and>
        0 < ms \<and> d = milliseconds ms \<and> (ms \<le> 9223372036854 \<longrightarrow> sint d = ms * 1000000))"

lemma load_timeout_ok: "load_timeout env k def = Inr d \<Longrightarrow> timeout_ok env k def d"
  using milliseconds_small
  by (auto simp: load_timeout_def parseIntVar_def timeout_ok_def result_simps split: option.splits if_splits)

definition ratio_ok :: "f64 \<Rightarrow> bool" where
  "ratio_ok x = (f64_less f64_zero x \<and> f64_le x f64_one)"

lemma load_ratio_ok: "load_ratio lib env = Inr x \<Longrightarrow> f64_nan x \<or> ratio_ok x"
proof -
  have "\<not> f64_nan f64_zero" "\<not> f64_nan f64_one" by code_simp+
  then show "load_ratio lib env = Inr x \<Longrightarrow> f64_nan x \<or> ratio_ok x"
    by (auto simp: load_ratio_def ratio_ok_def result_simps f64_le_def f64_less_def split: if_splits)
qed

section \<open>Properties\<close>

text \<open>C11. What \<open>Load\<close> makes sure of in every configuration it returns: the required values are there,
  every URL it will dial is absolute http or https, target names are distinct, both listen addresses
  have a port in 1..65535, no header name is blank, the body limit is positive; each timeout is the
  positive number of milliseconds that was written, or its default, and is that long unless the number
  is above 9223372036854, where the conversion wraps; the sample ratio lies in (0,1] or is NaN.\<close>

theorem load_config_ok:
  assumes "load_config lib env = Inr cfg"
  shows "config_ok lib cfg \<and>
    timeout_ok env ''WAVEFRONT_REQUEST_TIMEOUT_MS'' 15000 (RequestTimeout cfg) \<and>
    timeout_ok env ''WAVEFRONT_READ_HEADER_TIMEOUT_MS'' 10000 (ReadHeaderTimeout cfg) \<and>
    timeout_ok env ''WAVEFRONT_READ_TIMEOUT_MS'' 30000 (ReadTimeout cfg) \<and>
    (f64_nan (TracesSampleRatio cfg) \<or> ratio_ok (TracesSampleRatio cfg))"
proof -
  have p: "BundlePath cfg \<noteq> ''''" "validateBaseURL lib (UpstreamBaseURL cfg) = Inr ()"
    "load_targets lib env = Inr (Targets cfg)"
    "load_addr env ''WAVEFRONT_LISTEN_ADDR'' defListenAddr = Inr (ListenAddr cfg)"
    "load_addr env ''WAVEFRONT_METRICS_ADDR'' defMetricsAddr = Inr (MetricsAddr cfg)"
    "load_max_body env = Inr (MaxBodyBytes cfg)" "load_level env = Inr (LogLevel cfg)"
    "load_traces_endpoint lib env = Inr (TracesEndpoint cfg)"
    "ContractVersionHeader cfg \<noteq> ''''" "ProfileHeader cfg \<noteq> ''''"
    "TenantHeader cfg \<noteq> ''''" "CohortHeader cfg \<noteq> ''''"
    and t: "load_timeout env ''WAVEFRONT_REQUEST_TIMEOUT_MS'' 15000 = Inr (RequestTimeout cfg)"
    "load_timeout env ''WAVEFRONT_READ_HEADER_TIMEOUT_MS'' 10000 = Inr (ReadHeaderTimeout cfg)"
    "load_timeout env ''WAVEFRONT_READ_TIMEOUT_MS'' 30000 = Inr (ReadTimeout cfg)"
    "load_ratio lib env = Inr (TracesSampleRatio cfg)"
    using assms unfolding load_config_def
    by (auto simp: result_simps required_def config_defaults dest: nonBlank_ne split: option.splits)
  have "config_ok lib cfg"
    unfolding config_ok_def
    using p load_targets_ok load_max_body_ok load_level_ok load_traces_endpoint_ok
    by (auto simp: load_addr_ok)
  with t load_timeout_ok load_ratio_ok show ?thesis by simp
qed

text \<open>The container self-probe dials the port the server binds: \<open>OpsAddr\<close> agrees with the
  address a successful \<open>Load\<close> of the same environment puts in the configuration.\<close>

lemma ops_addr_configured:
  assumes "load_config lib env = Inr cfg"
  shows "OpsAddr env = MetricsAddr cfg"
proof -
  have "MetricsAddr cfg = withDefault env ''WAVEFRONT_METRICS_ADDR'' defMetricsAddr"
    using assms unfolding load_config_def by (auto simp: result_simps load_addr_ok)
  then show ?thesis
    by (auto simp: OpsAddr_def withDefault_def nonBlank_def split: option.splits)
qed

text \<open>C12. The check that a timeout is positive comes before the conversion to nanoseconds, which
  wraps: up to 9223372036854 ms the duration is the value written, and from the next value on a
  written positive timeout is accepted and becomes a negative duration.\<close>

theorem timeout_overflow:
  assumes "nonBlank env k = Some (itoa ms)" and "0 < ms" and "fits_int64 ms"
  shows "\<exists>d. load_timeout env k def = Inr d \<and>
    (ms \<le> 9223372036854 \<longrightarrow> sint d = ms * 1000000) \<and>
    (9223372036855 \<le> ms \<and> ms \<le> 18446744073709 \<longrightarrow> sint d < 0)"
  using assms milliseconds_small milliseconds_wraps
  by (auto simp: load_timeout_def parseIntVar_def atoi_itoa)

text \<open>The documented range (0,1] of the sample ratio is enforced for numbers only: besides the
  ratios in it, exactly NaN passes, since both comparisons of the check are false on it.\<close>

theorem load_ratio_exact:
  assumes "nonBlank env ''WAVEFRONT_TRACES_SAMPLE_RATIO'' = Some v" and "cfg_parse_float lib v = Inr x"
  shows "load_ratio lib env = Inr x \<longleftrightarrow> f64_nan x \<or> (f64_less f64_zero x \<and> f64_le x f64_one)"
proof -
  have "\<not> f64_nan f64_zero" "\<not> f64_nan f64_one" by code_simp+
  with assms show ?thesis
    by (auto simp: load_ratio_def parseFloatVar_def f64_le_def f64_less_def)
qed

section \<open>Witnesses\<close>

definition demo_env :: "string \<Rightarrow> string option" where
  "demo_env = map_of [(''WAVEFRONT_BUNDLE_PATH'', ''/bundle''),
     (''WAVEFRONT_UPSTREAM_BASE_URL'', ''http://up''), (''WAVEFRONT_TARGETS'', ''blue=http://blue''),
     (''WAVEFRONT_METRICS_ADDR'', '' 127.0.0.1:9191 ''),
     (''WAVEFRONT_READ_TIMEOUT_MS'', ''9223372036855''), (''WAVEFRONT_TRACES_SAMPLE_RATIO'', ''nan'')]"

definition demo_configlib :: configlib where
  "demo_configlib = \<lparr>url_parse = \<lambda>s. Inr (takeWhile (\<lambda>c. c \<noteq> CHR '':'') s, drop 7 s),
     cfg_parse_float = \<lambda>s. Inr (if s = ''nan'' then 0x7FF8000000000001 else f64_one),
     cfg_format_float = \<lambda>x. ''1''\<rparr>"

definition demo_config :: config where
  "demo_config = projr (load_config demo_configlib demo_env)"

lemma demo_ratio:
  "nonBlank demo_env ''WAVEFRONT_TRACES_SAMPLE_RATIO'' = Some ''nan'' \<and>
   cfg_parse_float demo_configlib ''nan'' = Inr 0x7FF8000000000001 \<and> f64_nan 0x7FF8000000000001"
proof -
  have "nonBlank demo_env ''WAVEFRONT_TRACES_SAMPLE_RATIO'' = Some ''nan''" by code_simp
  then show ?thesis by (simp add: demo_configlib_def f64_nan_def f64_magnitude_def)
qed

lemma demo_env_parts:
  "required demo_env ''WAVEFRONT_BUNDLE_PATH'' = Inr ''/bundle''"
  "required demo_env ''WAVEFRONT_UPSTREAM_BASE_URL'' = Inr ''http://up''"
  "validateBaseURL demo_configlib ''http://up'' = Inr ()"
  "load_targets demo_configlib demo_env = Inr [(''blue'', ''http://blue'')]"
  "load_addr demo_env ''WAVEFRONT_LISTEN_ADDR'' defListenAddr = Inr ''0.0.0.0:8080''"
  "load_addr demo_env ''WAVEFRONT_METRICS_ADDR'' defMetricsAddr = Inr ''127.0.0.1:9191''"
  "nonBlank demo_env ''WAVEFRONT_REQUEST_TIMEOUT_MS'' = None"
  "nonBlank demo_env ''WAVEFRONT_READ_HEADER_TIMEOUT_MS'' = None"
  "nonBlank demo_env ''WAVEFRONT_READ_TIMEOUT_MS'' = Some ''9223372036855''"
  "load_max_body demo_env = Inr 1048576" "load_level demo_env = Inr 0"
  "load_traces_endpoint demo_configlib demo_env = Inr []"
  by code_simp+

lemma sbind_not_isl: "\<not> isl m \<Longrightarrow> (\<And>x. m = Inr x \<Longrightarrow> \<not> isl (f x)) \<Longrightarrow> \<not> isl (sbind m f)"
  by (cases m) auto

lemma demo_timeout: "nonBlank demo_env ''WAVEFRONT_READ_TIMEOUT_MS'' = Some (itoa 9223372036855)"
proof -
  have "itoa 9223372036855 = ''9223372036855''"
    by (simp add: itoa_def nat_digits.simps digit_char_def char_of_def bit_Suc_0_iff)
  then show ?thesis using demo_env_parts by simp
qed

lemma demo_timeouts:
  "\<not> isl (load_timeout demo_env ''WAVEFRONT_REQUEST_TIMEOUT_MS'' 15000)"
  "\<not> isl (load_timeout demo_env ''WAVEFRONT_READ_HEADER_TIMEOUT_MS'' 10000)"
  "\<not> isl (load_timeout demo_env ''WAVEFRONT_READ_TIMEOUT_MS'' 30000)"
  by (simp_all add: load_timeout_def parseIntVar_def demo_env_parts(7,8) demo_timeout atoi_itoa
      fits_int64_def int64_min_def int64_max_def)

lemma demo_config_loads: "load_config demo_configlib demo_env = Inr demo_config"
proof -
  have "load_ratio demo_configlib demo_env = Inr 0x7FF8000000000001"
    using demo_ratio by (simp add: load_ratio_def parseFloatVar_def f64_le_def f64_less_def)
  then have "\<not> isl (load_config demo_configlib demo_env)"
    unfolding load_config_def by (intro sbind_not_isl) (auto simp: demo_env_parts demo_timeouts invalid_def)
  then show ?thesis
    by (cases "load_config demo_configlib demo_env") (auto simp: demo_config_def)
qed

text \<open>An environment without the two exceptions.\<close>

definition plain_env :: "string \<Rightarrow> string option" where
  "plain_env = map_of [(''WAVEFRONT_BUNDLE_PATH'', ''/bundle''),
     (''WAVEFRONT_UPSTREAM_BASE_URL'', ''http://up''), (''WAVEFRONT_TARGETS'', ''blue=http://blue''),
     (''WAVEFRONT_READ_TIMEOUT_MS'', ''500'')]"

definition plain_config :: config where
  "plain_config = projr (load_config demo_configlib plain_env)"

lemma plain_config_loads: "load_config demo_configlib plain_env = Inr plain_config"
proof -
  have "\<not> isl (load_config demo_configlib plain_env)" by code_simp
  then show ?thesis by (cases "load_config demo_configlib plain_env") (auto simp: plain_config_def)
qed

theorem load_config_ok_witness:
  "config_ok demo_configlib plain_config \<and> sint (ReadTimeout plain_config) = 500000000 \<and>
   ratio_ok (TracesSampleRatio plain_config)"
proof -
  have "nonBlank plain_env ''WAVEFRONT_READ_TIMEOUT_MS'' = Some ''500''" "atoi ''500'' = Some 500"
    "\<not> f64_nan (TracesSampleRatio plain_config)"
    by code_simp+
  with load_config_ok [OF plain_config_loads] show ?thesis by (auto simp: timeout_ok_def)
qed

theorem timeout_overflow_witness:
  "\<exists>d. load_timeout demo_env ''WAVEFRONT_READ_TIMEOUT_MS'' 30000 = Inr d \<and> sint d < 0"
  using timeout_overflow [OF demo_timeout, of 30000]
  by (auto simp: fits_int64_def int64_min_def int64_max_def)

theorem load_ratio_exact_witness:
  "load_ratio demo_configlib demo_env = Inr 0x7FF8000000000001"
  using load_ratio_exact [of demo_env "''nan''" demo_configlib] demo_ratio by auto

end
