(* ===== verification/Server.thy ===== *)
theory Server
  imports Negotiate Adapter Config Wire_Error
begin

text \<open>
  \<open>internal/server/http.go\<close>, the proxy pipeline: route gate, envelope check, body read, negotiation,
  decode, request transforms, the one upstream call, status dispatch, response transforms, encode.

  A handler invocation is a computation on a record \<open>px\<close>: the local variables its deferred function
  reads, the response writer, and what it did to the outside (upstream calls, error counter, body
  read).  An early \<open>return\<close> is the left side of a sum: \<open>Inl p\<close> is the final state.

  What is outside the process is a parameter: \<open>env\<close> holds the upstream (a function from the call to
  its reply), the codecs, and the test \<open>http.NewRequest\<close> makes of a URL.  The live bundle pointer is
  read three times in a request (the start of \<open>proxy\<close>, \<open>DecodeRequest\<close>, the encoder, the last two
  through \<open>Server.Message\<close>), so \<open>env\<close> has the value each read sees.
\<close>

section \<open>Requests, replies, environment\<close>

text \<open>A body is the bytes that can be read from it and whether reading ends without an error.\<close>

type_synonym body = "string \<times> bool"

record request =
  rq_method :: string
  rq_path :: string
  rq_query :: string
  rq_header :: header
  rq_content_length :: int
  rq_transfer_encoding :: "string list"
  rq_body :: body

record up_request =
  ur_method :: string
  ur_url :: string
  ur_header :: header
  ur_body :: string

record up_response =
  us_status :: int
  us_header :: header
  us_body :: body

datatype up_reply = DeadlineExceeded | Unreachable | Reply up_response

record ('m, 'd) env =
  en_cfg :: config
  en_start :: "'m contract_bundle option"
  en_decode :: "'m contract_bundle option"
  en_encode :: "'m contract_bundle option"
  en_codec :: "('m, 'd) protocodec"
  en_text :: textlib
  en_error_pb :: "string \<Rightarrow> string \<Rightarrow> string"
  en_valid_request :: "string \<Rightarrow> string \<Rightarrow> bool"
  en_upstream :: "up_request \<Rightarrow> up_reply"

section \<open>Headers\<close>

definition hopByHop :: "string list" where
  "hopByHop = [''Connection'', ''Keep-Alive'', ''Proxy-Authenticate'', ''Proxy-Authorization'', ''Te'',
     ''Trailer'', ''Transfer-Encoding'', ''Upgrade'', ''Host'', ''Content-Length'', ''Content-Type'']"

text \<open>The header names the client lists in \<open>Connection\<close>.\<close>

definition connection_names :: "header \<Rightarrow> string list" where
  "connection_names src =
     filter (\<lambda>n. n \<noteq> '''')
       (map (\<lambda>tok. canonical_key (trim_space tok))
         (concat (map (split_on CHR '','') (case map_of src ''Connection'' of None \<Rightarrow> [] | Some vs \<Rightarrow> vs))))"

definition forwardClientHeaders :: "header \<Rightarrow> header \<Rightarrow> header" where
  "forwardClientHeaders dst src =
     fold (\<lambda>(k, vs) dst.
       if k \<in> set hopByHop \<or> k \<in> set (connection_names src) then dst else h_add_all k vs dst) src dst"

definition copyCORSHeaders :: "header \<Rightarrow> header \<Rightarrow> header" where
  "copyCORSHeaders dst src =
     fold (\<lambda>(k, vs) dst.
       if k = ''Vary'' \<or> prefix ''Access-Control-'' k then h_add_all k vs dst else dst) src dst"

definition hasRequestBody :: "request \<Rightarrow> bool" where
  "hasRequestBody r =
     (if rq_content_length r > 0 then True
      else if rq_content_length r < 0 then True
      else list_ex (\<lambda>te. te \<noteq> ''identity'' \<and> te \<noteq> '''') (rq_transfer_encoding r))"

definition isProtobufContentType :: "string \<Rightarrow> bool" where
  "isProtobufContentType v =
     (if v = '''' then False
      else (case ParseMediaType v of None \<Rightarrow> False | Some mt \<Rightarrow> to_lower mt = MediaTypeProtobuf))"

definition isCORSPreflight :: "request \<Rightarrow> bool" where
  "isCORSPreflight r =
     (rq_method r = ''OPTIONS'' \<and> h_get (rq_header r) ''Origin'' \<noteq> '''' \<and>
      h_get (rq_header r) ''Access-Control-Request-Method'' \<noteq> '''')"

text \<open>\<open>io.ReadAll\<close> of an \<open>http.MaxBytesReader\<close>.\<close>

datatype read_error = BodyTooLarge | ReadFailed

definition read_limited :: "int \<Rightarrow> body \<Rightarrow> read_error + string" where
  "read_limited limit b =
     (if int (length (fst b)) > limit then Inl BodyTooLarge
      else if \<not> snd b then Inl ReadFailed
      else Inr (fst b))"

definition describeResolution :: "'a contract_scheme \<Rightarrow> string" where
  "describeResolution c =
     (if request_ops c \<noteq> [] \<or> response_ops c \<noteq> [] \<or> transform_target c \<noteq> '''' then ''transform''
      else ''route'')"

section \<open>The state of one invocation\<close>

record px =
  px_w :: response_writer
  px_version :: string
  px_resp_version :: string
  px_route :: string
  px_target :: string
  px_kind :: string
  px_outcome :: string
  px_upstream_status :: int
  px_tout :: string
  px_errors :: "(string \<times> string \<times> string) list"   \<comment> \<open>increments of \<open>wavefront_errors_total\<close>\<close>
  px_calls :: "up_request list"
  px_read :: bool                                    \<comment> \<open>the body was read\<close>
  px_panic :: "string option"

definition outcomeOK :: string where "outcomeOK = ''ok''"

text \<open>The version a response echoes before negotiation: the raw client header, or \<open>unknown\<close>.\<close>

definition raw_version :: "config \<Rightarrow> request \<Rightarrow> string" where
  "raw_version cfg r =
     (let v = h_get (rq_header r) (ContractVersionHeader cfg) in if v \<noteq> '''' then v else VersionUnknown)"

definition px_init :: "config \<Rightarrow> request \<Rightarrow> px" where
  "px_init cfg r =
     \<lparr>px_w = new_writer, px_version = VersionUnknown, px_resp_version = raw_version cfg r,
      px_route = '''', px_target = '''', px_kind = '''', px_outcome = outcomeOK,
      px_upstream_status = 0, px_tout = '''', px_errors = [], px_calls = [], px_read = False,
      px_panic = None\<rparr>"

text \<open>\<open>writeError\<close> and the closure \<open>fail\<close>.\<close>

definition writeError ::
  "('m, 'd) env \<Rightarrow> werror \<Rightarrow> string \<Rightarrow> string \<Rightarrow> string \<Rightarrow> px \<Rightarrow> px" where
  "writeError E werr metricVersion respVersion tout p =
     p\<lparr>px_errors := px_errors p @ [(we_code werr, metricVersion, tout)],
       px_w := wire_write (en_error_pb E) werr respVersion (px_w p)\<rparr>"

definition fail_px :: "('m, 'd) env \<Rightarrow> werror \<Rightarrow> string \<Rightarrow> px \<Rightarrow> px" where
  "fail_px E werr tout p =
     writeError E werr (px_version p) (px_resp_version p) tout
       (p\<lparr>px_outcome := we_code werr, px_tout := tout\<rparr>)"

text \<open>A panic inside the pipeline unwinds it.\<close>

fun fault_px :: "('m, 'd) env \<Rightarrow> fault \<Rightarrow> string \<Rightarrow> px \<Rightarrow> px" where
  "fault_px E (Wire werr) tout p = fail_px E werr tout p"
| "fault_px E (GoPanic m) tout p = p\<lparr>px_panic := Some m\<rparr>"

text \<open>\<open>try_px\<close> continues on success and ends the handler through \<open>fail\<close> otherwise.\<close>

fun try_px :: "('m, 'd) env \<Rightarrow> px \<Rightarrow> werror + 'a \<Rightarrow> px + 'a" where
  "try_px E p (Inl werr) = Inl (fail_px E werr '''' p)"
| "try_px E p (Inr x) = Inr x"

definition resolver_of :: "'m contract_bundle option \<Rightarrow> 'm resolver" where
  "resolver_of b n = (case b of None \<Rightarrow> None | Some b \<Rightarrow> Message b n)"

section \<open>The pipeline\<close>

text \<open>Up to the body read.  The checks run in the order of the code.\<close>

definition admit :: "('m, 'd) env \<Rightarrow> request \<Rightarrow> px \<Rightarrow> px + 'm contract_bundle" where
  "admit E r p =
     (case en_start E of
        None \<Rightarrow> Inl (fail_px E (WithRetryAfter ''1'' (Unavailable ''bundle not loaded'')) '''' p)
      | Some b \<Rightarrow>
          if LookupRoute b (rq_path r) (rq_method r) = None then
            Inl (fail_px E (UnknownRoute (''no contract binds '' @ rq_method r @ '' '' @ rq_path r)) '''' p)
          else if hasRequestBody r \<and> \<not> isProtobufContentType (h_get (rq_header r) HeaderContentType) then
            Inl (fail_px E (UnsupportedMediaType (''request Content-Type is not '' @ MediaTypeProtobuf)) '''' p)
          else if rq_content_length r > 0 \<and> rq_content_length r > MaxBodyBytes (en_cfg E) then
            Inl (fail_px E (RequestBodyTooLarge '''') '''' p)
          else Inr b)"

definition read_body :: "('m, 'd) env \<Rightarrow> request \<Rightarrow> px \<Rightarrow> px + px \<times> string" where
  "read_body E r p =
     (let p = p\<lparr>px_read := True\<rparr> in
        case read_limited (MaxBodyBytes (en_cfg E)) (rq_body r) of
          Inl BodyTooLarge \<Rightarrow> Inl (fail_px E (RequestBodyTooLarge '''') '''' p)
        | Inl ReadFailed \<Rightarrow> Inl (fail_px E (DecodeFailed ''could not read request body'') '''' p)
        | Inr bs \<Rightarrow> Inr (p, bs))"

definition request_selectors :: "config \<Rightarrow> request \<Rightarrow> selectors" where
  "request_selectors cfg r =
     \<lparr>profile = trim_space (h_get (rq_header r) (ProfileHeader cfg)),
      tenant = trim_space (h_get (rq_header r) (TenantHeader cfg)),
      cohort = trim_space (h_get (rq_header r) (CohortHeader cfg))\<rparr>"

definition negotiated :: "bound \<Rightarrow> px \<Rightarrow> px" where
  "negotiated c p =
     p\<lparr>px_version := c_version c, px_resp_version := c_version c, px_route := c_route c,
       px_kind := describeResolution c\<rparr>"

definition negotiate ::
  "('m, 'd) env \<Rightarrow> request \<Rightarrow> 'm contract_bundle \<Rightarrow> px \<Rightarrow> px + px \<times> bound" where
  "negotiate E r b p =
     sbind (try_px E p
              (Resolve b (rq_path r) (rq_method r)
                 (h_get (rq_header r) (ContractVersionHeader (en_cfg E)))
                 [request_selectors (en_cfg E) r]))
       (\<lambda>c. Inr (negotiated c p, c))"

text \<open>Both transform loops: from the first link of the chain to the last for the request, backwards
  for a reply.\<close>

definition request_transforms :: "('m, 'd) env \<Rightarrow> contract list \<Rightarrow> string \<Rightarrow> fault + string" where
  "request_transforms E links body =
     sfold (\<lambda>bs link. ApplyRequest (en_text E) (request_ops link) bs) body links"

definition response_transforms ::
  "('m, 'd) env \<Rightarrow> (contract \<Rightarrow> op list) \<Rightarrow> contract list \<Rightarrow> string \<Rightarrow> fault + string" where
  "response_transforms E ops links body =
     sfold (\<lambda>bs link. ApplyResponse (en_text E) (ops link) bs) body (rev links)"

fun try_fault :: "('m, 'd) env \<Rightarrow> string \<Rightarrow> px \<Rightarrow> fault + 'a \<Rightarrow> px + 'a" where
  "try_fault E tout p (Inl f) = Inl (fault_px E f tout p)"
| "try_fault E tout p (Inr x) = Inr x"

text \<open>From the decoded call to the upstream request; the terminal link of the chain names the
  target.\<close>

definition build_upstream ::
  "('m, 'd) env \<Rightarrow> request \<Rightarrow> bound \<Rightarrow> upstream_call \<Rightarrow> px \<Rightarrow> px + px \<times> up_request" where
  "build_upstream E r c call p =
     (if chain c = [] then Inl (p\<lparr>px_panic := Some ''index out of range''\<rparr>)
      else
        let p = p\<lparr>px_target := target (last (chain c))\<rparr> in
          case TargetURL (en_cfg E) (target (last (chain c))) of
            None \<Rightarrow> Inl (fail_px E (UpstreamError (''unknown backend target '' @ target (last (chain c)))) '''' p)
          | Some base \<Rightarrow>
              let url = trim_right_char CHR ''/'' base @ uc_path call @
                        (if rq_query r \<noteq> '''' then ''?'' @ rq_query r else '''');
                  hdr = forwardClientHeaders [] (rq_header r);
                  hdr = (if uc_content_type call \<noteq> '''' then h_set HeaderContentType (uc_content_type call) hdr
                         else hdr)
              in
                if \<not> en_valid_request E (uc_method call) url then
                  Inl (fail_px E (UpstreamError ''could not build upstream request'') '''' p)
                else Inr (p, \<lparr>ur_method = uc_method call, ur_url = url, ur_header = hdr, ur_body = uc_body call\<rparr>))"

definition call_upstream :: "('m, 'd) env \<Rightarrow> up_request \<Rightarrow> px \<Rightarrow> px + px \<times> up_response \<times> string" where
  "call_upstream E u p =
     (let p = p\<lparr>px_calls := px_calls p @ [u]\<rparr> in
        case en_upstream E u of
          DeadlineExceeded \<Rightarrow> Inl (fail_px E (UpstreamTimeout '''') '''' p)
        | Unreachable \<Rightarrow> Inl (fail_px E (UpstreamError ''upstream unreachable'') '''' p)
        | Reply resp \<Rightarrow>
            let p = p\<lparr>px_upstream_status := us_status resp\<rparr> in
              if \<not> snd (us_body resp) then
                Inl (fail_px E (UpstreamError ''could not read upstream response'') '''' p)
              else
                Inr (p\<lparr>px_w := (px_w p)\<lparr>rw_header := copyCORSHeaders (rw_header (px_w p)) (us_header resp)\<rparr>\<rparr>,
                     resp, fst (us_body resp)))"

text \<open>A typed reply: headers, status, body.\<close>

definition respond :: "string \<Rightarrow> int \<Rightarrow> string \<Rightarrow> px \<Rightarrow> px" where
  "respond ct status out p =
     p\<lparr>px_w := rw_write out (rw_write_header status
         (rw_set HeaderContractVersion (px_version p) (rw_set HeaderContentType ct (px_w p))))\<rparr>"

definition no_content :: "int \<Rightarrow> px \<Rightarrow> px" where
  "no_content status p =
     p\<lparr>px_w := rw_write_header status (rw_set HeaderContractVersion (px_version p) (px_w p))\<rparr>"

definition success_reply :: "('m, 'd) env \<Rightarrow> bound \<Rightarrow> int \<Rightarrow> string \<Rightarrow> px \<Rightarrow> px + px" where
  "success_reply E c status upBody p =
     sbind (try_fault E ''response'' p (response_transforms E response_ops (chain c) upBody)) (\<lambda>bs.
     sbind (try_px E p (EncodeResponse (en_codec E) (resolver_of (en_encode E)) c bs)) (\<lambda>(out, ct).
       Inr (respond ct status out p)))"

definition declared_reply :: "('m, 'd) env \<Rightarrow> bound \<Rightarrow> int \<Rightarrow> string \<Rightarrow> px \<Rightarrow> px + px" where
  "declared_reply E c status upBody p =
     sbind (try_fault E ''response'' p
              (response_transforms E (\<lambda>link. ErrorResponseOps link status) (chain c) upBody)) (\<lambda>bs.
     sbind (try_px E p (EncodeError (en_codec E) (resolver_of (en_encode E)) c status bs)) (\<lambda>(out, ct).
       Inr (respond (if ct = '''' then MediaTypeProtobuf else ct) status out p)))"

definition aid_envelope :: "up_response \<Rightarrow> string \<Rightarrow> werror" where
  "aid_envelope resp upBody =
     (let werr = UpstreamStatus (us_status resp) upBody in
        if us_status resp = 429 then WithRetryAfter (h_get (us_header resp) ''Retry-After'') werr else werr)"

text \<open>The status switch.\<close>

definition dispatch :: "('m, 'd) env \<Rightarrow> bound \<Rightarrow> up_response \<Rightarrow> string \<Rightarrow> px \<Rightarrow> px + px" where
  "dispatch E c resp upBody p =
     (let status = us_status resp in
        if 200 \<le> status \<and> status \<le> 203 then success_reply E c status upBody p
        else if status = 204 \<or> status = 205 then Inr (no_content status p)
        else if IsCapabilityCeiling status then
          Inl (fail_px E (UpstreamError (''upstream returned unsupported status '' @ itoa status)) '''' p)
        else if ErrorMessage c status \<noteq> None then declared_reply E c status upBody p
        else if strict c then
          Inl (fail_px E (UpstreamError (''upstream returned undeclared status '' @ itoa status @ '' (strict)'')) '''' p)
        else Inl (fail_px E (aid_envelope resp upBody) '''' p))"

definition pipeline :: "('m, 'd) env \<Rightarrow> request \<Rightarrow> px \<Rightarrow> px + px" where
  "pipeline E r p =
     sbind (admit E r p) (\<lambda>b.
     sbind (read_body E r p) (\<lambda>(p, body).
     sbind (negotiate E r b p) (\<lambda>(p, c).
     sbind (try_px E p (DecodeRequest (en_codec E) (resolver_of (en_decode E)) c body)) (\<lambda>call.
     sbind (try_fault E ''request'' p (request_transforms E (chain c) (uc_body call))) (\<lambda>bs.
     sbind (build_upstream E r c (call\<lparr>uc_body := bs\<rparr>) p) (\<lambda>(p, u).
     sbind (call_upstream E u p) (\<lambda>(p, resp, upBody).
       dispatch E c resp upBody p)))))))"

definition finished :: "px + px \<Rightarrow> px" where
  "finished r = (case r of Inl p \<Rightarrow> p | Inr p \<Rightarrow> p)"

text \<open>\<open>proxy\<close> on a request that is no preflight, up to its deferred function.\<close>

definition proxy_main :: "('m, 'd) env \<Rightarrow> request \<Rightarrow> px" where
  "proxy_main E r = finished (pipeline E r (px_init (en_cfg E) r))"

section \<open>Preflight\<close>

text \<open>\<open>http.Error\<close>.\<close>

definition http_error :: "string \<Rightarrow> int \<Rightarrow> response_writer \<Rightarrow> response_writer" where
  "http_error msg code w =
     rw_write (msg @ [CHR 0x0A]) (rw_write_header code
       (rw_set ''X-Content-Type-Options'' ''nosniff''
         (rw_set HeaderContentType ''text/plain; charset=utf-8'' w)))"

definition preflight_url :: "config \<Rightarrow> request \<Rightarrow> string" where
  "preflight_url cfg r =
     trim_right_char CHR ''/'' (UpstreamBaseURL cfg) @ rq_path r @
     (if rq_query r \<noteq> '''' then ''?'' @ rq_query r else '''')"

definition proxyPreflight ::
  "('m, 'd) env \<Rightarrow> request \<Rightarrow> response_writer \<Rightarrow> response_writer \<times> up_request list" where
  "proxyPreflight E r w =
     (let url = preflight_url (en_cfg E) r in
        if \<not> en_valid_request E ''OPTIONS'' url then
          (http_error ''preflight request build failed'' 502 w, [])
        else
          let u = \<lparr>ur_method = ''OPTIONS'', ur_url = url,
                   ur_header = forwardClientHeaders [] (rq_header r), ur_body = ''''\<rparr>
          in
            (case en_upstream E u of
               Reply resp \<Rightarrow>
                 let w = w\<lparr>rw_header := copyCORSHeaders (rw_header w) (us_header resp)\<rparr>;
                     allow = h_get (us_header resp) ''Allow'';
                     w = (if allow \<noteq> '''' then rw_set ''Allow'' allow w else w)
                 in (rw_write (fst (us_body resp)) (rw_write_header (us_status resp) w), [u])
             | _ \<Rightarrow> (http_error ''preflight upstream unreachable'' 502 w, [u])))"

section \<open>The deferred function\<close>

datatype log_level = LevelInfo | LevelWarn | LevelError

record log_line =
  lg_level :: log_level
  lg_version :: string
  lg_route :: string
  lg_target :: string
  lg_kind :: string
  lg_upstream_status :: int
  lg_outcome :: string

record proxy_effects =
  ef_requests :: string              \<comment> \<open>label of the one increment of \<open>wavefront_requests_total\<close>\<close>
  ef_log :: log_line
  ef_span_attrs :: "(string \<times> string) list"
  ef_span_ok :: bool

definition proxy_deferred :: "px \<Rightarrow> proxy_effects" where
  "proxy_deferred p =
     \<lparr>ef_requests = px_version p,
      ef_log = \<lparr>lg_level = (if px_outcome p = outcomeOK then LevelInfo
                           else if px_outcome p = ''transform_failed'' then LevelError else LevelWarn),
               lg_version = px_version p, lg_route = px_route p, lg_target = px_target p,
               lg_kind = px_kind p, lg_upstream_status = px_upstream_status p,
               lg_outcome = px_outcome p\<rparr>,
      ef_span_attrs = [(''contract_version'', px_version p), (''target'', px_target p),
                       (''transform_outcome'', px_tout p)],
      ef_span_ok = (px_outcome p = outcomeOK)\<rparr>"

end
