(* ===== verification/Server_Facts.thy ===== *)
theory Server_Facts
  imports Server
begin

text \<open>
  Every way through the pipeline of \<open>internal/server/http.go\<close>.  A handler that returns early at many
  places is a chain of \<open>sbind\<close>s; \<open>post I Q m\<close> says that the stage \<open>m\<close> either ends the handler in a
  state with \<open>Q\<close> or goes on with \<open>I\<close>, and composes along the chain.
\<close>

section \<open>Stages\<close>

definition post :: "('a \<Rightarrow> bool) \<Rightarrow> (px \<Rightarrow> bool) \<Rightarrow> px + 'a \<Rightarrow> bool" where
  "post I Q m = (case m of Inl q \<Rightarrow> Q q | Inr x \<Rightarrow> I x)"

lemma post_simps [simp]: "post I Q (Inl q) = Q q" "post I Q (Inr x) = I x"
  by (simp_all add: post_def)

lemma post_bind: "post I Q m \<Longrightarrow> (\<And>x. m = Inr x \<Longrightarrow> I x \<Longrightarrow> post J Q (f x)) \<Longrightarrow> post J Q (sbind m f)"
  by (cases m) auto

lemma post_finished: "post Q Q m \<Longrightarrow> Q (finished m)"
  by (cases m) (auto simp: finished_def)

section \<open>Response writers\<close>

definition fresh_writer :: "response_writer \<Rightarrow> bool" where
  "fresh_writer w =
     (rw_sent w = None \<and> \<not> rw_panicked w \<and> \<not> rw_attempted w \<and> rw_body w = '''' \<and>
      h_values (rw_header w) HeaderWavefrontError = [])"

lemma fresh_new [simp]: "fresh_writer new_writer"
  by (simp add: fresh_writer_def new_writer_def)

lemma fold_filter_add:
  "h_values (fold (\<lambda>(k, vs) d. if P k then h_add_all k vs d else d) src dst) k' =
     h_values dst k' @ concat (map snd (filter (\<lambda>(k, vs). P k \<and> canonical_key k = canonical_key k') src))"
proof (induction src arbitrary: dst)
  case (Cons e src)
  then show ?case by (cases e) (auto simp: header_simps)
qed simp

lemma cors_keeps_prefixed:
  assumes "canonical_key k = CHR ''X'' # name"
  shows "h_values (copyCORSHeaders dst src) k = h_values dst k"
proof -
  have "\<not> (k' = ''Vary'' \<or> prefix ''Access-Control-'' k')" if "canonical_key k' = canonical_key k" for k'
  proof
    assume k: "k' = ''Vary'' \<or> prefix ''Access-Control-'' k'"
    then obtain c rest where "k' = c # rest" "c = CHR ''V'' \<or> c = CHR ''A''"
      by (auto simp: prefix_def)
    moreover have "canonical_key (c # rest) \<noteq> CHR ''X'' # s" if "c = CHR ''V'' \<or> c = CHR ''A''" for s
    proof -
      have "upper_char CHR ''V'' = CHR ''V''" "upper_char CHR ''A'' = CHR ''A''" by code_simp+
      with that show ?thesis by (auto simp: canonical_key_def)
    qed
    ultimately show False using that assms by simp
  qed
  then show ?thesis
    unfolding copyCORSHeaders_def fold_filter_add by (auto simp: filter_empty_conv)
qed

lemma cors_keeps_error_header: "h_values (copyCORSHeaders dst src) HeaderWavefrontError = h_values dst HeaderWavefrontError"
  by (rule cors_keeps_prefixed) (simp add: wire_header_defs)

text \<open>What a committed reply looks like on the wire.\<close>

lemma reply_sent:
  assumes "rw_sent w = None" "\<not> rw_panicked w"
    and "\<not> rw_panicked (rw_write out (rw_write_header s w))"
  shows "sent_header (rw_write out (rw_write_header s w)) k = h_get (rw_header w) k"
  using assms
  by (auto simp: rw_write_def rw_write_header_def Let_def sent_header_def split: if_splits)

lemma set_all_values:
  "canonical_key k \<notin> canonical_key ` set (map fst h) \<Longrightarrow>
   h_values (rw_header (set_all h w)) k = h_values (rw_header w) k"
proof (induction h arbitrary: w)
  case Nil
  then show ?case by (simp add: set_all_def)
next
  case (Cons e h)
  obtain a vs where e: "e = (a, vs)" by (cases e)
  have "h_values (rw_header (fold (\<lambda>v w. rw_set a v w) vs w)) k = h_values (rw_header w) k"
    using Cons.prems by (induction vs arbitrary: w) (auto simp: e header_simps)
  moreover have "set_all (e # h) w = set_all h (fold (\<lambda>v w. rw_set a v w) vs w)"
    by (simp add: set_all_def e)
  ultimately show ?case using Cons by simp
qed

section \<open>Fresh states and answered states\<close>

definition fresh :: "nat \<Rightarrow> px \<Rightarrow> bool" where
  "fresh n p =
     (fresh_writer (px_w p) \<and> px_outcome p = outcomeOK \<and> px_errors p = [] \<and> px_panic p = None \<and>
      px_tout p = '''' \<and> length (px_calls p) = n)"

text \<open>The four ways a handler ends: a panic, a typed reply, an empty reply, an error envelope.\<close>

datatype ending =
    Panicked string
  | Typed string int string
  | Empty int
  | Envelope werror string

fun ended :: "('m, 'd) env \<Rightarrow> px \<Rightarrow> ending \<Rightarrow> px" where
  "ended E p (Panicked m) = p\<lparr>px_panic := Some m\<rparr>"
| "ended E p (Typed ct status out) = respond ct status out p"
| "ended E p (Empty status) = no_content status p"
| "ended E p (Envelope werr tout) = fail_px E werr tout p"

text \<open>Only after the one call (\<open>n = 1\<close>) does the contract answer.\<close>

fun ending_ok :: "nat \<Rightarrow> ending \<Rightarrow> bool" where
  "ending_ok n (Panicked m) = True"
| "ending_ok n (Typed ct status out) = (ct = MediaTypeProtobuf \<and> n = 1)"
| "ending_ok n (Empty status) = ((status = 204 \<or> status = 205) \<and> n = 1)"
| "ending_ok n (Envelope werr tout) = (in_error_table werr \<and> tout \<in> {'''', ''request'', ''response''})"

text \<open>\<open>answered K E q\<close>: the state \<open>q\<close> is one of the endings, of a state that nothing was written in and
  whose version labels, upstream calls and body read satisfy \<open>K\<close>.\<close>

type_synonym visible = "string \<Rightarrow> string \<Rightarrow> up_request list \<Rightarrow> bool \<Rightarrow> bool"

definition holds :: "visible \<Rightarrow> px \<Rightarrow> bool" where
  "holds K p = K (px_version p) (px_resp_version p) (px_calls p) (px_read p)"

lemma holds_updates [simp]:
  "holds K (p\<lparr>px_target := t\<rparr>) = holds K p" "holds K (p\<lparr>px_upstream_status := s\<rparr>) = holds K p"
  "holds K (p\<lparr>px_w := w\<rparr>) = holds K p"
  by (simp_all add: holds_def)

definition answered :: "visible \<Rightarrow> ('m, 'd) env \<Rightarrow> px \<Rightarrow> bool" where
  "answered K E q = (\<exists>p x n. fresh n p \<and> n \<le> 1 \<and> holds K p \<and> ending_ok n x \<and> q = ended E p x)"

lemma answeredI: "fresh n p \<Longrightarrow> n \<le> 1 \<Longrightarrow> holds K p \<Longrightarrow> ending_ok n x \<Longrightarrow> answered K E (ended E p x)"
  unfolding answered_def by blast

lemma fresh_init [simp]: "fresh 0 (px_init cfg r)"
  by (simp add: fresh_def px_init_def)

lemma fresh_updates [simp]:
  "fresh n (p\<lparr>px_read := b\<rparr>) = fresh n p" "fresh n (p\<lparr>px_target := t\<rparr>) = fresh n p"
  "fresh n (p\<lparr>px_upstream_status := s\<rparr>) = fresh n p"
  "fresh n (negotiated c p) = fresh n p"
  by (simp_all add: fresh_def negotiated_def)

lemma fresh_call: "fresh 0 p \<Longrightarrow> fresh 1 (p\<lparr>px_calls := px_calls p @ [u]\<rparr>)"
  by (simp add: fresh_def)

lemma fail_answered:
  "fresh n p \<Longrightarrow> n \<le> 1 \<Longrightarrow> holds K p \<Longrightarrow> in_error_table werr \<Longrightarrow>
   tout \<in> {'''', ''request'', ''response''} \<Longrightarrow> answered K E (fail_px E werr tout p)"
  using answeredI [of n p K "Envelope werr tout"] by simp

lemma fault_answered:
  assumes "fresh n p" "n \<le> 1" "holds K p" "tout \<in> {'''', ''request'', ''response''}"
    and "\<And>werr. f = Wire werr \<Longrightarrow> in_error_table werr"
  shows "answered K E (fault_px E f tout p)"
proof (cases f)
  case (Wire werr)
  then show ?thesis using fail_answered [OF assms(1-3) assms(5) [OF Wire] assms(4), of E] by simp
next
  case (GoPanic m)
  then show ?thesis using answeredI [OF assms(1-3), of "Panicked m" E] by simp
qed

lemma apply_body_faults:
  assumes "apply_body lib ops body request = Inl f"
  shows "(\<exists>m. f = GoPanic m) \<or> (\<exists>reason. f = fail_as request reason)"
  using assms apply_ops_faults [of lib "fail_as request" ops]
  by (auto simp: apply_body_def result_simps split: if_splits option.splits json.splits)

lemma transform_fault_table:
  assumes "apply_body lib ops body request = Inl f"
  shows "\<forall>werr. f = Wire werr \<longrightarrow> in_error_table werr"
  using apply_body_faults [OF assms] by (auto simp: fail_as_def split: if_splits)

section \<open>The stages of the pipeline\<close>

lemma try_px_post:
  assumes "fresh n p" "n \<le> 1" "holds K p" and "\<And>e. m = Inl e \<Longrightarrow> in_error_table e"
  shows "post (\<lambda>x. m = Inr x) (answered K E) (try_px E p m)"
  using assms(4) fail_answered [OF assms(1-3), of _ "''''" E] by (cases m) auto

lemma try_fault_post:
  assumes "fresh n p" "n \<le> 1" "holds K p" "tout \<in> {'''', ''request'', ''response''}"
    and "\<And>werr. m = Inl (Wire werr) \<Longrightarrow> in_error_table werr"
  shows "post (\<lambda>x. m = Inr x) (answered K E) (try_fault E tout p m)"
proof (cases m)
  case (Inl f)
  then show ?thesis using fault_answered [OF assms(1-4), of f E] assms(5) by simp
qed simp

lemma sfold_faults:
  assumes "sfold f s xs = Inl e" and "\<And>s x e. x \<in> set xs \<Longrightarrow> f s x = Inl e \<Longrightarrow> P e"
  shows "P e"
  using sfold_fails [OF assms(1)] assms(2) by blast

lemma request_transforms_table:
  assumes "request_transforms E links bs = Inl (Wire werr)"
  shows "in_error_table werr"
proof -
  have "\<forall>w. Wire werr = Wire w \<longrightarrow> in_error_table w"
    using assms unfolding request_transforms_def ApplyRequest_def
    by (rule sfold_faults) (rule transform_fault_table)
  then show ?thesis by blast
qed

lemma response_transforms_table:
  assumes "response_transforms E ops links bs = Inl (Wire werr)"
  shows "in_error_table werr"
proof -
  have "\<forall>w. Wire werr = Wire w \<longrightarrow> in_error_table w"
    using assms unfolding response_transforms_def ApplyResponse_def
    by (rule sfold_faults) (rule transform_fault_table)
  then show ?thesis by blast
qed

definition admitted :: "('m, 'd) env \<Rightarrow> request \<Rightarrow> 'm contract_bundle \<Rightarrow> bool" where
  "admitted E r b =
     (en_start E = Some b \<and> LookupRoute b (rq_path r) (rq_method r) \<noteq> None \<and>
      (hasRequestBody r \<longrightarrow> isProtobufContentType (h_get (rq_header r) HeaderContentType)) \<and>
      rq_content_length r \<le> max 0 (MaxBodyBytes (en_cfg E)))"

lemma admit_post: "fresh 0 p \<Longrightarrow> holds K p \<Longrightarrow> post (admitted E r) (answered K E) (admit E r p)"
  by (auto simp: admit_def admitted_def split: option.splits intro!: fail_answered [of 0])

lemma read_body_post:
  assumes "fresh 0 p" "holds K (p\<lparr>px_read := True\<rparr>)"
  shows "post (\<lambda>(p', bs). p' = p\<lparr>px_read := True\<rparr> \<and> rq_body r = (bs, True) \<and>
      int (length bs) \<le> MaxBodyBytes (en_cfg E)) (answered K E) (read_body E r p)"
  using assms
  by (cases "rq_body r")
    (auto simp: read_body_def Let_def read_limited_def split: sum.splits read_error.splits if_splits
      intro!: fail_answered [of 0])

definition resolved :: "('m, 'd) env \<Rightarrow> request \<Rightarrow> 'm contract_bundle \<Rightarrow> bound \<Rightarrow> bool" where
  "resolved E r b c =
     (Resolve b (rq_path r) (rq_method r) (h_get (rq_header r) (ContractVersionHeader (en_cfg E)))
        [request_selectors (en_cfg E) r] = Inr c)"

lemma negotiate_post:
  assumes "fresh 0 p" "holds K p"
  shows "post (\<lambda>(p', c). p' = negotiated c p \<and> resolved E r b c) (answered K E) (negotiate E r b p)"
  unfolding negotiate_def resolved_def
  by (rule post_bind [OF try_px_post [OF assms(1) _ assms(2)]]) (auto dest: Resolve_Inl)

text \<open>The upstream request of a contract: the URL, the method and the headers.\<close>

definition upstream_ok :: "('m, 'd) env \<Rightarrow> request \<Rightarrow> bound \<Rightarrow> up_request \<Rightarrow> bool" where
  "upstream_ok E r c u =
     (chain c \<noteq> [] \<and>
      (\<exists>base. TargetURL (en_cfg E) (target (last (chain c))) = Some base \<and>
        ur_url u = trim_right_char CHR ''/'' base @ c_route c @
          (if rq_query r \<noteq> '''' then ''?'' @ rq_query r else '''')) \<and>
      ur_method u = c_method c \<and>
      (ur_header u = forwardClientHeaders [] (rq_header r) \<or>
       ur_header u = h_set HeaderContentType ''application/json'' (forwardClientHeaders [] (rq_header r))))"

lemma DecodeRequest_Inr:
  "DecodeRequest P res c bs = Inr call \<Longrightarrow>
   uc_method call = c_method c \<and> uc_path call = c_route c \<and> uc_content_type call \<in> {'''', ''application/json''}"
  by (auto simp: DecodeRequest_def split: option.splits if_splits)

lemma build_upstream_post:
  assumes "fresh 0 p" "holds K p"
    and "uc_method call = c_method c" "uc_path call = c_route c" "uc_content_type call \<in> {'''', ''application/json''}"
  shows "post (\<lambda>(p', u). p' = p\<lparr>px_target := target (last (chain c))\<rparr> \<and> upstream_ok E r c u \<and>
      ur_body u = uc_body call) (answered K E) (build_upstream E r c call p)"
  using assms answeredI [OF assms(1) _ assms(2), of "Panicked ''index out of range''" E]
  by (auto simp: build_upstream_def upstream_ok_def Let_def split: option.splits intro!: fail_answered [of 0])

lemma call_upstream_post:
  assumes "fresh 0 p" "holds K (p\<lparr>px_calls := px_calls p @ [u]\<rparr>)"
  shows "post (\<lambda>(p', resp, bs). fresh 1 p' \<and> en_upstream E u = Reply resp \<and> us_body resp = (bs, True) \<and>
      px_calls p' = px_calls p @ [u] \<and> px_version p' = px_version p \<and>
      px_resp_version p' = px_resp_version p \<and> px_read p' = px_read p \<and>
      rw_header (px_w p') = copyCORSHeaders (rw_header (px_w p)) (us_header resp) \<and>
      px_upstream_status p' = us_status resp)
    (answered K E) (call_upstream E u p)"
  using fresh_call [OF assms(1), of u] assms(2)
  apply (auto simp: call_upstream_def Let_def split: up_reply.splits intro!: fail_answered [of 1])
   apply (simp add: fresh_def fresh_writer_def cors_keeps_error_header)
  apply (metis prod.collapse)
  done

lemma success_reply_post:
  assumes "fresh 1 p" "holds K p"
  shows "post (answered K E) (answered K E) (success_reply E c status bs p)"
  unfolding success_reply_def
proof (rule post_bind [OF try_fault_post [OF assms(1) _ assms(2)]])
  fix x
  show "post (answered K E) (answered K E)
      (sbind (try_px E p (EncodeResponse (en_codec E) (resolver_of (en_encode E)) c x))
        (\<lambda>(out, ct). Inr (respond ct status out p)))"
    by (rule post_bind [OF try_px_post [OF assms(1) _ assms(2)]])
      (use answeredI [OF assms(1) _ assms(2), of "Typed MediaTypeProtobuf status _" E] in
       \<open>auto dest: encodeMessage_Inl encodeMessage_content_type simp: EncodeResponse_def wire_header_defs MediaTypeProtobuf_def\<close>)
qed (auto dest: response_transforms_table)

lemma declared_reply_post:
  assumes "fresh 1 p" "holds K p"
  shows "post (answered K E) (answered K E) (declared_reply E c status bs p)"
  unfolding declared_reply_def
proof (rule post_bind [OF try_fault_post [OF assms(1) _ assms(2)]])
  fix x
  show "post (answered K E) (answered K E)
      (sbind (try_px E p (EncodeError (en_codec E) (resolver_of (en_encode E)) c status x))
        (\<lambda>(out, ct). Inr (respond (if ct = '''' then MediaTypeProtobuf else ct) status out p)))"
    by (rule post_bind [OF try_px_post [OF assms(1) _ assms(2)]])
      (use answeredI [OF assms(1) _ assms(2), of "Typed MediaTypeProtobuf status _" E] in
       \<open>auto dest: encodeMessage_Inl encodeMessage_content_type simp: EncodeError_def MediaTypeProtobuf_def
         split: option.splits\<close>)
qed (auto dest: response_transforms_table)

lemma aid_envelope_table: "in_error_table (aid_envelope resp bs)"
  by (simp add: aid_envelope_def Let_def)

lemma dispatch_post:
  assumes "fresh 1 p" "holds K p"
  shows "post (answered K E) (answered K E) (dispatch E c resp bs p)"
  using assms answeredI [OF assms(1) _ assms(2), of "Empty (us_status resp)" E]
  by (auto simp: dispatch_def Let_def aid_envelope_table
      intro!: success_reply_post declared_reply_post fail_answered [of 1])

text \<open>What every end of a request has in common.\<close>

definition visible_ok :: "('m, 'd) env \<Rightarrow> request \<Rightarrow> visible" where
  "visible_ok E r v rv calls read =
     ((read \<longrightarrow> (\<exists>b. admitted E r b)) \<and>
      (v = VersionUnknown \<and> rv = raw_version (en_cfg E) r \<and> calls = [] \<or>
       (\<exists>b c. admitted E r b \<and> resolved E r b c \<and> v = c_version c \<and> rv = c_version c \<and>
          (calls = [] \<or> (\<exists>u. calls = [u] \<and> upstream_ok E r c u)))))"

text \<open>The pipeline from the negotiated contract on.\<close>

definition forward :: "('m, 'd) env \<Rightarrow> request \<Rightarrow> bound \<Rightarrow> string \<Rightarrow> px \<Rightarrow> px + px" where
  "forward E r c body p =
     sbind (try_px E p (DecodeRequest (en_codec E) (resolver_of (en_decode E)) c body)) (\<lambda>call.
     sbind (try_fault E ''request'' p (request_transforms E (chain c) (uc_body call))) (\<lambda>bs.
     sbind (build_upstream E r c (call\<lparr>uc_body := bs\<rparr>) p) (\<lambda>(p, u).
     sbind (call_upstream E u p) (\<lambda>(p, resp, upBody).
       dispatch E c resp upBody p))))"

lemma pipeline_forward:
  "pipeline E r p =
     sbind (admit E r p) (\<lambda>b. sbind (read_body E r p) (\<lambda>(p, body).
       sbind (negotiate E r b p) (\<lambda>(p, c). forward E r c body p)))"
  unfolding pipeline_def forward_def by (rule refl)

lemma forward_answered:
  assumes bc: "admitted E r b" "resolved E r b c"
    and p: "fresh 0 p" "holds (visible_ok E r) p" "px_calls p = []" "px_version p = c_version c"
      "px_resp_version p = c_version c"
  shows "post (answered (visible_ok E r) E) (answered (visible_ok E r) E) (forward E r c body p)"
  unfolding forward_def
proof (rule post_bind [OF try_px_post [OF p(1) _ p(2)]], goal_cases)
  case (3 call)
  note call = DecodeRequest_Inr [OF 3(2)]
  show ?case
  proof (rule post_bind [OF try_fault_post [OF p(1) _ p(2)]], goal_cases)
    case (4 bs)
    show ?case
    proof (rule post_bind [OF build_upstream_post [OF p(1,2)]], goal_cases)
      case (4 z)
      then obtain u where z: "z = (p\<lparr>px_target := target (last (chain c))\<rparr>, u)" and u: "upstream_ok E r c u"
        by auto
      show ?case unfolding z prod.case
      proof (rule post_bind [OF call_upstream_post], goal_cases)
        case 2
        show ?case using p bc u by (auto simp: holds_def visible_ok_def)
      next
        case (3 w)
        then obtain p' resp bs' where w: "w = (p', resp, bs')" "fresh 1 p'"
          "px_calls p' = [u]" "px_version p' = c_version c" "px_resp_version p' = c_version c"
          using p by auto
        have "holds (visible_ok E r) p'" using w u bc by (auto simp: holds_def visible_ok_def)
        with w show ?case by (auto intro: dispatch_post)
      qed (use p(1) in simp)
    qed (use call in auto)
  qed (auto dest: request_transforms_table)
qed (auto dest: DecodeRequest_Inl)

lemma pipeline_answered:
  assumes "fresh 0 p" "holds (visible_ok E r) p" "px_version p = VersionUnknown"
    "px_resp_version p = raw_version (en_cfg E) r" "px_calls p = []"
  shows "post (answered (visible_ok E r) E) (answered (visible_ok E r) E) (pipeline E r p)"
  unfolding pipeline_forward
proof (rule post_bind [OF admit_post [OF assms(1,2)]], goal_cases)
  case (1 b)
  then have b: "admitted E r b" by simp
  show ?case
  proof (rule post_bind [OF read_body_post [OF assms(1)]], goal_cases)
    case 1
    show ?case using b assms by (auto simp: holds_def visible_ok_def)
  next
    case (2 x)
    then obtain body where x: "x = (p\<lparr>px_read := True\<rparr>, body)" by auto
    let ?p = "p\<lparr>px_read := True\<rparr>"
    have p: "fresh 0 ?p" "holds (visible_ok E r) ?p"
      using b assms by (auto simp: holds_def visible_ok_def)
    show ?case unfolding x prod.case
    proof (rule post_bind [OF negotiate_post [OF p]], goal_cases)
      case (1 y)
      then obtain c where y: "y = (negotiated c ?p, c)" and c: "resolved E r b c" by auto
      have "px_calls (negotiated c ?p) = []" "px_version (negotiated c ?p) = c_version c"
        "px_resp_version (negotiated c ?p) = c_version c"
        using assms(5) by (auto simp: negotiated_def)
      moreover from this have "holds (visible_ok E r) (negotiated c ?p)"
        using b c by (auto simp: holds_def visible_ok_def)
      moreover have "fresh 0 (negotiated c ?p)" using p(1) by simp
      ultimately show ?case unfolding y prod.case by (intro forward_answered [OF b c])
    qed
  qed
qed

lemma proxy_main_answered: "answered (visible_ok E r) E (proxy_main E r)"
  unfolding proxy_main_def
  by (rule post_finished, rule pipeline_answered)
    (simp_all add: px_init_def holds_def visible_ok_def fresh_def)

end
