(* ===== verification/Server_Handler.thy ===== *)
theory Server_Handler
  imports Server_Facts
begin

text \<open>
  \<open>internal/server/recover.go\<close> and \<open>server.go\<close>: the data-plane handler around the pipeline, what the
  panic middleware makes of a panic, and the operations on the live bundle pointer.
\<close>

section \<open>Recover\<close>

text \<open>A panic carries either the sentinel \<open>http.ErrAbortHandler\<close> or some other value.\<close>

datatype go_panic = AbortHandler | PanicValue string

record handled =
  hd_w :: response_writer
  hd_errors :: "(string \<times> string \<times> string) list"
  hd_calls :: "up_request list"
  hd_panic :: "go_panic option"
  hd_effects :: "proxy_effects option"

definition px_panicked :: "px \<Rightarrow> go_panic option" where
  "px_panicked p =
     (case px_panic p of
        Some m \<Rightarrow> Some (PanicValue m)
      | None \<Rightarrow> if rw_panicked (px_w p) then Some (PanicValue ''invalid WriteHeader code'') else None)"

text \<open>\<open>proxy\<close> with its deferred function, which also runs while a panic unwinds.\<close>

definition proxy :: "('m, 'd) env \<Rightarrow> request \<Rightarrow> handled" where
  "proxy E r =
     (if isCORSPreflight r then
        (case proxyPreflight E r new_writer of (w, calls) \<Rightarrow>
           \<lparr>hd_w = w, hd_errors = [], hd_calls = calls,
            hd_panic = (if rw_panicked w then Some (PanicValue ''invalid WriteHeader code'') else None),
            hd_effects = None\<rparr>)
      else
        let p = proxy_main E r in
          \<lparr>hd_w = px_w p, hd_errors = px_errors p, hd_calls = px_calls p, hd_panic = px_panicked p,
           hd_effects = Some (proxy_deferred p)\<rparr>)"

text \<open>\<open>Recover\<close>: \<open>rw_attempted\<close> is the tracker's flag \<open>wrote\<close>, which \<open>WriteHeader\<close> sets before it
  checks the status.\<close>

definition Recover :: "('m, 'd) env \<Rightarrow> (request \<Rightarrow> handled) \<Rightarrow> request \<Rightarrow> handled" where
  "Recover E next r =
     (let h = next r in
        case hd_panic h of
          None \<Rightarrow> h
        | Some AbortHandler \<Rightarrow> h
        | Some (PanicValue v) \<Rightarrow>
            let werr = InternalError '''';
                h = h\<lparr>hd_panic := None, hd_errors := hd_errors h @ [(we_code werr, VersionUnknown, '''')]\<rparr>
            in
              if rw_attempted (hd_w h) then h
              else h\<lparr>hd_w := wire_write (en_error_pb E) werr (raw_version (en_cfg E) r) (hd_w h)\<rparr>)"

text \<open>\<open>DataHandler\<close>, and the response \<open>net/http\<close> completes when the handler returns.\<close>

definition DataHandler :: "('m, 'd) env \<Rightarrow> request \<Rightarrow> handled" where
  "DataHandler E r = Recover E (proxy E) r"

definition serve :: "('m, 'd) env \<Rightarrow> request \<Rightarrow> response_writer option" where
  "serve E r =
     (let h = DataHandler E r in if hd_panic h = None then Some (rw_finish (hd_w h)) else None)"

section \<open>The live bundle\<close>

record 'm server =
  sv_cfg :: config
  sv_bundle :: "'m contract_bundle option"

definition SetBundle :: "'m contract_bundle \<Rightarrow> 'm server \<Rightarrow> 'm server" where
  "SetBundle b s = s\<lparr>sv_bundle := Some b\<rparr>"

text \<open>\<open>root\<close> is what is at the configured bundle path when it is read.\<close>

definition ReloadBundle ::
  "('x, 'm) codecs \<Rightarrow> node option \<Rightarrow> 'm server \<Rightarrow> load_error option \<times> 'm server" where
  "ReloadBundle L root s =
     (case Load L (BundlePath (sv_cfg s)) root of
        Inl err \<Rightarrow> (Some err, s)
      | Inr b \<Rightarrow> (None, s\<lparr>sv_bundle := Some b\<rparr>))"

definition server_message :: "'m server \<Rightarrow> 'm resolver" where
  "server_message s n = (case sv_bundle s of None \<Rightarrow> None | Some b \<Rightarrow> Message b n)"

definition ready :: "'m server \<Rightarrow> response_writer \<Rightarrow> response_writer" where
  "ready s w =
     (let w = rw_set HeaderContentType ''text/plain; charset=utf-8'' w in
        if sv_bundle s = None then rw_write ''not ready'' (rw_write_header 503 w)
        else rw_write ''ready'' w)"

definition health :: "response_writer \<Rightarrow> response_writer" where
  "health w = rw_write ''ok'' (rw_set HeaderContentType ''text/plain; charset=utf-8'' w)"

section \<open>Reading an ending\<close>

lemma answered_cases:
  assumes "answered K E q"
  obtains (panicked) p n m where "fresh n p" "n \<le> 1" "holds K p" "q = p\<lparr>px_panic := Some m\<rparr>"
  | (typed) p status out where "fresh 1 p" "holds K p"
      "q = respond MediaTypeProtobuf status out p"
  | (empty) p status where "fresh 1 p" "holds K p" "status = 204 \<or> status = 205"
      "q = no_content status p"
  | (envelope) p n werr tout where "fresh n p" "n \<le> 1" "holds K p" "in_error_table werr"
      "tout \<in> {'''', ''request'', ''response''}" "q = fail_px E werr tout p"
proof -
  from assms obtain p x n where q: "fresh n p" "n \<le> 1" "holds K p" "ending_ok n x" "q = ended E p x"
    unfolding answered_def by blast
  show thesis
  proof (cases x)
    case (Panicked m)
    with q panicked show thesis by simp
  next
    case (Typed ct status out)
    with q typed show thesis by simp
  next
    case (Empty status)
    with q show thesis by (intro empty [of p status]) simp_all
  next
    case (Envelope werr tout)
    with q show thesis by (intro envelope [of n p werr tout]) simp_all
  qed
qed

lemma answered_frame:
  assumes "answered K E q"
  shows "K (px_version q) (px_resp_version q) (px_calls q) (px_read q)"
  using assms by (cases rule: answered_cases)
    (auto simp: holds_def respond_def no_content_def fail_px_def writeError_def)

lemma proxy_visible: "visible_ok E r (px_version (proxy_main E r)) (px_resp_version (proxy_main E r))
    (px_calls (proxy_main E r)) (px_read (proxy_main E r))"
  using answered_frame [OF proxy_main_answered] .

lemma error_header_not_version [simp]:
  "HeaderWavefrontError \<noteq> HeaderContractVersion" "HeaderContractVersion \<noteq> HeaderWavefrontError"
  by (simp_all add: wire_header_defs)

lemma wire_write_headers:
  assumes "fresh_writer w" "\<not> rw_panicked (wire_write pm e v w)"
  shows "sent_header (wire_write pm e v w) HeaderWavefrontError = we_code e"
    and "sent_header (wire_write pm e v w) HeaderContractVersion = (if v = '''' then VersionUnknown else v)"
proof -
  let ?w = "rw_set HeaderContractVersion (if v = '''' then VersionUnknown else v)
         (rw_set HeaderWavefrontError (we_code e) (set_all (Headers e) w))"
  have "rw_sent ?w = None" "\<not> rw_panicked ?w" using assms(1) by (auto simp: fresh_writer_def)
  note * = reply_sent [OF this, of "ProtoBody pm e" "we_status e"]
  show "sent_header (wire_write pm e v w) HeaderWavefrontError = we_code e"
    "sent_header (wire_write pm e v w) HeaderContractVersion = (if v = '''' then VersionUnknown else v)"
    using * assms(2) unfolding wire_write_alt by (simp_all add: header_simps wire_header_defs)
qed

section \<open>An edge with the two-version bundle\<close>

definition edge_config :: config where
  "edge_config = \<lparr>BundlePath = ''/bundle'', UpstreamBaseURL = ''http://up/'',
     Targets = [(''http://blue'', ''http://blue'')], ListenAddr = '''', MetricsAddr = '''',
     ContractVersionHeader = ''X-Wavefront-Contract-Version'', ProfileHeader = ''X-Wavefront-Profile'',
     TenantHeader = ''X-Wavefront-Tenant'', CohortHeader = ''X-Wavefront-Cohort'', RequestTimeout = 0,
     ReadHeaderTimeout = 0, ReadTimeout = 0, MaxBodyBytes = 64, LogLevel = 0, TracesEndpoint = '''',
     TracesServiceName = '''', TracesSampleRatio = 0\<rparr>"

definition edge_env :: "up_reply \<Rightarrow> (string, string) env" where
  "edge_env reply = \<lparr>en_cfg = edge_config, en_start = Some demo_bundle, en_decode = Some demo_bundle,
     en_encode = Some demo_bundle, en_codec = echo_codec, en_text = no_text,
     en_error_pb = \<lambda>code msg. code, en_valid_request = \<lambda>m u. True, en_upstream = \<lambda>u. reply\<rparr>"

definition edge_reply :: "int \<Rightarrow> up_reply" where
  "edge_reply status = Reply \<lparr>us_status = status, us_header = [(''Vary'', [''Origin''])], us_body = (''{}'', True)\<rparr>"

definition edge_request :: "string \<Rightarrow> request" where
  "edge_request v = \<lparr>rq_method = ''POST'', rq_path = ''/orders'', rq_query = ''q=1'',
     rq_header = [(''Content-Type'', [''application/protobuf'']), (''Connection'', ['' x-drop, close'']),
                  (''X-Drop'', [''1'']), (''X-Keep'', [''2'']), (''X-Wavefront-Contract-Version'', [v])],
     rq_content_length = 2, rq_transfer_encoding = [], rq_body = (''{}'', True)\<rparr>"

end
