(* ===== verification/Probe.thy ===== *)
theory Probe
  imports Go_Flag Server_Handler
begin

text \<open>
  The container self-probe: \<open>internal/probe/probe.go\<close> and \<open>cmd/wavefront/probe.go\<close>.

  \<open>get\<close> is an HTTP client with a timeout (in nanoseconds): from a URL to an error or the status of the
  answer it ends up with.
\<close>

section \<open>Definitions\<close>

type_synonym http_get = "string \<Rightarrow> int \<Rightarrow> string + int"

text \<open>\<open>net.JoinHostPort\<close>.\<close>

definition JoinHostPort :: "string \<Rightarrow> string \<Rightarrow> string" where
  "JoinHostPort host port =
     (if CHR '':'' \<in> set host then ''['' @ host @ '']:'' @ port else host @ '':'' @ port)"

definition dialableHostPort :: "string \<Rightarrow> string" where
  "dialableHostPort addr =
     (case SplitHostPort addr of
        Inl err \<Rightarrow> addr
      | Inr (host, port) \<Rightarrow>
          if host = '''' \<or> host = ''0.0.0.0'' \<or> host = ''::'' then JoinHostPort ''127.0.0.1'' port else addr)"

text \<open>\<open>None\<close>: no error.\<close>

definition Ready :: "http_get \<Rightarrow> string \<Rightarrow> int \<Rightarrow> string option" where
  "Ready get addr timeout =
     (case get (''http://'' @ dialableHostPort addr @ ''/ready'') timeout of
        Inl err \<Rightarrow> Some err
      | Inr status \<Rightarrow> if status \<noteq> 200 then Some (''/ready returned '' @ itoa status) else None)"

definition probeTimeout :: int where "probeTimeout = 2000000000"

definition probe_flags :: flag_set where
  "probe_flags = \<lparr>fs_name = ''probe'', fs_flags =
     [\<lparr>fl_name = ''ready'', fl_kind = BoolFlag, fl_usage = ''probe the ops listener's /ready endpoint''\<rparr>]\<rparr>"

text \<open>What \<open>runProbe\<close> writes to standard error, and the exit status.\<close>

definition runProbe :: "http_get \<Rightarrow> (string \<Rightarrow> string option) \<Rightarrow> string list \<Rightarrow> string \<times> int" where
  "runProbe get env args =
     (case Parse probe_flags args of
        Inl e \<Rightarrow> (flag_output probe_flags e, 2)
      | Inr (vals, rest) \<Rightarrow>
          if \<not> bool_flag vals ''ready'' \<or> rest \<noteq> [] then (''usage: wavefront probe --ready'' @ [CHR 0x0A], 2)
          else
            (case Ready get (OpsAddr env) probeTimeout of
               Some err \<Rightarrow> (''probe: '' @ err @ [CHR 0x0A], 1)
             | None \<Rightarrow> ('''', 0)))"

section \<open>Addresses\<close>

lemma index_of_append: "c \<notin> set xs \<Longrightarrow> index_of c (xs @ c # ys) = Some (length xs)"
  by (induction xs) auto

lemma index_of_take: "index_of c s = Some j \<Longrightarrow> j < length s \<and> c \<notin> set (take j s)"
  by (induction s arbitrary: j) (auto split: if_splits)

lemma last_index_drop:
  assumes "last_index_of c s = Some i"
  shows "c \<notin> set (drop (i + 1) s)" and "i < length s"
proof -
  obtain j where j: "index_of c (rev s) = Some j" "i = length s - 1 - j"
    using assms by (auto simp: last_index_of_def)
  have "j < length s" "c \<notin> set (take j (rev s))" using index_of_take [OF j(1)] by auto
  moreover from this(1) have "drop (i + 1) s = rev (take j (rev s))" by (simp add: j(2) take_rev Suc_diff_Suc)
  ultimately show "c \<notin> set (drop (i + 1) s)" "i < length s" by (auto simp: j(2))
qed

lemma index_of_prefix: "prefix [d] s \<Longrightarrow> d \<noteq> c \<Longrightarrow> index_of c s = Some e \<Longrightarrow> 0 < e"
  by (cases s) auto

lemma SplitHostPort_port:
  assumes "SplitHostPort s = Inr (host, port)"
  shows "CHR '':'' \<notin> set port" "CHR ''['' \<notin> set port" "CHR '']'' \<notin> set port"
proof -
  obtain i where i: "last_index_of CHR '':'' s = Some i"
    using assms by (auto simp: SplitHostPort_def split: option.splits)
  obtain j k h where r: "split_rest s j k h i = Inr (host, port)" "j \<le> i" "k \<le> i"
    using assms index_of_prefix [of "CHR ''[''" s "CHR '']''"]
    by (fastforce simp: SplitHostPort_def i split: option.splits if_splits)
  then have port: "port = drop (i + 1) s" "CHR ''['' \<notin> set (drop j s)" "CHR '']'' \<notin> set (drop k s)"
    by (auto simp: split_rest_def split: if_splits)
  then show "CHR '':'' \<notin> set port" using last_index_drop(1) [OF i] by simp
  show "CHR ''['' \<notin> set port" "CHR '']'' \<notin> set port"
    using port r(2,3) set_drop_subset_set_drop [of j "i + 1" s] set_drop_subset_set_drop [of k "i + 1" s] by auto
qed

lemma Split_loopback:
  assumes "CHR '':'' \<notin> set port" "CHR ''['' \<notin> set port" "CHR '']'' \<notin> set port"
  shows "SplitHostPort (''127.0.0.1:'' @ port) = Inr (''127.0.0.1'', port)"
proof -
  have "index_of CHR '':'' (rev (''127.0.0.1:'' @ port)) = Some (length port)"
    using index_of_append [of "CHR '':''" "rev port" "''1.0.0.721''"] assms(1) by simp
  then have "last_index_of CHR '':'' (''127.0.0.1:'' @ port) = Some 9" by (simp add: last_index_of_def)
  then show ?thesis using assms(2,3) by (simp add: SplitHostPort_def split_rest_def)
qed

text \<open>A wildcard host is dialled at loopback with the port unchanged; any other address as it is.\<close>

lemma dialable_cases:
  assumes "SplitHostPort addr = Inr (host, port)"
  shows "dialableHostPort addr =
      (if host \<in> {'''', ''0.0.0.0'', ''::''} then ''127.0.0.1:'' @ port else addr)"
    and "\<exists>host'. SplitHostPort (dialableHostPort addr) = Inr (host', port) \<and> host' \<notin> {'''', ''0.0.0.0'', ''::''}"
  using Split_loopback [OF SplitHostPort_port [OF assms]]
  by (auto simp: dialableHostPort_def JoinHostPort_def assms)

section \<open>The probe and the server\<close>

definition ready_status :: "'m server \<Rightarrow> int" where
  "ready_status s = the (sent_status (rw_finish (ready s new_writer)))"

lemma ready_status_eq: "ready_status s = (if sv_bundle s = None then 503 else 200)"
  by (simp add: ready_status_def ready_def sent_status_def rw_finish_def rw_write_def rw_write_header_def
      rw_set_def new_writer_def body_allowed_def Let_def)

text \<open>C40. \<open>wavefront probe --ready\<close> in the environment the server was configured from dials the ops
  listener: a wildcard host is replaced by loopback, the port is the configured one.  When what answers
  there is the server, the exit status is 0 exactly when it has a bundle, and 1 otherwise.\<close>

theorem probe_exact:
  assumes "load_config lib env = Inr cfg" and "SplitHostPort (MetricsAddr cfg) = Inr (host, port)"
    and "get (''http://'' @ (if host \<in> {'''', ''0.0.0.0'', ''::''} then ''127.0.0.1:'' @ port else MetricsAddr cfg)
              @ ''/ready'') probeTimeout = Inr (ready_status s)"
  shows "snd (runProbe get env [''--ready'']) = (if sv_bundle s = None then 1 else 0)"
proof -
  have "OpsAddr env = MetricsAddr cfg"
    using assms(1) by (rule ops_addr_configured)
  then have "Ready get (OpsAddr env) probeTimeout = None \<longleftrightarrow> sv_bundle s \<noteq> None"
    using assms(3) by (simp add: Ready_def dialable_cases(1) [OF assms(2)] ready_status_eq)
  moreover have "Parse probe_flags [''--ready''] = Inr ([''ready'' \<mapsto> FBool True], [])"
    using parse_flags_settings [of probe_flags "[Switch True ''ready'']" "[]" Map.empty]
    by (simp add: Parse_def dashes_def has_flag_def plain_name_def lookup_flag_def probe_flags_def
        parse_flags_positional positional_def)
  ultimately show ?thesis
    by (auto simp: runProbe_def bool_flag_def split: option.split)
qed

text \<open>Anything but \<open>--ready\<close> alone is a usage error: status 2, and nothing is dialled.\<close>

lemma probe_usage:
  assumes "\<And>vals. Parse probe_flags args \<noteq> Inr (vals, [])"
  shows "\<exists>msg. \<forall>get. runProbe get env args = (msg, 2)"
  using assms by (cases "Parse probe_flags args") (auto simp: runProbe_def split: prod.split)

theorem probe_exact_witness:
  "\<forall>s :: unit server. snd (runProbe (\<lambda>url t. if url = ''http://127.0.0.1:9191/ready'' then Inr (ready_status s) else Inl ''refused'')
     demo_env [''--ready'']) = (if sv_bundle s = None then 1 else 0)"
proof
  fix s :: "unit server"
  have addr: "MetricsAddr demo_config = ''127.0.0.1:9191''"
  proof -
    have "OpsAddr demo_env = ''127.0.0.1:9191''" by code_simp
    with ops_addr_configured [OF demo_config_loads] show ?thesis by simp
  qed
  have "SplitHostPort (MetricsAddr demo_config) = Inr (''127.0.0.1'', ''9191'')"
    unfolding addr by code_simp
  then show "snd (runProbe (\<lambda>url t. if url = ''http://127.0.0.1:9191/ready'' then Inr (ready_status s) else Inl ''refused'')
     demo_env [''--ready'']) = (if sv_bundle s = None then 1 else 0)"
    by (rule probe_exact [OF demo_config_loads]) (simp add: addr)
qed

end
