(* ===== verification/Server_Properties.thy ===== *)
theory Server_Properties
  imports Server_Handler
begin

text \<open>
  The properties of the data plane: what every response carries, when and where the one upstream
  call goes, how the upstream's status is shaped, what reaches the upstream's headers, and what
  happens to a panic and to a request that overlaps a reload.
\<close>

section \<open>Lemmas\<close>

lemma px_panicked_None: "px_panicked p = None \<longleftrightarrow> px_panic p = None \<and> \<not> rw_panicked (px_w p)"
  by (auto simp: px_panicked_def split: option.splits)

lemma raw_version_ne [simp]: "raw_version cfg r \<noteq> ''''"
  by (simp add: raw_version_def Let_def VersionUnknown_def)

lemma fresh_header: "fresh_writer w \<Longrightarrow> h_get (rw_header w) HeaderWavefrontError = ''''"
  by (simp add: fresh_writer_def h_get_def)

lemma typed_headers:
  assumes "fresh_writer w" and "\<not> rw_panicked (rw_write out (rw_write_header s
      (rw_set HeaderContractVersion v (rw_set HeaderContentType ct w))))" (is "\<not> rw_panicked ?r")
  shows "sent_header ?r HeaderWavefrontError = ''''" and "sent_header ?r HeaderContractVersion = v"
proof -
  let ?w = "rw_set HeaderContractVersion v (rw_set HeaderContentType ct w)"
  have "rw_sent ?w = None" "\<not> rw_panicked ?w" using assms(1) by (auto simp: fresh_writer_def)
  note * = reply_sent [OF this assms(2)]
  show "sent_header ?r HeaderWavefrontError = ''''" "sent_header ?r HeaderContractVersion = v"
    unfolding * using fresh_header [OF assms(1)] by (simp_all add: header_simps wire_header_defs)
qed

lemma empty_headers:
  assumes "fresh_writer w" and "s = 204 \<or> s = 205"
  shows "sent_header (rw_write_header s (rw_set HeaderContractVersion v w)) HeaderWavefrontError = ''''"
    and "sent_header (rw_write_header s (rw_set HeaderContractVersion v w)) HeaderContractVersion = v"
    and "sent_status (rw_write_header s (rw_set HeaderContractVersion v w)) = Some s"
    and "rw_body (rw_write_header s (rw_set HeaderContractVersion v w)) = ''''"
  using assms fresh_header [OF assms(1)]
  by (auto simp: rw_write_header_def Let_def sent_header_def sent_status_def fresh_writer_def
      header_simps wire_header_defs)

lemma resolved_version:
  assumes "Load L dir root = Inr b" and "resolved E r b c"
  shows "c_version c \<in> set (Versions b) \<and> c_version c \<noteq> ''''"
proof -
  have ok: "bundle_ok L b" using assms(1) by (rule Load_ok)
  from assms(2) obtain v path meth sels where l: "Lookup b path meth v sels = Some c" "v \<noteq> ''''"
    by (auto simp: resolved_def Resolve_Inr)
  from Lookup_bound_ok [OF ok l(1)] have "c_version c = v" by (simp add: contract_key_of_def)
  moreover have "v \<in> set (Versions b)"
    using l(1) ok keys_index [of "contracts b"]
    by (auto simp: Lookup_def Versions_def bundle_ok_def map_of_index split: option.splits if_splits)
  ultimately show ?thesis using l(2) by simp
qed

text \<open>The labels an ending leaves.\<close>

definition labelled :: "px \<Rightarrow> bool" where
  "labelled q =
     (sent_header (px_w q) HeaderWavefrontError = (if px_outcome q = outcomeOK then '''' else px_outcome q) \<and>
      (px_outcome q = outcomeOK \<longleftrightarrow> px_errors q = []) \<and>
      (px_outcome q \<noteq> outcomeOK \<longrightarrow>
         px_errors q = [(px_outcome q, px_version q, px_tout q)] \<and>
         (px_outcome q \<in> fst ` set documented_errors \<or> px_outcome q = codeUpstreamStatus)) \<and>
      sent_header (px_w q) HeaderContractVersion = px_resp_version q)"

lemma error_codes:
  assumes "in_error_table e"
  shows "we_code e \<noteq> outcomeOK" "we_code e \<in> fst ` set documented_errors \<or> we_code e = codeUpstreamStatus"
  using assms by (auto simp: in_error_table_def documented_errors_def code_defs outcomeOK_def)

lemma typed_labelled:
  assumes "fresh 1 p" "px_resp_version p = px_version p" "\<not> rw_panicked (px_w (respond ct status out p))"
  shows "labelled (respond ct status out p)"
proof -
  have w: "fresh_writer (px_w p)" "px_outcome p = outcomeOK" "px_errors p = []"
    using assms(1) by (simp_all add: fresh_def)
  note h = typed_headers [OF w(1), of out status "px_version p" ct]
  show ?thesis using h w(2,3) assms(2,3) by (simp add: labelled_def respond_def)
qed

lemma empty_labelled:
  assumes "fresh 1 p" "px_resp_version p = px_version p" "status = 204 \<or> status = 205"
  shows "labelled (no_content status p)"
proof -
  have w: "fresh_writer (px_w p)" "px_outcome p = outcomeOK" "px_errors p = []"
    using assms(1) by (simp_all add: fresh_def)
  note h = empty_headers(1,2) [OF w(1) assms(3), of "px_version p"]
  show ?thesis using h w(2,3) assms(2) by (simp add: labelled_def no_content_def)
qed

lemma envelope_labelled:
  assumes "fresh n p" "in_error_table e" "px_resp_version p \<noteq> ''''"
    "\<not> rw_panicked (px_w (fail_px E e tout p))"
  shows "labelled (fail_px E e tout p)"
proof -
  have w: "fresh_writer (px_w p)" "px_errors p = []" using assms(1) by (simp_all add: fresh_def)
  note h = wire_write_headers [OF w(1), of "en_error_pb E" e "px_resp_version p"]
  show ?thesis using h w(2) assms(3,4) error_codes [OF assms(2)]
    by (simp add: labelled_def fail_px_def writeError_def)
qed

lemma version_bounded:
  assumes "Load L dir root = Inr b" and "en_start E = Some b"
  shows "px_version (proxy_main E r) = VersionUnknown \<and> px_resp_version (proxy_main E r) = raw_version (en_cfg E) r \<or>
    px_version (proxy_main E r) \<in> set (Versions b) \<and> px_version (proxy_main E r) \<noteq> '''' \<and>
      px_resp_version (proxy_main E r) = px_version (proxy_main E r)"
proof -
  let ?q = "proxy_main E r"
  have vis: "visible_ok E r (px_version ?q) (px_resp_version ?q) (px_calls ?q) (px_read ?q)"
    by (rule proxy_visible)
  then consider "px_version ?q = VersionUnknown" "px_resp_version ?q = raw_version (en_cfg E) r"
    | b' c where "admitted E r b'" "resolved E r b' c" "px_version ?q = c_version c"
      "px_resp_version ?q = c_version c"
    by (auto simp: visible_ok_def)
  then show ?thesis
  proof cases
    case (2 b' c)
    then have "b' = b" using assms(2) by (simp add: admitted_def)
    with 2 have "resolved E r b c" by simp
    from resolved_version [OF assms(1) this] 2 show ?thesis by simp
  qed simp
qed

section \<open>Properties\<close>

text \<open>C15. Every answer to a contract request (no preflight) whose handling does not panic is labelled.
  What is sent carries \<open>X-Wavefront-Error\<close> exactly when wavefront, not the contract, answers, and it is
  then the code of the error table that is logged and counted (once); \<open>X-Wavefront-Contract-Version\<close> is
  on it and never empty: the negotiated version, or before negotiation the client's own header or
  \<open>unknown\<close>; and the metric label stays within the bundle's versions and \<open>unknown\<close>.  What a preflight
  and a panic are answered with is the subject of properties of their own.\<close>

theorem response_labels:
  assumes "Load L dir root = Inr b" and "en_start E = Some b"
    and "\<not> isCORSPreflight r" and "px_panicked (proxy_main E r) = None"
  shows "let p = proxy_main E r; h = DataHandler E r; w = hd_w h in
    serve E r = Some (rw_finish w) \<and> hd_errors h = px_errors p \<and> hd_effects h = Some (proxy_deferred p) \<and>
    sent_header w HeaderWavefrontError = (if px_outcome p = outcomeOK then '''' else px_outcome p) \<and>
    (px_outcome p = outcomeOK \<longleftrightarrow> px_errors p = []) \<and>
    (px_outcome p \<noteq> outcomeOK \<longrightarrow>
       px_errors p = [(px_outcome p, px_version p, px_tout p)] \<and>
       (px_outcome p \<in> fst ` set documented_errors \<or> px_outcome p = codeUpstreamStatus)) \<and>
    sent_header w HeaderContractVersion =
      (if px_version p = VersionUnknown then px_resp_version p else px_version p) \<and>
    sent_header w HeaderContractVersion \<noteq> '''' \<and>
    px_version p \<in> insert VersionUnknown (set (Versions b))"
proof -
  let ?q = "proxy_main E r"
  have ver: "px_version ?q = VersionUnknown \<and> px_resp_version ?q = raw_version (en_cfg E) r \<or>
      px_version ?q \<in> set (Versions b) \<and> px_version ?q \<noteq> '''' \<and> px_resp_version ?q = px_version ?q"
    using version_bounded [OF assms(1,2)] .
  then have ne: "px_resp_version ?q \<noteq> ''''"
    by auto
  have negotiated: "px_resp_version p = px_version p" if "fresh 1 p" "holds (visible_ok E r) p" for p
    using that by (auto simp: fresh_def holds_def visible_ok_def)
  have np: "px_panic ?q = None" "\<not> rw_panicked (px_w ?q)" using assms(4) by (simp_all add: px_panicked_None)
  have h: "DataHandler E r = \<lparr>hd_w = px_w ?q, hd_errors = px_errors ?q, hd_calls = px_calls ?q, hd_panic = None,
      hd_effects = Some (proxy_deferred ?q)\<rparr>"
    using assms(3,4) by (simp add: DataHandler_def Recover_def proxy_def Let_def)
  have "labelled ?q"
    using proxy_main_answered [of E r]
  proof (cases rule: answered_cases)
    case (panicked p n m)
    then show ?thesis using np(1) by simp
  next
    case (typed p status out)
    then show ?thesis using np(2) typed_labelled negotiated by metis
  next
    case (empty p status)
    then show ?thesis using empty_labelled negotiated by metis
  next
    case (envelope p n werr tout)
    have "px_resp_version p = px_resp_version ?q" by (simp add: envelope(6) fail_px_def writeError_def)
    with ne envelope np(2) show ?thesis using envelope_labelled by metis
  qed
  moreover have "px_resp_version ?q = (if px_version ?q = VersionUnknown then px_resp_version ?q else px_version ?q)"
    using ver by auto
  moreover have "px_version ?q \<in> insert VersionUnknown (set (Versions b))"
    using ver by auto
  moreover have "serve E r = Some (rw_finish (px_w ?q))" by (simp add: serve_def h)
  ultimately show ?thesis
    using ne unfolding Let_def labelled_def h handled.select_convs
    by (elim conjE, intro conjI) (assumption | rule trans, assumption, assumption | metis)+
qed

lemma edge_env_simps [simp]:
  "en_start (edge_env x) = Some demo_bundle" "en_decode (edge_env x) = Some demo_bundle"
  "en_cfg (edge_env x) = edge_config" "en_text (edge_env x) = no_text" "en_codec (edge_env x) = echo_codec"
  by (simp_all add: edge_env_def)

theorem response_labels_witness:
  "px_outcome (proxy_main (edge_env (edge_reply 500)) (edge_request ''v2'')) = codeUpstreamStatus \<and>
   sent_header (hd_w (DataHandler (edge_env (edge_reply 500)) (edge_request ''v2''))) HeaderWavefrontError = codeUpstreamStatus"
proof -
  let ?q = "proxy_main (edge_env (edge_reply 500)) (edge_request ''v2'')"
  have "\<not> isCORSPreflight (edge_request ''v2'')" "px_panicked ?q = None" and o: "px_outcome ?q = codeUpstreamStatus"
    by code_simp+
  note l = response_labels [OF demo_loads edge_env_simps(1) this(1,2)]
  have "codeUpstreamStatus \<noteq> outcomeOK" by (simp add: code_defs outcomeOK_def)
  with l o show ?thesis by (simp add: Let_def)
qed

text \<open>C16. wavefront makes at most one upstream call, and only for a request that passed every gate
  and resolved to a contract: at the contract's own route and method, to the target of the last
  link of its chain, with the client's query string, its headers but the withheld ones, and at
  most the JSON content type added.\<close>

theorem upstream_call_exact:
  "px_calls (proxy_main E r) = [] \<or>
   (\<exists>b c u. px_calls (proxy_main E r) = [u] \<and> admitted E r b \<and> resolved E r b c \<and> upstream_ok E r c u)"
  using proxy_visible [of E r] by (auto simp: visible_ok_def)

text \<open>The gates in front of the body read: the code and status a request is refused with.\<close>

definition refusal :: "('m, 'd) env \<Rightarrow> request \<Rightarrow> (string \<times> int) option" where
  "refusal E r =
     (case en_start E of
        None \<Rightarrow> Some (''unavailable'', 503)
      | Some b \<Rightarrow>
          if LookupRoute b (rq_path r) (rq_method r) = None then Some (''unknown_route'', 404)
          else if hasRequestBody r \<and> \<not> isProtobufContentType (h_get (rq_header r) ''Content-Type'')
            then Some (''unsupported_media_type'', 415)
          else if 0 < rq_content_length r \<and> MaxBodyBytes (en_cfg E) < rq_content_length r
            then Some (''request_body_too_large'', 413)
          else None)"

lemma fail_init_sent:
  assumes "200 \<le> we_status e" "we_status e \<le> 999"
  shows "sent_status (px_w (fail_px E e '''' (px_init cfg r))) = Some (we_status e)"
  using wire_write_sent(1) [OF _ _ assms, of new_writer "en_error_pb E" "raw_version cfg r"]
  by (simp add: fail_px_def writeError_def px_init_def new_writer_def)

lemma admit_refuses:
  "refusal E r = Some (code, status) \<Longrightarrow>
   \<exists>e. admit E r p = Inl (fail_px E e '''' p) \<and> we_code e = code \<and> we_status e = status \<and>
       200 \<le> status \<and> status \<le> 999"
  by (auto simp: refusal_def admit_def werror_ctor_defs code_defs HeaderContentType_def
      split: option.splits if_splits)

lemma admit_passes: "refusal E r = None \<Longrightarrow> \<exists>b. admit E r p = Inr b"
  by (auto simp: refusal_def admit_def HeaderContentType_def split: option.splits if_splits)

text \<open>The pipeline behind the body read.\<close>

definition after_read :: "('m, 'd) env \<Rightarrow> request \<Rightarrow> 'm contract_bundle \<Rightarrow> px \<times> string \<Rightarrow> px + px" where
  "after_read E r b = (\<lambda>(p, body). sbind (negotiate E r b p) (\<lambda>(p, c). forward E r c body p))"

lemma pipeline_after_read:
  "pipeline E r p = sbind (admit E r p) (\<lambda>b. sbind (read_body E r p) (after_read E r b))"
  unfolding pipeline_forward after_read_def by (rule refl)

lemma fail_px_read [simp]: "px_read (fail_px E e t p) = px_read p"
  by (simp add: fail_px_def writeError_def)

lemma fault_px_read [simp]: "px_read (fault_px E f t p) = px_read p"
  by (cases f) simp_all

lemma stage_reads:
  "px_read p \<Longrightarrow> post (\<lambda>_. True) px_read (try_px E p m)"
  "px_read p \<Longrightarrow> post (\<lambda>_. True) px_read (try_fault E t p f)"
  "px_read p \<Longrightarrow> post (\<lambda>x. px_read (fst x)) px_read (build_upstream E r c call p)"
  "px_read p \<Longrightarrow> post (\<lambda>x. px_read (fst x)) px_read (call_upstream E u p)"
proof -
  assume p: "px_read p"
  show "post (\<lambda>_. True) px_read (try_px E p m)" using p by (cases m) simp_all
  show "post (\<lambda>_. True) px_read (try_fault E t p f)" using p by (cases f) simp_all
  show "post (\<lambda>x. px_read (fst x)) px_read (build_upstream E r c call p)"
    using p by (auto simp: build_upstream_def Let_def split: option.splits)
  show "post (\<lambda>x. px_read (fst x)) px_read (call_upstream E u p)"
    using p by (auto simp: call_upstream_def Let_def split: up_reply.splits)
qed

lemma reply_reads [simp]:
  "px_read (respond ct st out p) = px_read p" "px_read (no_content st p) = px_read p"
  by (simp_all add: respond_def no_content_def)

lemma dispatch_reads: "px_read p \<Longrightarrow> post px_read px_read (dispatch E c resp bs p)"
  by (auto simp: dispatch_def Let_def success_reply_def declared_reply_def
      intro!: post_bind [OF stage_reads(1)] post_bind [OF stage_reads(2)])

lemma negotiate_reads: "px_read p \<Longrightarrow> post (\<lambda>x. px_read (fst x)) px_read (negotiate E r b p)"
  unfolding negotiate_def
  by (rule post_bind [OF stage_reads(1)]) (simp_all add: negotiated_def)

lemma after_read_reads: "px_read (fst x) \<Longrightarrow> post px_read px_read (after_read E r b x)"
  unfolding after_read_def forward_def
  by (cases x)
    (auto intro!: post_bind [OF negotiate_reads] post_bind [OF stage_reads(1)] post_bind [OF stage_reads(2)]
      post_bind [OF stage_reads(3)] post_bind [OF stage_reads(4)] dispatch_reads)

lemma pipeline_reads: "px_read (finished (sbind (read_body E r p) (after_read E r b)))"
proof (rule post_finished, rule post_bind)
  show "post (\<lambda>x. px_read (fst x)) px_read (read_body E r p)"
    by (auto simp: read_body_def Let_def split: sum.splits read_error.splits)
qed (rule after_read_reads)

text \<open>C17. The gates come in the documented order (no bundle 503, unknown route 404, wrong media type
  415, declared length over the limit 413), before a single byte of the body is read and before
  any upstream call; whatever passes them has its body read.\<close>

theorem gates_before_read:
  "case refusal E r of
     Some (code, status) \<Rightarrow>
       px_outcome (proxy_main E r) = code \<and> sent_status (px_w (proxy_main E r)) = Some status \<and>
       \<not> px_read (proxy_main E r) \<and> px_calls (proxy_main E r) = [] \<and>
       px_version (proxy_main E r) = VersionUnknown
   | None \<Rightarrow> px_read (proxy_main E r)"
proof (cases "refusal E r")
  case (Some x)
  obtain code status where x: "x = (code, status)" by (cases x)
  from admit_refuses [of E r code status "px_init (en_cfg E) r"] Some x obtain e where
    e: "admit E r (px_init (en_cfg E) r) = Inl (fail_px E e '''' (px_init (en_cfg E) r))"
    "we_code e = code" "we_status e = status" "200 \<le> status" "status \<le> 999" by auto
  then have "proxy_main E r = fail_px E e '''' (px_init (en_cfg E) r)"
    by (simp add: proxy_main_def pipeline_def finished_def)
  with fail_init_sent [of e E "en_cfg E" r] e Some x show ?thesis
    by (simp add: fail_px_def writeError_def px_init_def)
next
  case None
  from admit_passes [OF None] obtain b where "admit E r (px_init (en_cfg E) r) = Inr b" by blast
  then have "proxy_main E r = finished (sbind (read_body E r (px_init (en_cfg E) r)) (after_read E r b))"
    by (simp add: proxy_main_def pipeline_after_read)
  then show ?thesis using None pipeline_reads [of E r "px_init (en_cfg E) r" b] by simp
qed

end
