(* ===== verification/Server_Replies.thy ===== *)
theory Server_Replies
  imports Server_Properties
begin

text \<open>
  What the data plane makes of the upstream's reply, which headers cross it, and what a panic leaves
  on the wire.
\<close>

section \<open>What the client sees\<close>

text \<open>Status, \<open>X-Wavefront-Error\<close> and body of a response.\<close>

type_synonym seen = "int option \<times> string \<times> string"

definition seen :: "response_writer \<Rightarrow> seen" where
  "seen w = (sent_status w, sent_header w HeaderWavefrontError, rw_body w)"

definition seen_envelope :: "('m, 'd) env \<Rightarrow> werror \<Rightarrow> seen" where
  "seen_envelope E e = (Some (we_status e), we_code e, ProtoBody (en_error_pb E) e)"

definition seen_typed :: "int \<Rightarrow> string \<Rightarrow> seen" where
  "seen_typed status out = (Some status, '''', out)"

lemma seen_fail:
  assumes "fresh n p" "200 \<le> we_status e" "we_status e \<le> 999" "body_allowed (we_status e)"
  shows "seen (px_w (fail_px E e tout p)) = seen_envelope E e"
    and "px_panicked (fail_px E e tout p) = None"
proof -
  have w: "rw_sent (px_w p) = None" "\<not> rw_panicked (px_w p)" "rw_body (px_w p) = ''''" "px_panic p = None"
    using assms(1) by (auto simp: fresh_def fresh_writer_def)
  show "seen (px_w (fail_px E e tout p)) = seen_envelope E e"
    using wire_write_sent(1,2,5) [OF w(1,2) assms(2,3)] w(3) assms(4)
    by (simp add: seen_def seen_envelope_def fail_px_def writeError_def)
  show "px_panicked (fail_px E e tout p) = None"
    using wire_write_sent(4) [OF w(1,2) assms(2,3)] w(4)
    by (simp add: px_panicked_None fail_px_def writeError_def)
qed

lemma seen_respond:
  assumes "fresh n p" "200 \<le> s" "s \<le> 999" "body_allowed s"
  shows "seen (px_w (respond ct s out p)) = seen_typed s out" "px_panicked (respond ct s out p) = None"
proof -
  have w: "fresh_writer (px_w p)" "px_panic p = None" using assms(1) by (simp_all add: fresh_def)
  then show "px_panicked (respond ct s out p) = None" using assms
    by (auto simp: px_panicked_None respond_def rw_write_def rw_write_header_def Let_def fresh_writer_def)
  then have "\<not> rw_panicked (px_w (respond ct s out p))" by (simp add: px_panicked_None)
  then have "sent_header (px_w (respond ct s out p)) HeaderWavefrontError = ''''"
    using typed_headers [OF w(1), of out s "px_version p" ct] by (simp add: respond_def)
  then show "seen (px_w (respond ct s out p)) = seen_typed s out"
    using w assms by (auto simp: seen_def seen_typed_def respond_def rw_write_def rw_write_header_def Let_def
        fresh_writer_def sent_status_def)
qed

section \<open>Status dispatch\<close>

text \<open>The typed answer of a message: response transforms of each link, last link first, then the
  codec; the first failure is what the client sees.\<close>

definition typed_answer ::
  "('m, 'd) env \<Rightarrow> bound \<Rightarrow> (contract \<Rightarrow> op list) \<Rightarrow> string \<Rightarrow> string \<Rightarrow> fault + string" where
  "typed_answer E c ops name body =
     sbind (response_transforms E ops (chain c) body) (\<lambda>bs.
       case encodeMessage (en_codec E) (resolver_of (en_encode E)) name bs of
         Inl e \<Rightarrow> Inl (Wire e)
       | Inr (out, _) \<Rightarrow> Inr out)"

definition settled :: "('m, 'd) env \<Rightarrow> int \<Rightarrow> fault + string \<Rightarrow> px \<Rightarrow> bool" where
  "settled E s a q =
     (case a of
        Inl (Wire e) \<Rightarrow> seen (px_w q) = seen_envelope E e \<and> px_panicked q = None
      | Inl (GoPanic m) \<Rightarrow> px_panicked q = Some (PanicValue m)
      | Inr out \<Rightarrow> seen (px_w q) = seen_typed s out \<and> px_panicked q = None)"

lemma gateway_status: "in_error_table e \<Longrightarrow> we_code e \<noteq> codeUpstreamStatus \<Longrightarrow>
    200 \<le> we_status e \<and> we_status e \<le> 999 \<and> body_allowed (we_status e)"
  by (auto simp: in_error_table_def documented_errors_def body_allowed_def)

lemma seen_gateway:
  assumes "fresh n p" "in_error_table e" "we_code e \<noteq> codeUpstreamStatus"
  shows "seen (px_w (fail_px E e tout p)) = seen_envelope E e" "px_panicked (fail_px E e tout p) = None"
  using seen_fail [OF assms(1)] gateway_status [OF assms(2,3)] by blast+

lemma transforms_wire:
  assumes "sfold f s links = Inl (Wire e)"
    and "\<And>bs link. link \<in> set links \<Longrightarrow> f bs link = apply_body lib (ops link) bs request"
  shows "in_error_table e \<and> we_code e \<noteq> codeUpstreamStatus"
proof -
  from sfold_fails [OF assms(1)] assms(2) obtain link bs where
    "apply_body lib (ops link) bs request = Inl (Wire e)" by metis
  from apply_body_faults [OF this] obtain reason where "Wire e = fail_as request reason"
    by auto
  then show ?thesis
    by (auto simp: fail_as_def werror_ctor_defs code_defs in_error_table_def documented_errors_def split: if_splits)
qed

lemma response_transforms_wire:
  "response_transforms E ops links bs = Inl (Wire e) \<Longrightarrow> in_error_table e \<and> we_code e \<noteq> codeUpstreamStatus"
  unfolding response_transforms_def
  by (erule transforms_wire [where lib = "en_text E" and ops = ops and request = False])
    (simp add: ApplyResponse_def)

lemma upstream_error_code [simp]: "we_code (UpstreamError m) \<noteq> codeUpstreamStatus"
  by (simp_all add: werror_ctor_defs code_defs)

lemma typed_settled:
  assumes "fresh 1 p" "200 \<le> s" "s \<le> 999" "body_allowed s"
    and "typed_answer E c ops name body = a"
  shows "settled E s a (finished
    (sbind (try_fault E ''response'' p (response_transforms E ops (chain c) body)) (\<lambda>bs.
     sbind (try_px E p (encodeMessage (en_codec E) (resolver_of (en_encode E)) name bs)) (\<lambda>(out, ct).
       Inr (respond (f ct) s out p)))))"
proof (cases "response_transforms E ops (chain c) body")
  case (Inl e)
  have a: "a = Inl e" using assms(5) Inl by (simp add: typed_answer_def)
  show ?thesis
  proof (cases e)
    case (Wire werr)
    with Inl response_transforms_wire have e: "in_error_table werr" "we_code werr \<noteq> codeUpstreamStatus"
      by blast+
    show ?thesis using seen_gateway [OF assms(1) e, of E] by (simp add: a Inl Wire settled_def finished_def)
  next
    case (GoPanic m)
    then show ?thesis by (simp add: a Inl settled_def finished_def px_panicked_def)
  qed
next
  case (Inr bs)
  show ?thesis
  proof (cases "encodeMessage (en_codec E) (resolver_of (en_encode E)) name bs")
    case (Inl e)
    then obtain m where m: "e = UpstreamError m" by (auto dest: encodeMessage_Inl)
    have a: "a = Inl (Wire e)" using assms(5) Inr Inl by (simp add: typed_answer_def)
    show ?thesis using seen_gateway [OF assms(1), of "UpstreamError m" E]
      by (simp add: a Inr Inl m settled_def finished_def)
  next
    case B: (Inr x)
    obtain out ct where x: "x = (out, ct)" by (cases x)
    have a: "a = Inr out" using assms(5) Inr B by (simp add: typed_answer_def x)
    show ?thesis using seen_respond [OF assms(1-4), of "f ct" out] by (simp add: a Inr B x settled_def finished_def)
  qed
qed

text \<open>C18. The status of the upstream decides the shape of the reply, and the rows of the table are
  exhaustive.  204 and 205 keep their status and have no body.  The ceiling (206 to 208, 226, 3xx)
  is a 502 even where the contract declares the status.  200 to 203, and a declared status, are
  answered the same way: the operations and the message bound to that status, the upstream's
  status, no \<open>X-Wavefront-Error\<close>.  Anything else is a 502 under \<open>strict\<close>, and otherwise the
  envelope that relays the upstream's status and body.\<close>

theorem status_dispatch:
  assumes "fresh 1 p" and "200 \<le> us_status resp" and "us_status resp \<le> 999"
  shows "let s = us_status resp; q = finished (dispatch E c resp body p) in
    if s = 204 \<or> s = 205 then settled E s (Inr '''') q
    else if IsCapabilityCeiling s then
      settled E s (Inl (Wire (UpstreamError (''upstream returned unsupported status '' @ itoa s)))) q
    else if s \<le> 203 then settled E s (typed_answer E c response_ops (response_message c) body) q
    else (case ErrorMessage c s of
        Some name \<Rightarrow> settled E s (typed_answer E c (\<lambda>link. ErrorResponseOps link s) name body) q
      | None \<Rightarrow>
          if strict c then
            settled E s (Inl (Wire (UpstreamError (''upstream returned undeclared status '' @ itoa s @ '' (strict)'')))) q
          else settled E s (Inl (Wire (aid_envelope resp body))) q)"
proof -
  let ?s = "us_status resp" and ?q = "finished (dispatch E c resp body p)"
  have no_body: "settled E ?s (Inr '''') (no_content ?s p)" if "?s = 204 \<or> ?s = 205"
  proof -
    have "fresh_writer (px_w p)" "px_panic p = None" using assms(1) by (simp_all add: fresh_def)
    with empty_headers [OF this(1) that, of "px_version p"] that show ?thesis
      by (auto simp: settled_def seen_def seen_typed_def no_content_def px_panicked_None rw_write_header_def
          Let_def fresh_writer_def)
  qed
  have failed: "settled E ?s (Inl (Wire e)) (fail_px E e '''' p)"
    if "200 \<le> we_status e" "we_status e \<le> 999" "body_allowed (we_status e)" for e
    using seen_fail [OF assms(1) that, of E] by (simp add: settled_def)
  have gateway: "settled E ?s (Inl (Wire (UpstreamError m))) (fail_px E (UpstreamError m) '''' p)" if "m \<noteq> ''''" for m
    by (rule failed) (simp_all add: werror_ctor_defs body_allowed_def)
  have allowed: "body_allowed ?s" if "?s \<noteq> 204" "\<not> IsCapabilityCeiling ?s"
    using that assms(2) by (auto simp: body_allowed_def IsCapabilityCeiling_def)
  have aid: "we_status (aid_envelope resp body) = ?s"
    by (simp add: aid_envelope_def Let_def werror_ctor_defs WithRetryAfter_def)
  consider (empty) "?s = 204 \<or> ?s = 205" | (ceiling) "IsCapabilityCeiling ?s" "?s \<noteq> 204" "?s \<noteq> 205"
    | (success) "?s \<le> 203"
    | (other) "203 < ?s" "?s \<noteq> 204" "?s \<noteq> 205" "\<not> IsCapabilityCeiling ?s" by linarith
  then show ?thesis
  proof cases
    case empty
    then show ?thesis using no_body by (auto simp: dispatch_def Let_def finished_def)
  next
    case ceiling
    then have "\<not> ?s \<le> 203" using assms(2) by (auto simp: IsCapabilityCeiling_def)
    then show ?thesis using ceiling gateway by (simp add: dispatch_def Let_def finished_def)
  next
    case success
    then have n: "\<not> IsCapabilityCeiling ?s" "?s \<noteq> 204" "?s \<noteq> 205" by (auto simp: IsCapabilityCeiling_def)
    from typed_settled [OF assms(1,2,3) allowed [OF n(2,1)] refl, of E c response_ops "response_message c" body "\<lambda>ct. ct"]
    show ?thesis using success n assms(2) by (simp add: dispatch_def Let_def success_reply_def EncodeResponse_def)
  next
    case other
    note d = typed_settled [OF assms(1,2,3) allowed [OF other(2,4)] refl, of E c "\<lambda>link. ErrorResponseOps link ?s" _ body
        "\<lambda>ct. if ct = '''' then MediaTypeProtobuf else ct"]
    show ?thesis
    proof (cases "ErrorMessage c ?s")
      case (Some name)
      then show ?thesis using other d [of name]
        by (simp add: dispatch_def Let_def declared_reply_def EncodeError_def)
    next
      case None
      then show ?thesis using other gateway failed [of "aid_envelope resp body"] allowed assms(2,3)
        by (simp add: dispatch_def Let_def finished_def aid)
    qed
  qed
qed

definition one_call :: up_request where
  "one_call = \<lparr>ur_method = ''POST'', ur_url = ''http://up/orders'', ur_header = [], ur_body = ''{}''\<rparr>"

definition edge_response :: "int \<Rightarrow> up_response" where
  "edge_response status = \<lparr>us_status = status, us_header = [], us_body = (''{}'', True)\<rparr>"

theorem status_dispatch_witness:
  "settled (edge_env DeadlineExceeded) 304
     (Inl (Wire (UpstreamError (''upstream returned unsupported status '' @ itoa 304))))
     (finished (dispatch (edge_env DeadlineExceeded) (hd (contracts demo_bundle)) (edge_response 304) ''{}''
        ((px_init edge_config (edge_request ''v2''))\<lparr>px_calls := [one_call]\<rparr>)))"
proof -
  let ?p = "(px_init edge_config (edge_request ''v2''))\<lparr>px_calls := [one_call]\<rparr>"
  have "fresh 1 ?p" by (simp add: fresh_def px_init_def)
  from status_dispatch [OF this, of "edge_response 304" "edge_env DeadlineExceeded" "hd (contracts demo_bundle)" "''{}''"]
  show ?thesis by (simp add: edge_response_def IsCapabilityCeiling_def Let_def)
qed

section \<open>Headers to the upstream\<close>

definition canonical_header :: "header \<Rightarrow> bool" where
  "canonical_header h = (distinct (map fst h) \<and> list_all (\<lambda>(k, _). canonical_key k = k) h)"

lemma concat_matching:
  "distinct (map fst h) \<Longrightarrow> concat (map snd (filter (\<lambda>(k, _). k = k') h)) =
     (case map_of h k' of None \<Rightarrow> [] | Some vs \<Rightarrow> vs)"
proof (induction h)
  case (Cons e h)
  obtain a vs where e: "e = (a, vs)" by (cases e)
  have "map_of h k' = None" if "a = k'"
    using Cons.prems that by (simp add: e map_of_eq_None_iff)
  then show ?case using Cons by (cases "a = k'") (simp_all add: e del: concat_eq_Nil_conv)
qed simp

lemma forward_values:
  assumes "canonical_header src"
  shows "h_values (forwardClientHeaders [] src) k =
    (if canonical_key k \<in> set hopByHop \<or> canonical_key k \<in> set (connection_names src) then []
     else h_values src k)"
proof -
  let ?skip = "\<lambda>k. k \<in> set hopByHop \<or> k \<in> set (connection_names src)"
  have "forwardClientHeaders [] src = fold (\<lambda>(k, vs) d. if \<not> ?skip k then h_add_all k vs d else d) src []"
    unfolding forwardClientHeaders_def by (rule arg_cong [where f = "\<lambda>f. fold f src []"]) (simp add: fun_eq_iff)
  then have "h_values (forwardClientHeaders [] src) k =
      concat (map snd (filter (\<lambda>(k', vs). \<not> ?skip k' \<and> canonical_key k' = canonical_key k) src))"
    by (simp only: fold_filter_add h_values_empty append_Nil)
  also have "filter (\<lambda>(k', vs). \<not> ?skip k' \<and> canonical_key k' = canonical_key k) src =
      (if ?skip (canonical_key k) then [] else filter (\<lambda>(k', _). k' = canonical_key k) src)"
    using assms by (auto simp: canonical_header_def list_all_iff filter_empty_conv intro!: filter_cong)
  finally show ?thesis
    using concat_matching [of src "canonical_key k"] assms
    by (simp add: canonical_header_def h_values_def)
qed

text \<open>C19. What the upstream call carries of the client's headers: every header with all its values in
  order, but for the hop-by-hop ones and those the client itself lists in \<open>Connection\<close>; and as
  \<open>Content-Type\<close> nothing of the client's, only the JSON type of a call that has a body.\<close>

theorem upstream_headers:
  assumes "canonical_header (rq_header r)" and "u \<in> set (px_calls (proxy_main E r))"
  shows "if canonical_key k = ''Content-Type'' then h_values (ur_header u) k \<in> {[], [''application/json'']}
    else if canonical_key k \<in> set hopByHop \<or> canonical_key k \<in> set (connection_names (rq_header r)) then
      h_values (ur_header u) k = []
    else h_values (ur_header u) k = h_values (rq_header r) k"
proof -
  from proxy_visible [of E r] assms(2) obtain c where "upstream_ok E r c u"
    by (auto simp: visible_ok_def)
  then show ?thesis
    using forward_values [OF assms(1)]
    by (auto simp: upstream_ok_def HeaderContentType_def header_simps hopByHop_def)
qed

theorem upstream_headers_witness:
  "list_all (\<lambda>u. h_values (ur_header u) ''X-Drop'' = [] \<and> h_values (ur_header u) ''X-Keep'' = [''2''])
     (px_calls (proxy_main (edge_env (edge_reply 200)) (edge_request ''v2'')))"
proof -
  have c: "canonical_header (rq_header (edge_request ''v2''))" by code_simp
  have k: "canonical_key ''X-Drop'' = ''X-Drop''" "canonical_key ''X-Keep'' = ''X-Keep''"
    "''X-Drop'' \<in> set (connection_names (rq_header (edge_request ''v2'')))"
    "''X-Keep'' \<notin> set (connection_names (rq_header (edge_request ''v2'')))"
    "''X-Keep'' \<notin> set hopByHop" "h_values (rq_header (edge_request ''v2'')) ''X-Keep'' = [''2'']"
    by code_simp+
  show ?thesis
    using upstream_headers [OF c, where k = "''X-Drop''" and E = "edge_env (edge_reply 200)"] upstream_headers [OF c, where k = "''X-Keep''" and E = "edge_env (edge_reply 200)"] k
    by (simp add: list_all_iff)
qed

section \<open>Panics\<close>

lemma linked_members:
  "linked bv route meth c ch \<Longrightarrow> x \<in> set ch \<Longrightarrow> x = c \<or> (\<exists>v cs. map_of bv v = Some cs \<and> x \<in> set cs)"
proof -
  assume l: "linked bv route meth c ch" and x: "x \<in> set ch"
  from linked_hd [OF l] have "ch = c # tl ch" by (cases ch) auto
  with x have "x = c \<or> x \<in> set (tl ch)" by (metis set_ConsD)
  with linked_tl [OF l, of x] show ?thesis by auto
qed

lemma chain_ops_ok:
  assumes "bundle_ok L b" "bound_ok L b c" "link \<in> set (chain c)"
  shows "ops_ok L (files b) link"
proof -
  have l: "linked (index_by_version (map contract.truncate (contracts b))) (c_route c) (c_method c)
      (contract.truncate c) (chain c)"
    using assms(2) by (simp add: bound_ok_def)
  from linked_members [OF l assms(3)] have "link = contract.truncate c \<or>
      (\<exists>d \<in> set (contracts b). link = contract.truncate d)"
    by (auto simp: map_of_index split: if_splits)
  then show ?thesis
    using assms(1,2) by (auto simp: bundle_ok_def bound_ok_def list_all_iff ops_ok_truncate)
qed

lemma ops_ok_wf:
  assumes "ops_ok L reg c"
  shows "list_all op_wf (request_ops c)" "list_all op_wf (response_ops c)" "list_all op_wf (ErrorResponseOps c s)"
proof -
  show "list_all op_wf (request_ops c)" "list_all op_wf (response_ops c)"
    using assms by (auto simp: ops_ok_def list_all_iff dest: op_valid_wf)
  have "list_all op_wf ops" if "map_of (error_response_ops c) s = Some ops" for ops
    using map_of_SomeD [OF that] assms
    by (force simp: ops_ok_def error_ops_ok_def list_all_iff dest: op_valid_wf)
  then show "list_all op_wf (ErrorResponseOps c s)"
    by (cases "map_of (error_response_ops c) s") (auto simp: ErrorResponseOps_def)
qed

lemma transforms_no_panic:
  assumes "\<And>link. link \<in> set links \<Longrightarrow> list_all op_wf (ops link)"
  shows "response_transforms E ops links bs \<noteq> Inl (GoPanic m)"
    and "request_ops = ops \<Longrightarrow> request_transforms E links bs \<noteq> Inl (GoPanic m)"
proof -
  have *: "False" if "sfold f s ls = Inl (GoPanic m)" "set ls \<subseteq> set links"
    "f = (\<lambda>bs link. apply_body lib (ops link) bs q)" for f s ls q lib
  proof -
    from sfold_fails [OF that(1)] that(2,3) obtain link t where
      "link \<in> set links" "apply_body lib (ops link) t q = Inl (GoPanic m)" by auto
    from apply_body_fails [OF this(2) assms [OF this(1)]] show False by (simp add: fail_as_def)
  qed
  show "response_transforms E ops links bs \<noteq> Inl (GoPanic m)"
    unfolding response_transforms_def ApplyResponse_def by (rule notI, erule *) auto
  show "request_transforms E links bs \<noteq> Inl (GoPanic m)" if "request_ops = ops"
    unfolding request_transforms_def ApplyRequest_def that by (rule notI, erule *) auto
qed

lemma fail_no_panic [simp]: "px_panic (fail_px E e t p) = px_panic p"
  by (simp add: fail_px_def writeError_def)

lemma try_no_panic:
  "px_panic p = None \<Longrightarrow> post (\<lambda>x. m = Inr x) (\<lambda>q. px_panic q = None) (try_px E p m)"
  "px_panic p = None \<Longrightarrow> (\<And>v. f \<noteq> Inl (GoPanic v)) \<Longrightarrow> post (\<lambda>x. f = Inr x) (\<lambda>q. px_panic q = None) (try_fault E t p f)"
proof -
  assume p: "px_panic p = None"
  show "post (\<lambda>x. m = Inr x) (\<lambda>q. px_panic q = None) (try_px E p m)" using p by (cases m) simp_all
  assume f: "\<And>v. f \<noteq> Inl (GoPanic v)"
  show "post (\<lambda>x. f = Inr x) (\<lambda>q. px_panic q = None) (try_fault E t p f)"
  proof (cases f)
    case (Inl e)
    with f obtain w where "e = Wire w" by (cases e) auto
    then show ?thesis using Inl p by simp
  qed simp
qed

lemma dispatch_no_panic:
  assumes "px_panic p = None"
    and "\<And>link s. link \<in> set (chain c) \<Longrightarrow> list_all op_wf (response_ops link) \<and> list_all op_wf (ErrorResponseOps link s)"
  shows "px_panic (finished (dispatch E c resp body p)) = None"
proof (rule post_finished)
  have "response_transforms E ops (chain c) bs \<noteq> Inl (GoPanic m)"
    if "ops = response_ops \<or> ops = (\<lambda>link. ErrorResponseOps link (us_status resp))" for ops bs m
    by (rule transforms_no_panic(1)) (use that assms(2) in auto)
  then have t: "\<And>bs m. response_transforms E response_ops (chain c) bs \<noteq> Inl (GoPanic m)"
    "\<And>bs m. response_transforms E (\<lambda>link. ErrorResponseOps link (us_status resp)) (chain c) bs \<noteq> Inl (GoPanic m)"
    by blast+
  show "post (\<lambda>q. px_panic q = None) (\<lambda>q. px_panic q = None) (dispatch E c resp body p)"
    using assms(1)
    by (auto simp: dispatch_def Let_def success_reply_def declared_reply_def respond_def no_content_def
        intro!: post_bind [OF try_no_panic(1)] post_bind [OF try_no_panic(2)] t)
qed

lemma forward_no_panic:
  assumes ok: "bundle_ok L b" "bound_ok L b c" and p: "px_panic p = None"
  shows "post (\<lambda>q. px_panic q = None) (\<lambda>q. px_panic q = None) (forward E r c bs p)"
proof -
  let ?N = "\<lambda>q :: px. px_panic q = None"
  have chain: "chain c \<noteq> []" using ok(2) linked_hd [of _ _ _ _ "chain c"] by (auto simp: bound_ok_def)
  note wf = ops_ok_wf [OF chain_ops_ok [OF ok]]
  show ?thesis
    unfolding forward_def
  proof (rule post_bind [OF try_no_panic(1) [OF p]], goal_cases)
    case (1 call)
    show ?case
    proof (rule post_bind [OF try_no_panic(2) [OF p]], goal_cases)
      case 1
      show ?case by (rule transforms_no_panic(2) [OF _ refl]) (rule wf(1))
    next
      case (2 bs)
      show ?case
      proof (rule post_bind [where I = "\<lambda>x. ?N (fst x)"], goal_cases)
        case 1
        show ?case using p chain by (auto simp: build_upstream_def Let_def split: option.splits)
      next
        case (2 z)
        then obtain p u where z: "z = (p, u)" "?N p" by (cases z) auto
        show ?case unfolding z(1) prod.case
        proof (rule post_bind [where I = "\<lambda>x. ?N (fst x)"], goal_cases)
          case 1
          show ?case using z(2) by (auto simp: call_upstream_def Let_def split: up_reply.splits)
        next
          case (2 w)
          then obtain p resp body where w: "w = (p, resp, body)" "?N p" by (cases w) auto
          have "?N (finished (dispatch E c resp body p))"
            by (rule dispatch_no_panic [OF w(2)]) (use wf in auto)
          then show ?case unfolding w(1) prod.case
            by (cases "dispatch E c resp body p") (auto simp: finished_def)
        qed
      qed
    qed
  qed
qed

text \<open>A bundle that loaded never makes the pipeline itself panic, whatever the request and the
  upstream's reply: no transform panics, and the chain whose last link is indexed is never empty.\<close>

theorem loaded_bundle_never_panics:
  assumes "Load L dir root = Inr b" and "en_start E = Some b"
  shows "px_panic (proxy_main E r) = None"
proof -
  let ?N = "\<lambda>q :: px. px_panic q = None"
  have "post ?N ?N (pipeline E r (px_init (en_cfg E) r))"
    unfolding pipeline_forward
  proof (rule post_bind [where I = "\<lambda>b'. b' = b"], goal_cases)
    case 1
    show ?case using assms(2) by (auto simp: admit_def px_init_def split: option.splits)
  next
    case (2 b')
    show ?case
    proof (rule post_bind [where I = "\<lambda>x. ?N (fst x)"], goal_cases)
      case 1
      show ?case by (auto simp: read_body_def px_init_def Let_def split: sum.splits read_error.splits)
    next
      case (2 x)
      obtain p bs where x: "x = (p, bs)" "?N p" using 2 by (cases x) auto
      show ?case unfolding x(1) prod.case
      proof (rule post_bind [where I = "\<lambda>(p, c). ?N p \<and> resolved E r b c"], goal_cases)
        case 1
        show ?case unfolding negotiate_def \<open>b' = b\<close>
          by (rule post_bind [OF try_no_panic(1) [OF x(2)]]) (use x(2) in \<open>auto simp: negotiated_def resolved_def\<close>)
      next
        case (2 y)
        then obtain p c where y: "y = (p, c)" "?N p" "resolved E r b c" by auto
        from y(3) obtain v path meth sels where "Lookup b path meth v sels = Some c"
          by (auto simp: resolved_def Resolve_Inr)
        from Lookup_bound_ok [OF Load_ok [OF assms(1)] this] have "bound_ok L b c" ..
        then show ?case unfolding y(1) prod.case by (rule forward_no_panic [OF Load_ok [OF assms(1)] _ y(2)])
      qed
    qed
  qed
  then show ?thesis unfolding proxy_main_def by (rule post_finished)
qed

theorem loaded_bundle_never_panics_witness:
  "px_panic (proxy_main (edge_env (edge_reply 42)) (edge_request ''v2'')) = None"
  by (rule loaded_bundle_never_panics [OF demo_loads]) simp

text \<open>What a panic of \<open>WriteHeader\<close> leaves in the writer.\<close>

lemma write_header_panic:
  assumes "rw_sent w = None" "\<not> rw_panicked w" "rw_body w = ''''"
    and "rw_panicked (rw_write out (rw_write_header s w))"
  shows "rw_sent (rw_write out (rw_write_header s w)) = None" "rw_attempted (rw_write out (rw_write_header s w))"
    "rw_body (rw_write out (rw_write_header s w)) = ''''" "s < 100 \<or> 999 < s"
  using assms by (auto simp: rw_write_def rw_write_header_def Let_def split: if_splits)

lemma fresh_panic:
  assumes "answered K E q" "px_panic q = Some m"
  shows "fresh_writer (px_w q)"
  using assms(1)
proof (cases rule: answered_cases)
  case (panicked p n m)
  then show ?thesis by (simp add: fresh_def)
qed (use assms(2) in \<open>auto simp: fresh_def respond_def no_content_def\<close>)

lemma writer_panic:
  assumes "answered K E q" "rw_panicked (px_w q)"
  shows "rw_sent (px_w q) = None \<and> rw_attempted (px_w q) \<and> rw_body (px_w q) = ''''"
  using assms(1)
proof (cases rule: answered_cases)
  case (panicked p n m)
  then show ?thesis using assms(2) by (simp add: fresh_def fresh_writer_def)
next
  case (typed p status out)
  let ?w = "rw_set HeaderContractVersion (px_version p) (rw_set HeaderContentType MediaTypeProtobuf (px_w p))"
  have "rw_sent ?w = None" "\<not> rw_panicked ?w" "rw_body ?w = ''''"
    using typed(1) by (simp_all add: fresh_def fresh_writer_def)
  from write_header_panic [OF this, of out status] show ?thesis
    using assms(2) by (simp add: typed(3) respond_def)
next
  case (empty p status)
  then show ?thesis using assms(2)
    by (auto simp: no_content_def fresh_def fresh_writer_def rw_write_header_def Let_def)
next
  case (envelope p n werr tout)
  let ?w = "rw_set HeaderContractVersion (if px_resp_version p = '''' then VersionUnknown else px_resp_version p)
      (rw_set HeaderWavefrontError (we_code werr) (set_all (Headers werr) (px_w p)))"
  have "rw_sent ?w = None" "\<not> rw_panicked ?w" "rw_body ?w = ''''"
    using envelope(1) by (simp_all add: fresh_def fresh_writer_def)
  from write_header_panic [OF this, of "ProtoBody (en_error_pb E) werr" "we_status werr"] show ?thesis
    using assms(2) by (simp add: envelope(6) fail_px_def writeError_def wire_write_alt)
qed

text \<open>C20. Every contract request gets an answer, also one whose handling panics: such a panic is
  counted as \<open>internal_error\<close>, and answered with the 500 envelope under the client's own version
  label when nothing was written.  A panic of \<open>WriteHeader\<close> itself (an upstream status below 100)
  counts as a write although nothing was sent, so the envelope is skipped and the client gets a
  200 with an empty body.\<close>

theorem panic_answered:
  assumes "\<not> isCORSPreflight r"
  shows "case px_panicked (proxy_main E r) of
      None \<Rightarrow> serve E r = Some (rw_finish (px_w (proxy_main E r))) \<and>
              hd_errors (DataHandler E r) = px_errors (proxy_main E r)
    | Some v \<Rightarrow>
        hd_errors (DataHandler E r) =
          px_errors (proxy_main E r) @ [(''internal_error'', VersionUnknown, '''')] \<and>
        (\<exists>w. serve E r = Some w \<and>
          (if px_panic (proxy_main E r) = None then sent_status w = Some 200 \<and> rw_body w = ''''
           else seen w = seen_envelope E (InternalError '''') \<and> we_status (InternalError '''') = 500 \<and>
                sent_header w HeaderContractVersion = raw_version (en_cfg E) r))"
proof -
  let ?q = "proxy_main E r"
  let ?e = "InternalError ''''"
  have e: "200 \<le> we_status ?e" "we_status ?e \<le> 999" "body_allowed (we_status ?e)" "we_status ?e = 500"
    "we_code ?e = ''internal_error''"
    by (simp_all add: werror_ctor_defs body_allowed_def code_defs)
  note defs = serve_def DataHandler_def Recover_def proxy_def Let_def
  consider (none) "px_panicked ?q = None" | (pipeline) m where "px_panic ?q = Some m"
    | (writer) "px_panic ?q = None" "rw_panicked (px_w ?q)"
    by (cases "px_panic ?q") (auto simp: px_panicked_None)
  then show ?thesis
  proof cases
    case none
    then show ?thesis using assms by (simp add: defs)
  next
    case pipeline
    have w: "fresh_writer (px_w ?q)" by (rule fresh_panic [OF proxy_main_answered pipeline])
    then have s: "rw_sent (px_w ?q) = None" "\<not> rw_panicked (px_w ?q)" "rw_body (px_w ?q) = ''''"
      "\<not> rw_attempted (px_w ?q)"
      by (simp_all add: fresh_writer_def)
    let ?w = "wire_write (en_error_pb E) ?e (raw_version (en_cfg E) r) (px_w ?q)"
    note ww = wire_write_sent [OF s(1,2) e(1,2), of "en_error_pb E" "raw_version (en_cfg E) r"]
    have sent: "rw_sent ?w \<noteq> None" using ww(1) by (auto simp: sent_status_def)
    have "serve E r = Some ?w"
      using assms pipeline s(4) sent by (simp add: defs px_panicked_def rw_finish_def)
    moreover have "seen ?w = seen_envelope E ?e"
      using ww(1,2) ww(5) [OF s(3) e(3)] by (simp add: seen_def seen_envelope_def)
    moreover have "sent_header ?w HeaderContractVersion = raw_version (en_cfg E) r"
      using ww(3) by simp
    moreover have "hd_errors (DataHandler E r) = px_errors ?q @ [(''internal_error'', VersionUnknown, '''')]"
      using assms pipeline s(4) e(5) by (simp add: defs px_panicked_def)
    ultimately show ?thesis using pipeline e(4) by (simp add: px_panicked_def)
  next
    case writer
    note w = writer_panic [OF proxy_main_answered writer(2)]
    then show ?thesis using assms writer e(5)
      by (simp add: defs px_panicked_def rw_finish_def sent_status_def)
  qed
qed

theorem panic_answered_witness:
  "\<exists>w. serve (edge_env (edge_reply 42)) (edge_request ''v2'') = Some w \<and> sent_status w = Some 200 \<and>
       rw_body w = '''' \<and> sent_header w HeaderWavefrontError = codeUpstreamStatus"
proof -
  let ?E = "edge_env (edge_reply 42)" and ?r = "edge_request ''v2''"
  have "\<not> isCORSPreflight ?r" by code_simp
  note p = panic_answered [OF this, of ?E]
  have q: "px_panicked (proxy_main ?E ?r) = Some (PanicValue ''invalid WriteHeader code'')"
    "px_panic (proxy_main ?E ?r) = None" by code_simp+
  have "map_option (\<lambda>w. sent_header w HeaderWavefrontError) (serve ?E ?r) = Some codeUpstreamStatus" by code_simp
  with p q show ?thesis by auto
qed

section \<open>A request message without fields\<close>

lemma empty_body_transforms:
  assumes "json_unmarshal (en_text E) '''' = None" and "link \<in> set links" "request_ops link \<noteq> []"
  shows "request_transforms E links '''' = Inl (fail_as True ''transform target is not a JSON object'')"
  using assms(2,3) unfolding request_transforms_def
proof (induction links)
  case (Cons l links)
  show ?case
  proof (cases "request_ops l = []")
    case True
    then have "ApplyRequest (en_text E) (request_ops l) '''' = Inr ''''"
      by (simp add: ApplyRequest_def apply_body_def)
    then show ?thesis using Cons True by auto
  next
    case False
    then show ?thesis using assms(1) by (simp add: ApplyRequest_def apply_body_def)
  qed
qed simp

text \<open>C21. A contract whose request message has no fields sends no body upstream, so a request
  operation anywhere on its chain has no document to work on: every such request is refused with
  422 and never reaches the upstream, although the bundle loaded.\<close>

theorem bodyless_operations_always_fail:
  assumes "admitted E r b" and "resolved E r b c" and "rq_body r = (bs, True)"
    and "int (length bs) \<le> MaxBodyBytes (en_cfg E)"
    and "resolver_of (en_decode E) (request_message c) = Some md" and "field_count (en_codec E) md = 0"
    and "link \<in> set (chain c)" and "request_ops link \<noteq> []"
    and "json_unmarshal (en_text E) '''' = None"
  shows "seen (px_w (proxy_main E r)) =
      seen_envelope E (TransformFailedRequest ''transform target is not a JSON object'') \<and>
    px_calls (proxy_main E r) = []"
proof -
  let ?init = "px_init (en_cfg E) r"
  let ?p = "negotiated c (?init\<lparr>px_read := True\<rparr>)"
  let ?e = "TransformFailedRequest ''transform target is not a JSON object''"
  have admit: "admit E r ?init = Inr b"
    using assms(1) by (auto simp: admit_def admitted_def)
  have read: "read_body E r ?init = Inr (?init\<lparr>px_read := True\<rparr>, bs)"
    using assms(3,4) by (simp add: read_body_def read_limited_def Let_def)
  have neg: "negotiate E r b (?init\<lparr>px_read := True\<rparr>) = Inr (?p, c)"
    using assms(2) by (simp add: negotiate_def resolved_def)
  obtain call where call: "DecodeRequest (en_codec E) (resolver_of (en_decode E)) c bs = Inr call" "uc_body call = ''''"
    using assms(5,6) by (simp add: DecodeRequest_def)
  have "proxy_main E r = fail_px E ?e ''request'' ?p"
    using empty_body_transforms [OF assms(9,7,8)]
    by (simp add: proxy_main_def pipeline_def admit read neg call finished_def fail_as_def)
  moreover have "fresh 0 ?p" by simp
  moreover have "body_allowed (we_status ?e)" "we_status ?e = 422"
    by (simp_all add: werror_ctor_defs body_allowed_def)
  ultimately show ?thesis
    using seen_fail(1) [of 0 ?p ?e E "''request''"]
    by (simp add: fail_px_def writeError_def negotiated_def px_init_def)
qed

definition bodyless_env :: "(string, string) env" where
  "bodyless_env = (edge_env DeadlineExceeded)\<lparr>en_codec := echo_codec\<lparr>field_count := \<lambda>md. 0\<rparr>\<rparr>"

theorem bodyless_operations_always_fail_witness:
  "px_calls (proxy_main bodyless_env (edge_request ''v1'')) = []"
proof -
  let ?r = "edge_request ''v1''"
  let ?c = "the (Lookup demo_bundle ''/orders'' ''POST'' ''v1'' [request_selectors edge_config ?r])"
  have env: "en_start bodyless_env = Some demo_bundle" "en_decode bodyless_env = Some demo_bundle"
    "en_cfg bodyless_env = edge_config" "en_text bodyless_env = no_text"
    "field_count (en_codec bodyless_env) md = 0" for md
    by (simp_all add: bodyless_env_def)
  have "LookupRoute demo_bundle (rq_path ?r) (rq_method ?r) \<noteq> None \<and>
      isProtobufContentType (h_get (rq_header ?r) HeaderContentType)" by code_simp
  then have a: "admitted bodyless_env ?r demo_bundle"
    by (simp add: admitted_def env edge_request_def edge_config_def)
  have "Option.is_none (Lookup demo_bundle ''/orders'' ''POST'' ''v1'' [request_selectors edge_config ?r]) = False \<and>
      trim_space (h_get (rq_header ?r) (ContractVersionHeader edge_config)) = ''v1''" by code_simp
  then have c: "resolved bodyless_env ?r demo_bundle ?c"
    by (cases "Lookup demo_bundle ''/orders'' ''POST'' ''v1'' [request_selectors edge_config ?r]")
      (auto simp: resolved_def Resolve_Inr env edge_request_def)
  have m: "resolver_of (en_decode bodyless_env) (request_message ?c) = Some (the (Message demo_bundle (request_message ?c)))"
  proof -
    have "Option.is_none (Message demo_bundle (request_message ?c)) = False" by code_simp
    then show ?thesis by (cases "Message demo_bundle (request_message ?c)") (simp_all add: resolver_of_def env)
  qed
  have l: "hd (chain ?c) \<in> set (chain ?c) \<and> request_ops (hd (chain ?c)) \<noteq> []" by code_simp
  have b: "rq_body ?r = (''{}'', True)" by (simp add: edge_request_def)
  show ?thesis
    using bodyless_operations_always_fail [OF a c b _ m env(5) conjunct1 [OF l] conjunct2 [OF l]]
    by (simp add: env edge_config_def no_text_def)
qed

section \<open>Preflight\<close>

lemma nosniff_key: "canonical_key ''X-Content-Type-Options'' = ''X-Content-Type-Options''"
  by code_simp

lemma cors_keeps_labels:
  "h_values (copyCORSHeaders dst src) HeaderWavefrontError = h_values dst HeaderWavefrontError"
  "h_values (copyCORSHeaders dst src) HeaderContractVersion = h_values dst HeaderContractVersion"
  by (rule cors_keeps_prefixed; simp add: wire_header_defs)+

text \<open>C22. A preflight is no contract request: it goes to the default upstream with the client's
  headers, counts and logs nothing, and what comes back carries neither a version nor an error
  label, the upstream's status (when it is final and valid) or 502.\<close>

theorem preflight_bypasses_contract:
  assumes "isCORSPreflight r" and "hd_panic (proxy E r) = None"
  shows "let h = proxy E r; u = \<lparr>ur_method = ''OPTIONS'', ur_url = preflight_url (en_cfg E) r,
        ur_header = forwardClientHeaders [] (rq_header r), ur_body = ''''\<rparr> in
    hd_errors h = [] \<and> hd_effects h = None \<and>
    hd_calls h = (if en_valid_request E ''OPTIONS'' (preflight_url (en_cfg E) r) then [u] else []) \<and>
    sent_header (hd_w h) HeaderContractVersion = '''' \<and>
    sent_header (hd_w h) HeaderWavefrontError = '''' \<and>
    (case en_upstream E u of
       Reply resp \<Rightarrow> hd_calls h = [u] \<and> 200 \<le> us_status resp \<longrightarrow> sent_status (hd_w h) = Some (us_status resp)
     | _ \<Rightarrow> sent_status (hd_w h) = Some 502)"
proof -
  let ?url = "preflight_url (en_cfg E) r"
  let ?u = "\<lparr>ur_method = ''OPTIONS'', ur_url = ?url, ur_header = forwardClientHeaders [] (rq_header r), ur_body = ''''\<rparr>"
  have unset: "h_get (copyCORSHeaders [] h) HeaderContractVersion = ''''"
    "h_get (copyCORSHeaders [] h) HeaderWavefrontError = ''''" for h
    by (simp_all add: h_get_def cors_keeps_labels)
  have refused: "sent_status (http_error msg 502 new_writer) = Some 502"
    "sent_header (http_error msg 502 new_writer) HeaderContractVersion = ''''"
    "sent_header (http_error msg 502 new_writer) HeaderWavefrontError = ''''" for msg
    by (simp_all add: http_error_def new_writer_def rw_write_def rw_write_header_def Let_def sent_status_def
        sent_header_def header_simps wire_header_defs nosniff_key)
  show ?thesis
  proof (cases "en_valid_request E ''OPTIONS'' ?url")
    case False
    then have "proxyPreflight E r new_writer = (http_error ''preflight request build failed'' 502 new_writer, [])"
      by (simp add: proxyPreflight_def Let_def)
    then show ?thesis using assms(1) False refused
      by (simp add: proxy_def Let_def split: up_reply.split)
  next
    case valid: True
    show ?thesis
    proof (cases "en_upstream E ?u")
      case (Reply resp)
      let ?c = "new_writer\<lparr>rw_header := copyCORSHeaders [] (us_header resp)\<rparr>"
      let ?w = "if h_get (us_header resp) ''Allow'' = '''' then ?c
        else rw_set ''Allow'' (h_get (us_header resp) ''Allow'') ?c"
      let ?v = "rw_write (fst (us_body resp)) (rw_write_header (us_status resp) ?w)"
      have p: "proxyPreflight E r new_writer = (?v, [?u])"
        using valid Reply by (simp add: proxyPreflight_def Let_def new_writer_def)
      have np: "\<not> rw_panicked ?v"
        using assms p by (auto simp: proxy_def split: if_splits)
      have w: "rw_sent ?w = None" "\<not> rw_panicked ?w" by (simp_all add: new_writer_def)
      note h = reply_sent [OF w np]
      have "h_get (rw_header ?w) HeaderContractVersion = ''''" "h_get (rw_header ?w) HeaderWavefrontError = ''''"
        using unset by (simp_all add: header_simps wire_header_defs new_writer_def)
      moreover have "sent_status ?v = Some (us_status resp)" if "200 \<le> us_status resp"
        using np w that by (auto simp: rw_write_def rw_write_header_def Let_def sent_status_def split: if_splits)
      ultimately show ?thesis using assms(1) p valid Reply h by (simp add: proxy_def)
    qed (use assms(1) valid refused in \<open>simp_all add: proxy_def proxyPreflight_def Let_def\<close>)
  qed
qed

definition preflight_request :: request where
  "preflight_request = (edge_request ''v2'')\<lparr>rq_method := ''OPTIONS'',
     rq_header := [(''Origin'', [''http://app'']), (''Access-Control-Request-Method'', [''POST''])]\<rparr>"

theorem preflight_bypasses_contract_witness:
  "sent_header (hd_w (proxy (edge_env (edge_reply 204)) preflight_request)) HeaderContractVersion = '''' \<and>
   sent_status (hd_w (proxy (edge_env (edge_reply 204)) preflight_request)) = Some 204"
proof -
  have "isCORSPreflight preflight_request" "hd_panic (proxy (edge_env (edge_reply 204)) preflight_request) = None"
    by code_simp+
  from preflight_bypasses_contract [OF this] show ?thesis
    by (simp add: Let_def edge_env_def edge_reply_def)
qed

end
