(* ===== verification/Server_Boundary.thy ===== *)
theory Server_Boundary
  imports Server_Handler
begin

text \<open>
  \<open>internal/server/stdlib_boundary.go\<close>: counting the connections \<open>net/http\<close> answered without the
  handler.  The state is the map \<open>connStateMap\<close>, the sniffing connections and the increments of
  \<open>wavefront_stdlib_boundary_total\<close> by label; an event is one callback, one entry of the handler
  chain, or one write to a connection.  Connections are the values of \<open>net.Conn\<close>, and the events of
  many of them interleave.
\<close>

section \<open>The first response line\<close>

definition index_byte :: "char \<Rightarrow> string \<Rightarrow> nat option" where
  "index_byte c s = (if c \<in> set s then Some (length (takeWhile (\<lambda>x. x \<noteq> c) s)) else None)"

text \<open>The loop over the digits, with its early return.\<close>

definition parse_digits :: "string \<Rightarrow> int" where
  "parse_digits ds =
     (if list_all is_digit ds then foldl (\<lambda>n b. n * 10 + int (digit_val b)) 0 ds else 0)"

definition parseStatusLine :: "string \<Rightarrow> int" where
  "parseStatusLine p =
     (if length p < length ''HTTP/1.1 200 '' \<or> \<not> prefix ''HTTP/'' p then 0
      else
        (case index_byte CHR '' '' p of
           None \<Rightarrow> 0
         | Some sp \<Rightarrow>
             if length p \<le> sp + 3 then 0 else parse_digits (take 3 (drop (sp + 1) p))))"

section \<open>Connections\<close>

type_synonym conn = nat

datatype conn_state = StateNew | StateActive | StateIdle | StateHijacked | StateClosed

text \<open>\<open>sniffingConn\<close>: whether \<open>statusOnce\<close> has fired, and the status.\<close>

record sniffing =
  sn_once :: bool
  sn_status :: int

record boundary =
  connStateMap :: "conn \<Rightarrow> bool option"      \<comment> \<open>\<open>connEntry.handlerRan\<close>\<close>
  conns :: "conn \<Rightarrow> sniffing option"         \<comment> \<open>the connections the listener wrapped\<close>
  stdlibBoundary :: "string list"             \<comment> \<open>the labels of the increments, in order\<close>

definition boundary_init :: boundary where
  "boundary_init = \<lparr>connStateMap = Map.empty, conns = Map.empty, stdlibBoundary = []\<rparr>"

definition Accept :: "conn \<Rightarrow> boundary \<Rightarrow> boundary" where
  "Accept c s = s\<lparr>conns := (conns s)(c \<mapsto> \<lparr>sn_once = False, sn_status = 0\<rparr>)\<rparr>"

definition conn_write :: "string \<Rightarrow> sniffing \<Rightarrow> sniffing" where
  "conn_write p k = (if p \<noteq> '''' \<and> \<not> sn_once k then \<lparr>sn_once = True, sn_status = parseStatusLine p\<rparr> else k)"

definition Write :: "conn \<Rightarrow> string \<Rightarrow> boundary \<Rightarrow> boundary" where
  "Write c p s =
     (case conns s c of None \<Rightarrow> s | Some k \<Rightarrow> s\<lparr>conns := (conns s)(c \<mapsto> conn_write p k)\<rparr>)"

definition capturedStatus :: "sniffing \<Rightarrow> int" where
  "capturedStatus k = sn_status k"

definition boundaryStatusLabel :: "conn \<Rightarrow> boundary \<Rightarrow> string" where
  "boundaryStatusLabel c s =
     (case conns s c of
        None \<Rightarrow> ''unknown''
      | Some k \<Rightarrow> if capturedStatus k = 0 then ''unknown'' else itoa (capturedStatus k))"

fun connState :: "conn \<Rightarrow> conn_state \<Rightarrow> boundary \<Rightarrow> boundary" where
  "connState c StateNew s = s"
| "connState c StateActive s = s\<lparr>connStateMap := (connStateMap s)(c \<mapsto> False)\<rparr>"
| "connState c StateIdle s = s"
| "connState c StateHijacked s = s\<lparr>connStateMap := (connStateMap s)(c := None)\<rparr>"
| "connState c StateClosed s =
     (let raw = connStateMap s c; s = s\<lparr>connStateMap := (connStateMap s)(c := None)\<rparr> in
        (case raw of
           None \<Rightarrow> s
         | Some handlerRan \<Rightarrow>
             if \<not> handlerRan then
               s\<lparr>stdlibBoundary := stdlibBoundary s @ [boundaryStatusLabel c s]\<rparr>
             else s))"

definition markHandlerSeen :: "conn \<Rightarrow> boundary \<Rightarrow> boundary" where
  "markHandlerSeen c s =
     (case connStateMap s c of
        None \<Rightarrow> s
      | Some _ \<Rightarrow> s\<lparr>connStateMap := (connStateMap s)(c \<mapsto> True)\<rparr>)"

section \<open>Histories\<close>

datatype conn_event =
    Accepted conn
  | State conn conn_state
  | Handler conn
  | Wrote conn string

fun boundary_step :: "conn_event \<Rightarrow> boundary \<Rightarrow> boundary" where
  "boundary_step (Accepted c) s = Accept c s"
| "boundary_step (State c st) s = connState c st s"
| "boundary_step (Handler c) s = markHandlerSeen c s"
| "boundary_step (Wrote c p) s = Write c p s"

definition boundary_run :: "conn_event list \<Rightarrow> boundary" where
  "boundary_run es = fold boundary_step es boundary_init"

text \<open>The specification reads a history backwards, newest event first, one connection at a time.
  \<open>unserved c h\<close>: the newest event of \<open>c\<close> that matters is \<open>StateActive\<close>, so bytes of a request
  arrived and the handler has not run since.\<close>

fun unserved :: "conn \<Rightarrow> conn_event list \<Rightarrow> bool option" where
  "unserved c [] = None"
| "unserved c (State d StateActive # h) = (if d = c then Some True else unserved c h)"
| "unserved c (State d StateHijacked # h) = (if d = c then None else unserved c h)"
| "unserved c (State d StateClosed # h) = (if d = c then None else unserved c h)"
| "unserved c (Handler d # h) = (if d = c then map_option (\<lambda>_. False) (unserved c h) else unserved c h)"
| "unserved c (_ # h) = unserved c h"

text \<open>The first bytes written to \<open>c\<close> since it was accepted.\<close>

fun first_write :: "conn \<Rightarrow> conn_event list \<Rightarrow> string option option" where
  "first_write c [] = None"
| "first_write c (Accepted d # h) = (if d = c then Some None else first_write c h)"
| "first_write c (Wrote d p # h) =
     (if d = c then
        map_option (\<lambda>w. if w = None \<and> p \<noteq> '''' then Some p else w) (first_write c h)
      else first_write c h)"
| "first_write c (_ # h) = first_write c h"

definition status_label :: "string option option \<Rightarrow> string" where
  "status_label w =
     (case w of
        Some (Some p) \<Rightarrow> if parseStatusLine p = 0 then ''unknown'' else itoa (parseStatusLine p)
      | _ \<Rightarrow> ''unknown'')"

fun boundary_failures :: "conn_event list \<Rightarrow> string list" where
  "boundary_failures [] = []"
| "boundary_failures (State c StateClosed # h) =
     boundary_failures h @ (if unserved c h = Some True then [status_label (first_write c h)] else [])"
| "boundary_failures (_ # h) = boundary_failures h"

text \<open>The abstraction relation between a history and the state the code is in.\<close>

definition sniff_of :: "string option \<Rightarrow> sniffing" where
  "sniff_of w =
     (case w of None \<Rightarrow> \<lparr>sn_once = False, sn_status = 0\<rparr>
      | Some p \<Rightarrow> \<lparr>sn_once = True, sn_status = parseStatusLine p\<rparr>)"

definition abs_boundary :: "conn_event list \<Rightarrow> boundary" where
  "abs_boundary h =
     \<lparr>connStateMap = (\<lambda>c. map_option Not (unserved c h)),
      conns = (\<lambda>c. map_option sniff_of (first_write c h)),
      stdlibBoundary = boundary_failures h\<rparr>"

lemma conn_write_sniff: "conn_write p (sniff_of w) = sniff_of (if w = None \<and> p \<noteq> '''' then Some p else w)"
  by (cases w) (auto simp: conn_write_def sniff_of_def)

lemma label_abs: "boundaryStatusLabel c (abs_boundary h) = status_label (first_write c h)"
  by (auto simp: boundaryStatusLabel_def abs_boundary_def status_label_def sniff_of_def capturedStatus_def
      split: option.splits)

lemma label_frame: "conns s = conns t \<Longrightarrow> boundaryStatusLabel c s = boundaryStatusLabel c t"
  by (simp add: boundaryStatusLabel_def)

lemma Accept_abs: "Accept c (abs_boundary h) = abs_boundary (Accepted c # h)"
  by (auto simp: Accept_def abs_boundary_def sniff_of_def fun_eq_iff)

lemma Write_abs: "Write c p (abs_boundary h) = abs_boundary (Wrote c p # h)"
proof (cases "first_write c h")
  case None
  then show ?thesis by (auto simp: Write_def abs_boundary_def fun_eq_iff)
next
  case (Some w)
  then show ?thesis
    by (auto simp: Write_def abs_boundary_def fun_eq_iff conn_write_sniff)
qed

lemma markHandlerSeen_abs: "markHandlerSeen c (abs_boundary h) = abs_boundary (Handler c # h)"
  by (cases "unserved c h") (auto simp: markHandlerSeen_def abs_boundary_def fun_eq_iff)

lemma connState_abs: "connState c st (abs_boundary h) = abs_boundary (State c st # h)"
proof (cases st)
  case StateClosed
  have "boundaryStatusLabel c (abs_boundary h\<lparr>connStateMap := m\<rparr>) = status_label (first_write c h)" for m
    using label_frame [of "abs_boundary h\<lparr>connStateMap := m\<rparr>" "abs_boundary h"] label_abs by simp
  then show ?thesis
    unfolding StateClosed
    by (cases "unserved c h") (auto simp: Let_def abs_boundary_def fun_eq_iff)
qed (auto simp: abs_boundary_def fun_eq_iff)

lemma boundary_step_abs: "boundary_step e (abs_boundary h) = abs_boundary (e # h)"
  by (cases e) (simp_all add: Accept_abs Write_abs markHandlerSeen_abs connState_abs)

lemma boundary_run_abs: "boundary_run es = abs_boundary (rev es)"
proof (induction es rule: rev_induct)
  case Nil
  show ?case by (simp add: boundary_run_def boundary_init_def abs_boundary_def)
next
  case (snoc e es)
  then show ?case using boundary_step_abs [of e "rev es"] by (simp add: boundary_run_def)
qed

section \<open>The life of a connection\<close>

text \<open>What \<open>net/http\<close> documents of \<open>ConnState\<close>: new, then active; the handler runs at most once per
  active phase and after it the connection is idle until the next one; closed and hijacked are
  terminal, and a closed connection is closed once.  \<open>life c es ph\<close> holds when the events of \<open>c\<close>
  within the history \<open>es\<close> follow that protocol and lead to the phase \<open>ph\<close>; the events of other
  connections are arbitrary.\<close>

datatype phase = Unseen | Fresh | Active | Served | Parked | Gone

fun conn_of :: "conn_event \<Rightarrow> conn" where
  "conn_of (Accepted c) = c"
| "conn_of (State c st) = c"
| "conn_of (Handler c) = c"
| "conn_of (Wrote c p) = c"

inductive phase_step :: "phase \<Rightarrow> conn_event \<Rightarrow> phase \<Rightarrow> bool" where
  ps_accept: "phase_step Unseen (Accepted c) Unseen"
| ps_new: "phase_step Unseen (State c StateNew) Fresh"
| ps_active: "phase_step Fresh (State c StateActive) Active"
| ps_dropped: "phase_step Fresh (State c StateClosed) Gone"
| ps_handler: "phase_step Active (Handler c) Served"
| ps_refused: "phase_step Active (State c StateClosed) Gone"
| ps_idle: "phase_step Served (State c StateIdle) Parked"
| ps_reply: "phase_step ph (Wrote c p) ph"
| ps_again: "phase_step Parked (State c StateActive) Active"
| ps_closed: "ph \<in> {Served, Parked} \<Longrightarrow> phase_step ph (State c StateClosed) Gone"
| ps_hijacked: "phase_step Served (State c StateHijacked) Gone"

inductive life :: "conn \<Rightarrow> conn_event list \<Rightarrow> phase \<Rightarrow> bool" for c where
  life_start: "life c [] Unseen"
| life_other: "life c es ph \<Longrightarrow> conn_of e \<noteq> c \<Longrightarrow> life c (es @ [e]) ph"
| life_step: "life c es ph \<Longrightarrow> conn_of e = c \<Longrightarrow> phase_step ph e ph' \<Longrightarrow> life c (es @ [e]) ph'"

inductive_cases phase_closedE: "phase_step ph (State c StateClosed) ph'"
inductive_simps phase_step_simps [simp]:
  "phase_step ph (Accepted c) ph'" "phase_step ph (State c st) ph'" "phase_step ph (Handler c) ph'"
  "phase_step ph (Wrote c p) ph'"

fun entry_of :: "phase \<Rightarrow> bool option" where
  "entry_of Active = Some False"
| "entry_of Served = Some True"
| "entry_of Parked = Some True"
| "entry_of _ = None"

lemma unserved_other: "conn_of e \<noteq> c \<Longrightarrow> unserved c (e # h) = unserved c h"
proof (cases e)
  case (State d st)
  assume "conn_of e \<noteq> c"
  then show ?thesis by (cases st) (simp_all add: State)
qed simp_all

lemma phase_entry:
  assumes "phase_step ph e ph'" "conn_of e = c" "map_option Not (unserved c h) = entry_of ph"
  shows "map_option Not (unserved c (e # h)) = entry_of ph'"
  using assms by (cases rule: phase_step.cases) (auto simp: map_option_case split: option.splits)

lemma life_entry: "life c es ph \<Longrightarrow> map_option Not (unserved c (rev es)) = entry_of ph"
proof (induction rule: life.induct)
  case (life_step es ph e ph')
  then show ?case using phase_entry [of ph e ph' c "rev es"] by simp
qed (simp_all add: unserved_other)

lemma boundary_entry: "connStateMap (boundary_run es) c = map_option Not (unserved c (rev es))"
  by (simp add: boundary_run_abs abs_boundary_def)

lemma boundary_close:
  "stdlibBoundary (boundary_run (es @ [State c StateClosed])) =
     stdlibBoundary (boundary_run es) @
       (if unserved c (rev es) = Some True then [status_label (first_write c (rev es))] else [])"
  "connStateMap (boundary_run (es @ [State c StateClosed])) c = None"
  by (simp_all add: boundary_run_abs abs_boundary_def)

section \<open>Properties\<close>

text \<open>C23. Over every interleaving of callbacks, handler entries and writes, the counter holds exactly
  the failures of the specification, in order: one for each close of a connection that became
  active and was not handed to the handler since, labelled by the first bytes written to it; and
  the map has an entry exactly for the connections between an activation and their end.\<close>

theorem boundary_refines:
  "stdlibBoundary (boundary_run es) = boundary_failures (rev es) \<and>
   (connStateMap (boundary_run es) c = None \<longleftrightarrow> unserved c (rev es) = None) \<and>
   stdlibBoundary (boundary_run (es @ [State c StateClosed])) =
     stdlibBoundary (boundary_run es) @
       (if unserved c (rev es) = Some True then [status_label (first_write c (rev es))] else [])"
  by (simp add: boundary_close) (simp add: boundary_run_abs abs_boundary_def)

text \<open>C24. A connection that follows the documented life cycle is tracked exactly while it is live, its
  entry tells whether the handler has run in the current round, and its close is counted exactly
  when the handler has not: never for a connection that only connected, and never twice.\<close>

theorem boundary_life_cycle:
  assumes "life c es ph"
  shows "connStateMap (boundary_run es) c = entry_of ph \<and>
    (\<forall>ph'. phase_step ph (State c StateClosed) ph' \<longrightarrow>
       connStateMap (boundary_run (es @ [State c StateClosed])) c = None \<and>
       (stdlibBoundary (boundary_run (es @ [State c StateClosed])) \<noteq> stdlibBoundary (boundary_run es)
          \<longleftrightarrow> ph = Active))"
proof -
  from life_entry [OF assms] have e: "map_option Not (unserved c (rev es)) = entry_of ph" .
  have "entry_of ph = Some False \<longleftrightarrow> unserved c (rev es) = Some True"
    unfolding e [symmetric] by (cases "unserved c (rev es)") simp_all
  moreover have "entry_of ph = Some False \<longleftrightarrow> ph = Active"
    by (cases ph) simp_all
  ultimately have "unserved c (rev es) = Some True \<longleftrightarrow> ph = Active" by simp
  with e show ?thesis
    by (simp add: boundary_entry boundary_close)
qed

text \<open>A slow second request: the first one is served, the second one times out in its header, and
  is counted under the status of the first.\<close>

definition slow_second :: "conn_event list" where
  "slow_second = [Accepted 7, State 7 StateNew, Accepted 8, State 7 StateActive, Handler 7,
     Wrote 7 ''HTTP/1.1 200 OK'', State 8 StateNew, State 7 StateIdle, State 7 StateActive]"

lemma slow_second_life: "life 7 slow_second Active"
proof -
  have "life 7 [Accepted 7] Unseen" using life_step [OF life_start, of "Accepted 7" 7 Unseen] by simp
  from life_step [OF this, of "State 7 StateNew" Fresh]
  have "life 7 [Accepted 7, State 7 StateNew] Fresh" by simp
  from life_other [OF this, of "Accepted 8"]
  have "life 7 [Accepted 7, State 7 StateNew, Accepted 8] Fresh" by simp
  from life_step [OF this, of "State 7 StateActive" Active]
  have "life 7 (take 4 slow_second) Active" by (simp add: slow_second_def)
  from life_step [OF this, of "Handler 7" Served]
  have "life 7 (take 5 slow_second) Served" by (simp add: slow_second_def)
  from life_step [OF this, of "Wrote 7 ''HTTP/1.1 200 OK''" Served]
  have "life 7 (take 6 slow_second) Served" by (simp add: slow_second_def)
  from life_other [OF this, of "State 8 StateNew"]
  have "life 7 (take 7 slow_second) Served" by (simp add: slow_second_def)
  from life_step [OF this, of "State 7 StateIdle" Parked]
  have "life 7 (take 8 slow_second) Parked" by (simp add: slow_second_def)
  from life_step [OF this, of "State 7 StateActive" Active]
  show ?thesis by (simp add: slow_second_def)
qed

theorem boundary_life_cycle_witness:
  "stdlibBoundary (boundary_run (slow_second @ [State 7 StateClosed])) = [''200''] \<and>
   connStateMap (boundary_run slow_second) 7 = Some False"
proof -
  from boundary_life_cycle [OF slow_second_life]
  have "connStateMap (boundary_run slow_second) 7 = Some False" by simp
  moreover have "stdlibBoundary (boundary_run (slow_second @ [State 7 StateClosed])) = [''200'']" by code_simp
  ultimately show ?thesis by simp
qed

end
