(* ===== verification/Go_Path.thy ===== *)
theory Go_Path
  imports Go_Prelude
begin

text \<open>
  The part of package \<open>path/filepath\<close> the bundle commands use, on Unix: \<open>Clean\<close>, \<open>Join\<close> and \<open>Dir\<close>.
\<close>

section \<open>Definitions\<close>

text \<open>\<open>clean_step\<close> reads one element; the elements kept so far are in reverse.\<close>

definition clean_step :: "bool \<Rightarrow> string list \<Rightarrow> string \<Rightarrow> string list" where
  "clean_step rooted acc seg =
     (if seg = '''' \<or> seg = ''.'' then acc
      else if seg = ''..'' then
        (case acc of
           [] \<Rightarrow> (if rooted then [] else [''..''])
         | kept_seg # rest \<Rightarrow> if kept_seg = ''..'' then ''..'' # acc else rest)
      else seg # acc)"

definition is_rooted :: "string \<Rightarrow> bool" where
  "is_rooted p = prefix ''/'' p"

definition clean_elems :: "string \<Rightarrow> string list" where
  "clean_elems p = rev (foldl (clean_step (is_rooted p)) [] (split_on CHR ''/'' p))"

definition path_of :: "bool \<Rightarrow> string list \<Rightarrow> string" where
  "path_of rooted segs =
     (if rooted then CHR ''/'' # join_with ''/'' segs
      else if segs = [] then ''.'' else join_with ''/'' segs)"

definition Clean :: "string \<Rightarrow> string" where
  "Clean p = path_of (is_rooted p) (clean_elems p)"

text \<open>Leading empty elements are dropped.\<close>

fun Join :: "string list \<Rightarrow> string" where
  "Join [] = ''''"
| "Join (e # es) = (if e = '''' then Join es else Clean (join_with ''/'' (e # es)))"

text \<open>Everything up to and with the last separator, cleaned.\<close>

definition Dir :: "string \<Rightarrow> string" where
  "Dir p = Clean (rev (dropWhile (\<lambda>c. c \<noteq> CHR ''/'') (rev p)))"

section \<open>Cleaned paths\<close>

text \<open>What \<open>clean_step\<close> keeps: proper names, above them in an unrooted path any number of \<open>..\<close>.\<close>

definition proper :: "string \<Rightarrow> bool" where
  "proper seg = (seg \<noteq> '''' \<and> seg \<noteq> ''.'' \<and> seg \<noteq> ''..'' \<and> CHR ''/'' \<notin> set seg)"

definition kept :: "bool \<Rightarrow> string list \<Rightarrow> bool" where
  "kept rooted acc = (\<exists>names n. acc = names @ replicate n ''..'' \<and> list_all proper names \<and> (rooted \<longrightarrow> n = 0))"

lemma kept_Nil [simp]: "kept rooted []"
  by (auto simp: kept_def)

lemma kept_proper: "kept rooted acc \<Longrightarrow> proper seg \<Longrightarrow> kept rooted (seg # acc)"
  unfolding kept_def by (metis append_Cons list.pred_inject(2))

lemma kept_up:
  assumes "kept rooted acc"
  shows "kept rooted (clean_step rooted acc ''..'')"
proof -
  obtain names n where acc: "acc = names @ replicate n ''..''" "list_all proper names" "rooted \<longrightarrow> n = 0"
    using assms by (auto simp: kept_def)
  show ?thesis
  proof (cases names)
    case Nil
    then have "clean_step rooted acc ''..'' = replicate (if rooted then 0 else Suc n) ''..''"
      using acc by (cases n) (auto simp: clean_step_def)
    then show ?thesis unfolding kept_def using acc(3) by (intro exI [of _ "[]"] exI [of _ "if rooted then 0 else Suc n"]) simp
  next
    case (Cons a names')
    then have "clean_step rooted acc ''..'' = names' @ replicate n ''..''"
      using acc(1,2) by (auto simp: clean_step_def proper_def)
    then show ?thesis using acc(2,3) Cons by (auto simp: kept_def)
  qed
qed

lemma kept_step:
  assumes "kept rooted acc" and "CHR ''/'' \<notin> set seg"
  shows "kept rooted (clean_step rooted acc seg)"
proof (cases "seg = ''..''")
  case True
  with kept_up [OF assms(1)] show ?thesis by simp
next
  case False
  show ?thesis
  proof (cases "seg = '''' \<or> seg = ''.''")
    case True
    with assms(1) show ?thesis by (auto simp: clean_step_def)
  next
    case name: False
    with False assms(2) have "proper seg" by (simp add: proper_def)
    with False name kept_proper [OF assms(1)] show ?thesis by (simp add: clean_step_def)
  qed
qed

lemma kept_fold:
  "kept rooted acc \<Longrightarrow> (\<And>s. s \<in> set segs \<Longrightarrow> CHR ''/'' \<notin> set s) \<Longrightarrow> kept rooted (foldl (clean_step rooted) acc segs)"
  by (induction segs arbitrary: acc) (simp_all add: kept_step)

lemma kept_clean: "kept (is_rooted p) (rev (clean_elems p))"
  unfolding clean_elems_def rev_rev_ident by (rule kept_fold) (simp_all add: split_on_mem)

lemma kept_no_slash:
  assumes "kept rooted acc" and "s \<in> set acc"
  shows "CHR ''/'' \<notin> set s \<and> s \<noteq> ''''"
proof -
  obtain names n where acc: "acc = names @ replicate n ''..''" "list_all proper names"
    using assms(1) by (auto simp: kept_def)
  from assms(2) have "s \<in> set names \<or> s = ''..''" unfolding acc(1) by auto
  then show ?thesis
  proof
    assume "s \<in> set names"
    with acc(2) have "proper s" by (simp add: list_all_iff)
    then show ?thesis by (simp add: proper_def)
  qed simp
qed

text \<open>Cleaning what is clean changes nothing.\<close>

lemma clean_kept: "kept rooted acc \<Longrightarrow> foldl (clean_step rooted) [] (rev acc) = acc"
proof -
  have ups: "foldl (clean_step False) [] (replicate n ''..'') = replicate n ''..''" for n
  proof (induction n)
    case (Suc n)
    have "foldl (clean_step False) [] (replicate (Suc n) ''..'')
        = foldl (clean_step False) [] (replicate n ''..'' @ [''..''])"
      by (simp add: replicate_append_same)
    also have "\<dots> = clean_step False (replicate n ''..'') ''..''" by (simp add: Suc)
    also have "\<dots> = replicate (Suc n) ''..''" by (cases n) (simp_all add: clean_step_def)
    finally show ?case .
  qed simp
  have one: "clean_step r acc s = s # acc" if "proper s" for s acc r
    using that by (simp add: clean_step_def proper_def)
  have names: "foldl (clean_step r) acc (rev names) = names @ acc" if "list_all proper names" for names acc r
    using that by (induction names) (simp_all add: one)
  assume "kept rooted acc"
  then obtain names n where acc: "acc = names @ replicate n ''..''" "list_all proper names" "rooted \<longrightarrow> n = 0"
    by (auto simp: kept_def)
  then show ?thesis by (cases rooted) (simp_all add: names ups)
qed

lemma split_on_join_append: "split_on c (s @ c # t) = split_on c s @ split_on c t"
proof (induction s)
  case (Cons x s)
  obtain p ps where "split_on c s = p # ps" by (cases "split_on c s") auto
  with Cons show ?case by simp
qed simp

lemma skip_empty: "foldl (clean_step rooted) acc ([''''] @ segs) = foldl (clean_step rooted) acc segs"
  by (simp add: clean_step_def)

text \<open>The elements of a printed path, also with a separator at its end.\<close>

lemma elems_path_of:
  assumes "kept rooted (rev segs)"
  shows "is_rooted (path_of rooted segs) = rooted" "clean_elems (path_of rooted segs) = segs"
    and "segs \<noteq> [] \<Longrightarrow> is_rooted (path_of rooted segs @ ''/'') = rooted \<and> clean_elems (path_of rooted segs @ ''/'') = segs"
proof -
  let ?j = "join_with ''/'' segs"
  have no: "CHR ''/'' \<notin> set s \<and> s \<noteq> ''''" if "s \<in> set segs" for s
    using kept_no_slash [OF assms, of s] that by simp
  have split: "split_on CHR ''/'' ?j = segs" if "segs \<noteq> []"
    using that no by (intro split_join) auto
  have head: "\<not> prefix ''/'' ?j" if "segs \<noteq> []"
  proof -
    obtain s ss where "segs = s # ss" using \<open>segs \<noteq> []\<close> by (cases segs) auto
    with no [of s] show ?thesis by (cases ss; cases s) auto
  qed
  have fold: "foldl (clean_step rooted) [] segs = rev segs"
    using clean_kept [OF assms] by simp
  have r: "is_rooted (path_of rooted segs) = rooted"
    using head by (auto simp: is_rooted_def path_of_def)
  then show "is_rooted (path_of rooted segs) = rooted" .
  show "clean_elems (path_of rooted segs) = segs"
  proof (cases "segs = []")
    case True
    then show ?thesis by (cases rooted) (simp_all add: clean_elems_def path_of_def is_rooted_def clean_step_def)
  next
    case False
    then show ?thesis
      using split fold r unfolding clean_elems_def by (cases rooted) (simp_all add: path_of_def clean_step_def)
  qed
  show "is_rooted (path_of rooted segs @ ''/'') = rooted \<and> clean_elems (path_of rooted segs @ ''/'') = segs" if "segs \<noteq> []"
  proof -
    have r': "is_rooted (path_of rooted segs @ ''/'') = rooted"
      using head [OF that] that no [of "hd segs"]
      by (cases segs rule: list.exhaust; cases "hd segs"; cases "tl segs") (auto simp: is_rooted_def path_of_def)
    have "split_on CHR ''/'' (path_of rooted segs @ ''/'') = (if rooted then ['''' ] else []) @ segs @ ['''']"
      using split [OF that] that by (simp add: path_of_def split_on_join_append)
    with r' fold show ?thesis by (cases rooted) (simp_all add: clean_elems_def clean_step_def)
  qed
qed

lemma Clean_idem [simp]: "Clean (Clean p) = Clean p"
  using elems_path_of [of "is_rooted p" "clean_elems p"] kept_clean [of p] by (simp add: Clean_def)

section \<open>A name below a directory\<close>

lemma Clean_child:
  assumes "proper v" and "d \<noteq> ''''"
  shows "Clean (d @ ''/'' @ v) = path_of (is_rooted d) (clean_elems d @ [v])"
proof -
  have r: "is_rooted (d @ ''/'' @ v) = is_rooted d"
    using assms(2) by (cases d) (auto simp: is_rooted_def)
  have "split_on CHR ''/'' v = [v]" using assms(1) by (intro split_on_no_sep) (simp add: proper_def)
  then have "clean_elems (d @ ''/'' @ v) = clean_elems d @ [v]"
    using r assms(1) by (simp add: clean_elems_def split_on_join_append clean_step_def proper_def)
  then show ?thesis using r by (simp add: Clean_def)
qed

lemma up_to_slash: "CHR ''/'' \<notin> set v \<Longrightarrow> rev (dropWhile (\<lambda>c. c \<noteq> CHR ''/'') (rev (d @ ''/'' @ v))) = d @ ''/''"
  by (simp add: dropWhile_append)

lemma join_with_snoc: "xs \<noteq> [] \<Longrightarrow> join_with sep (xs @ [x]) = join_with sep xs @ sep @ x"
  by (induction xs rule: induct_list012) auto

lemma Dir_child:
  assumes "proper v" and "kept rooted (rev segs)"
  shows "Dir (path_of rooted (segs @ [v])) = path_of rooted segs"
proof -
  have v: "CHR ''/'' \<notin> set v" using assms(1) by (simp add: proper_def)
  show ?thesis
  proof (cases "segs = []")
    case True
    show ?thesis
    proof (cases rooted)
      case r: True
      have "path_of rooted (segs @ [v]) = '''' @ ''/'' @ v" by (simp add: True r path_of_def)
      then have "Dir (path_of rooted (segs @ [v])) = Clean ''/''"
        unfolding Dir_def using up_to_slash [OF v, of "''''"] by simp
      moreover have "Clean ''/'' = ''/''" by code_simp
      ultimately show ?thesis by (simp add: True r path_of_def)
    next
      case r: False
      have "\<forall>c \<in> set (rev v). c \<noteq> CHR ''/''" using v by auto
      then have "dropWhile (\<lambda>c. c \<noteq> CHR ''/'') (rev v) = []" by (simp only: dropWhile_eq_Nil_conv)
      then have "Dir v = Clean ''''" by (simp only: Dir_def rev.simps)
      then have "Dir (path_of rooted (segs @ [v])) = Clean ''''" by (simp add: True r path_of_def)
      moreover have "Clean '''' = ''.''" by code_simp
      ultimately show ?thesis by (simp add: True r path_of_def)
    qed
  next
    case False
    then have "path_of rooted (segs @ [v]) = path_of rooted segs @ ''/'' @ v"
      by (simp add: path_of_def join_with_snoc)
    then have "Dir (path_of rooted (segs @ [v])) = Clean (path_of rooted segs @ ''/'')"
      unfolding Dir_def using up_to_slash [OF v] by simp
    then show ?thesis using elems_path_of(3) [OF assms(2) False] by (simp add: Clean_def)
  qed
qed

lemma Dir_Join:
  assumes "proper v"
  shows "Dir (Join [d, v]) = Clean d"
proof (cases "d = ''''")
  case True
  have "v \<noteq> ''''" using assms by (simp add: proper_def)
  have "\<not> is_rooted v" using assms by (cases v) (auto simp: proper_def is_rooted_def)
  moreover have "split_on CHR ''/'' v = [v]" using assms by (intro split_on_no_sep) (simp add: proper_def)
  ultimately have "Clean v = path_of False ([] @ [v])"
    using assms by (simp add: Clean_def clean_elems_def clean_step_def proper_def)
  with True \<open>v \<noteq> ''''\<close> Dir_child [OF assms, of False "[]"] show ?thesis
    by (simp add: Clean_def clean_elems_def is_rooted_def clean_step_def)
next
  case False
  then have "Join [d, v] = path_of (is_rooted d) (clean_elems d @ [v])"
    using Clean_child [OF assms False] by simp
  then show ?thesis using Dir_child [OF assms kept_clean [of d]] by (simp add: Clean_def)
qed

end
