(* ===== verification/Server_Run.thy ===== *)
theory Server_Run
  imports Probe Server_Replies Server_Boundary Go_Path
begin

text \<open>
  The life of the process: \<open>cmd/wavefront/main.go\<close>, \<open>New\<close>, \<open>OpsHandler\<close> and \<open>Run\<close> of
  \<open>internal/server/server.go\<close>, and the counters of \<open>metrics.go\<close>.

  What runs concurrently (the requests in flight, the SIGHUP loop, the listeners, the signal that
  ends it all) is the step relation \<open>run_step\<close>: one step is one access to what they share.  A request
  reads the live bundle pointer three times, each read a step of its own, so a reload can come in
  between.  \<open>pr_loads\<close> and \<open>pr_answers\<close> are history: they record what was installed and answered.
\<close>

section \<open>Counters\<close>

type_synonym 'l counter = "'l \<rightharpoonup> nat"

text \<open>\<open>WithLabelValues\<close> creates a series at zero; \<open>Inc\<close> on it adds one.\<close>

definition with_label :: "'l \<Rightarrow> 'l counter \<Rightarrow> 'l counter" where
  "with_label l m = (if m l = None then m(l \<mapsto> 0) else m)"

definition inc :: "'l \<Rightarrow> 'l counter \<Rightarrow> 'l counter" where
  "inc l m = (let m = with_label l m in m(l \<mapsto> Suc (the (m l))))"

record metrics =
  mt_requests :: "string counter"
  mt_errors :: "(string \<times> string \<times> string) counter"
  mt_boundary :: "string counter"

definition newMetrics :: metrics where
  "newMetrics = \<lparr>mt_requests = with_label VersionUnknown Map.empty, mt_errors = Map.empty,
                 mt_boundary = with_label ''unknown'' Map.empty\<rparr>"

definition record_handled :: "handled \<Rightarrow> metrics \<Rightarrow> metrics" where
  "record_handled h m =
     m\<lparr>mt_requests := (case hd_effects h of None \<Rightarrow> mt_requests m | Some e \<Rightarrow> inc (ef_requests e) (mt_requests m)),
       mt_errors := fold inc (hd_errors h) (mt_errors m)\<rparr>"

section \<open>The ops surface\<close>

text \<open>\<open>http.ServeMux\<close> on the patterns of \<open>OpsHandler\<close>: a path that is not clean is redirected, and so
  is a path that only lacks the final slash of a pattern.\<close>

definition clean_url_path :: "string \<Rightarrow> string" where
  "clean_url_path p =
     (if p = '''' then ''/''
      else
        let q = (if hd p = CHR ''/'' then p else CHR ''/'' # p); c = Clean q in
          if last q = CHR ''/'' \<and> c \<noteq> ''/'' then c @ ''/'' else c)"

definition pprof_pages :: "string list" where
  "pprof_pages = [''/debug/pprof/cmdline'', ''/debug/pprof/profile'', ''/debug/pprof/symbol'', ''/debug/pprof/trace'']"

datatype ops_reply =
    OpsPage response_writer
  | OpsMetrics metrics
  | OpsPprof string
  | OpsMoved string
  | OpsNotFound

definition OpsHandler :: "'m server \<Rightarrow> metrics \<Rightarrow> string \<Rightarrow> ops_reply" where
  "OpsHandler s m path =
     (let p = clean_url_path path in
        if p = ''/debug/pprof'' then OpsMoved ''/debug/pprof/''
        else if p \<noteq> path then OpsMoved p
        else if p = ''/metrics'' then OpsMetrics m
        else if p = ''/health'' then OpsPage (health new_writer)
        else if p = ''/ready'' then OpsPage (ready s new_writer)
        else if p \<in> set pprof_pages then OpsPprof p
        else if prefix ''/debug/pprof/'' p then OpsPprof ''/debug/pprof/''
        else OpsNotFound)"

section \<open>Shutting down\<close>

text \<open>The shutdowns run one after the other under one deadline.  Each takes the time it needs or what
  is left, and is complete when that is enough: \<open>net/http\<close> documents that \<open>Server.Shutdown\<close> returns the error
  of its context when that expires first, and \<open>Shutdown\<close> of the tracer selects on the context itself.  The
  time \<open>net/http\<close> takes to notice is neglected.\<close>

definition shutdownTimeout :: nat where "shutdownTimeout = 10000000000"

fun shutdown_all :: "nat \<Rightarrow> nat list \<Rightarrow> bool list \<times> nat" where
  "shutdown_all left [] = ([], 0)"
| "shutdown_all left (need # needs) =
     (let t = min need left in
        case shutdown_all (left - t) needs of (oks, elapsed) \<Rightarrow> ((need \<le> left) # oks, t + elapsed))"

section \<open>The process\<close>

record 'm inflight =
  fl_conn :: conn
  fl_request :: request
  fl_start :: "'m contract_bundle option"
  fl_decode :: "'m contract_bundle option"
  fl_encode :: "'m contract_bundle option"

datatype run_phase =
    Starting
  | Serving
  | Draining
  | Failed string                  \<comment> \<open>\<open>Run\<close> returned the error of a listener\<close>
  | Finished "bool list" nat       \<comment> \<open>data plane, ops, tracer shut down completely? and the time taken\<close>

record 'm process =
  pr_server :: "'m server"
  pr_metrics :: metrics
  pr_boundary :: boundary
  pr_phase :: run_phase
  pr_inflight :: "nat \<Rightarrow> 'm inflight option"
  pr_loads :: "'m contract_bundle list"
  pr_answers :: "('m inflight \<times> handled) list"

definition New :: "config \<Rightarrow> 'm process" where
  "New cfg = \<lparr>pr_server = \<lparr>sv_cfg = cfg, sv_bundle = None\<rparr>, pr_metrics = newMetrics, pr_boundary = boundary_init,
     pr_phase = Starting, pr_inflight = Map.empty, pr_loads = [], pr_answers = []\<rparr>"

definition install :: "'m contract_bundle \<Rightarrow> 'm process \<Rightarrow> 'm process" where
  "install b p = p\<lparr>pr_server := SetBundle b (pr_server p), pr_loads := pr_loads p @ [b]\<rparr>"

datatype 'm boot = Exited int | Booted "'m process"

text \<open>\<open>disk\<close> is what is at a path when it is read.\<close>

definition boot_server ::
  "configlib \<Rightarrow> ('x, 'm) codecs \<Rightarrow> (string \<Rightarrow> string option) \<Rightarrow> (string \<Rightarrow> node option) \<Rightarrow> 'm boot" where
  "boot_server lib L env disk =
     (case load_config lib env of
        Inl err \<Rightarrow> Exited 1
      | Inr cfg \<Rightarrow>
          (case Load L (BundlePath cfg) (disk (BundlePath cfg)) of
             Inl err \<Rightarrow> Exited 1
           | Inr b \<Rightarrow> Booted (install b (New cfg))))"

definition wavefront_main ::
  "configlib \<Rightarrow> http_get \<Rightarrow> ('x, 'm) codecs \<Rightarrow> (string \<Rightarrow> string option) \<Rightarrow> string list \<Rightarrow> (string \<Rightarrow> node option) \<Rightarrow>
   'm boot" where
  "wavefront_main lib get L env args disk =
     (if args \<noteq> [] \<and> hd args = ''probe'' then Exited (snd (runProbe get env (tl args)))
      else boot_server lib L env disk)"

text \<open>The steps.\<close>

definition observe_conn :: "conn_event \<Rightarrow> 'm process \<Rightarrow> 'm process" where
  "observe_conn e p =
     (let b = boundary_step e (pr_boundary p);
          new = drop (length (stdlibBoundary (pr_boundary p))) (stdlibBoundary b)
      in p\<lparr>pr_boundary := b,
           pr_metrics := (pr_metrics p)\<lparr>mt_boundary := fold inc new (mt_boundary (pr_metrics p))\<rparr>\<rparr>)"

definition request_env :: "('m, 'd) env \<Rightarrow> config \<Rightarrow> 'm inflight \<Rightarrow> ('m, 'd) env" where
  "request_env E cfg f =
     E\<lparr>en_cfg := cfg, en_start := fl_start f, en_decode := fl_decode f, en_encode := fl_encode f\<rparr>"

definition arrive :: "nat \<Rightarrow> conn \<Rightarrow> request \<Rightarrow> 'm process \<Rightarrow> 'm process" where
  "arrive i c r p =
     (let b = sv_bundle (pr_server p) in
        observe_conn (Handler c)
          (p\<lparr>pr_inflight := (pr_inflight p)
               (i \<mapsto> \<lparr>fl_conn = c, fl_request = r, fl_start = b, fl_decode = b, fl_encode = b\<rparr>)\<rparr>))"

definition answer :: "('m, 'd) env \<Rightarrow> nat \<Rightarrow> 'm inflight \<Rightarrow> 'm process \<Rightarrow> 'm process" where
  "answer E i f p =
     (let h = DataHandler (request_env E (sv_cfg (pr_server p)) f) (fl_request f) in
        p\<lparr>pr_inflight := (pr_inflight p)(i := None), pr_metrics := record_handled h (pr_metrics p),
          pr_answers := pr_answers p @ [(f, h)]\<rparr>)"

definition reload :: "('x, 'm) codecs \<Rightarrow> node option \<Rightarrow> 'm process \<Rightarrow> 'm process" where
  "reload L root p =
     (case ReloadBundle L root (pr_server p) of
        (err, s) \<Rightarrow> p\<lparr>pr_server := s, pr_loads := pr_loads p @ (if err = None then [the (sv_bundle s)] else [])\<rparr>)"

inductive run_step :: "('x, 'm) codecs \<Rightarrow> ('m, 'd) env \<Rightarrow> 'm process \<Rightarrow> 'm process \<Rightarrow> bool"
  for L :: "('x, 'm) codecs" and E :: "('m, 'd) env" where
  listening: "pr_phase p = Starting \<Longrightarrow> run_step L E p (p\<lparr>pr_phase := Serving\<rparr>)"
| bind_failed: "pr_phase p = Starting \<Longrightarrow> run_step L E p (p\<lparr>pr_phase := Failed err\<rparr>)"
| listener_failed: "pr_phase p = Serving \<Longrightarrow> run_step L E p (p\<lparr>pr_phase := Failed err\<rparr>)"
| signalled: "pr_phase p = Serving \<Longrightarrow> run_step L E p (p\<lparr>pr_phase := Draining\<rparr>)"
| drained: "pr_phase p = Draining \<Longrightarrow> shutdown_all shutdownTimeout [d, t, x] = (oks, elapsed) \<Longrightarrow>
    run_step L E p (p\<lparr>pr_phase := Finished oks elapsed\<rparr>)"
| connection: "pr_phase p \<in> {Serving, Draining} \<Longrightarrow> run_step L E p (observe_conn e p)"
| arrived: "pr_phase p \<in> {Serving, Draining} \<Longrightarrow> pr_inflight p i = None \<Longrightarrow> run_step L E p (arrive i c r p)"
| decode_read: "pr_phase p \<in> {Serving, Draining} \<Longrightarrow> pr_inflight p i = Some f \<Longrightarrow>
    run_step L E p (p\<lparr>pr_inflight := (pr_inflight p)(i \<mapsto> f\<lparr>fl_decode := sv_bundle (pr_server p)\<rparr>)\<rparr>)"
| encode_read: "pr_phase p \<in> {Serving, Draining} \<Longrightarrow> pr_inflight p i = Some f \<Longrightarrow>
    run_step L E p (p\<lparr>pr_inflight := (pr_inflight p)(i \<mapsto> f\<lparr>fl_encode := sv_bundle (pr_server p)\<rparr>)\<rparr>)"
| answering: "pr_phase p \<in> {Serving, Draining} \<Longrightarrow> pr_inflight p i = Some f \<Longrightarrow> run_step L E p (answer E i f p)"
| reloaded: "pr_phase p \<in> {Starting, Serving, Draining} \<Longrightarrow> run_step L E p (reload L root p)"

inductive_cases run_stepE: "run_step L E p p'"

definition exit_code :: "'m process \<Rightarrow> int option" where
  "exit_code p = (case pr_phase p of Failed err \<Rightarrow> Some 1 | Finished oks t \<Rightarrow> Some 0 | _ \<Rightarrow> None)"

end
