(* ===== verification/Server_Life.thy ===== *)
theory Server_Life
  imports Server_Run
begin

text \<open>
  Invariants of the running process: which bundles its requests see, what its counters count, and
  what the exit of the process says about its shutdown.
\<close>

section \<open>Counters\<close>

definition reading :: "'l counter \<Rightarrow> 'l \<Rightarrow> nat" where
  "reading m l = (case m l of None \<Rightarrow> 0 | Some n \<Rightarrow> n)"

lemma reading_simps [simp]:
  "reading Map.empty l = 0" "reading (with_label k m) l = reading m l"
  "reading (inc k m) l = reading m l + (if l = k then 1 else 0)"
  by (auto simp: reading_def with_label_def inc_def Let_def split: option.split)

lemma dom_inc [simp]: "dom (inc l m) = insert l (dom m)"
  by (auto simp: inc_def with_label_def Let_def)

lemma reading_fold [simp]: "reading (fold inc ls m) l = reading m l + count_list ls l"
  by (induction ls arbitrary: m) auto

lemma stdlibBoundary_grows: "\<exists>new. stdlibBoundary (boundary_step e b) = stdlibBoundary b @ new"
proof (cases e)
  case (State c st)
  then show ?thesis by (cases st) (auto simp: Let_def split: option.split)
qed (simp_all add: Accept_def markHandlerSeen_def Write_def split: option.split)

section \<open>Bundles a request sees\<close>

definition installed :: "('x, 'm) codecs \<Rightarrow> config \<Rightarrow> 'm contract_bundle \<Rightarrow> bool" where
  "installed L cfg b = (\<exists>root. Load L (BundlePath cfg) root = Inr b)"

definition sees :: "'m contract_bundle list \<Rightarrow> 'm inflight \<Rightarrow> bool" where
  "sees loads f = ({fl_start f, fl_decode f, fl_encode f} \<subseteq> Some ` set loads)"

lemma sees_more: "sees loads f \<Longrightarrow> sees (loads @ later) f"
  by (auto simp: sees_def)

definition live :: "('x, 'm) codecs \<Rightarrow> config \<Rightarrow> 'm process \<Rightarrow> bool" where
  "live L cfg p =
     (sv_cfg (pr_server p) = cfg \<and> pr_loads p \<noteq> [] \<and> sv_bundle (pr_server p) = Some (last (pr_loads p)) \<and>
      (\<forall>b \<in> set (pr_loads p). installed L cfg b) \<and>
      (\<forall>i f. pr_inflight p i = Some f \<longrightarrow> sees (pr_loads p) f))"

text \<open>Every answer is what the data handler makes of the request and of the bundles its reads saw.\<close>

definition answered_by :: "('m, 'd) env \<Rightarrow> config \<Rightarrow> 'm process \<Rightarrow> bool" where
  "answered_by E cfg p =
     (\<forall>(f, h) \<in> set (pr_answers p). sees (pr_loads p) f \<and> h = DataHandler (request_env E cfg f) (fl_request f))"

definition label :: "handled \<Rightarrow> string option" where
  "label h = map_option ef_requests (hd_effects h)"

definition tallied :: "'m process \<Rightarrow> bool" where
  "tallied p =
     ((\<forall>v. reading (mt_requests (pr_metrics p)) v = length (filter (\<lambda>(f, h). label h = Some v) (pr_answers p))) \<and>
      dom (mt_requests (pr_metrics p)) = insert VersionUnknown {v. \<exists>(f, h) \<in> set (pr_answers p). label h = Some v} \<and>
      (\<forall>e. reading (mt_errors (pr_metrics p)) e = count_list (concat (map (hd_errors \<circ> snd) (pr_answers p))) e) \<and>
      (\<forall>l. reading (mt_boundary (pr_metrics p)) l = count_list (stdlibBoundary (pr_boundary p)) l))"

lemma live_install: "installed L cfg b \<Longrightarrow> live L cfg (install b (New cfg))"
  by (simp add: live_def install_def New_def SetBundle_def)

lemma observe_simps [simp]:
  "pr_server (observe_conn e p) = pr_server p" "pr_loads (observe_conn e p) = pr_loads p"
  "pr_inflight (observe_conn e p) = pr_inflight p" "pr_answers (observe_conn e p) = pr_answers p"
  "mt_requests (pr_metrics (observe_conn e p)) = mt_requests (pr_metrics p)"
  "mt_errors (pr_metrics (observe_conn e p)) = mt_errors (pr_metrics p)"
  "pr_phase (observe_conn e p) = pr_phase p"
  by (simp_all add: observe_conn_def Let_def)

lemma observe_boundary:
  "reading (mt_boundary (pr_metrics p)) l = count_list (stdlibBoundary (pr_boundary p)) l \<Longrightarrow>
   reading (mt_boundary (pr_metrics (observe_conn e p))) l = count_list (stdlibBoundary (pr_boundary (observe_conn e p))) l"
  using stdlibBoundary_grows [of e "pr_boundary p"] by (auto simp: observe_conn_def Let_def)

lemma reload_cases:
  obtains (kept) "reload L root p = p" "\<exists>err. Load L (BundlePath (sv_cfg (pr_server p))) root = Inl err"
  | (swapped) b where "Load L (BundlePath (sv_cfg (pr_server p))) root = Inr b" "reload L root p = install b p"
  by (cases "Load L (BundlePath (sv_cfg (pr_server p))) root")
    (auto simp: reload_def ReloadBundle_def install_def SetBundle_def)

lemma step_live:
  assumes "run_step L E p p'" and "live L cfg p"
  shows "live L cfg p'"
  using assms
proof (cases rule: run_step.cases)
  case (arrived i c r)
  then show ?thesis using assms(2) by (auto simp: live_def arrive_def Let_def sees_def)
next
  case (decode_read i f)
  then show ?thesis using assms(2) by (auto simp: live_def sees_def)
next
  case (encode_read i f)
  then show ?thesis using assms(2) by (auto simp: live_def sees_def)
next
  case (reloaded root)
  show ?thesis
  proof (cases rule: reload_cases [of L root p])
    case kept
    then show ?thesis using assms(2) reloaded by simp
  next
    case (swapped b)
    have cfg: "sv_cfg (pr_server p) = cfg" using assms(2) by (simp add: live_def)
    have "installed L cfg b" using swapped(1) cfg by (auto simp: installed_def)
    then show ?thesis
      using assms(2) unfolding reloaded(1) swapped(2)
      by (auto simp: live_def install_def SetBundle_def intro: sees_more)
  qed
qed (auto simp: live_def answer_def Let_def split: if_splits)

lemma step_answered_by:
  assumes "run_step L E p p'" and "answered_by E cfg p" and "live L cfg p"
  shows "answered_by E cfg p'"
  using assms(1)
proof (cases rule: run_step.cases)
  case (answering i f)
  then show ?thesis using assms(2,3) by (auto simp: answered_by_def answer_def Let_def live_def)
next
  case (reloaded root)
  show ?thesis
  proof (cases rule: reload_cases [of L root p])
    case kept
    then show ?thesis using assms(2) reloaded by simp
  next
    case (swapped b)
    then show ?thesis using assms(2) unfolding reloaded(1) swapped(2)
      by (auto simp: answered_by_def install_def intro: sees_more)
  qed
qed (use assms(2) in \<open>auto simp: answered_by_def arrive_def Let_def\<close>)

lemma step_tallied:
  assumes "run_step L E p p'" and "tallied p"
  shows "tallied p'"
  using assms(1)
proof (cases rule: run_step.cases)
  case (answering i f)
  then show ?thesis using assms(2)
    by (auto simp: tallied_def answer_def record_handled_def label_def Let_def split: option.splits)
next
  case (reloaded root)
  show ?thesis
    by (cases rule: reload_cases [of L root p])
      (use reloaded assms(2) in \<open>simp_all add: tallied_def install_def\<close>)
next
  case (connection e)
  then show ?thesis using assms(2) by (simp add: tallied_def observe_boundary)
next
  case (arrived i c r)
  have "tallied (p\<lparr>pr_inflight := x\<rparr>)" for x using assms(2) by (simp add: tallied_def)
  then show ?thesis unfolding arrived(1) arrive_def Let_def by (simp add: tallied_def observe_boundary)
qed (use assms(2) in \<open>auto simp: tallied_def\<close>)

section \<open>Reachable states\<close>

lemma booted:
  assumes "wavefront_main lib get L env args disk = Booted p"
  obtains cfg b where "load_config lib env = Inr cfg" "Load L (BundlePath cfg) (disk (BundlePath cfg)) = Inr b"
    "p = install b (New cfg)"
  using assms by (auto simp: wavefront_main_def boot_server_def split: if_splits sum.splits)

lemma booted_cfg:
  assumes "wavefront_main lib get L env args disk = Booted p0"
  shows "load_config lib env = Inr (sv_cfg (pr_server p0))" and "pr_phase p0 = Starting"
proof -
  obtain cfg b where "load_config lib env = Inr cfg" "p0 = install b (New cfg)"
    using booted [OF assms] by blast
  then show "load_config lib env = Inr (sv_cfg (pr_server p0))" "pr_phase p0 = Starting"
    by (simp_all add: install_def New_def SetBundle_def)
qed

lemma tallied_boot: "tallied (install b (New cfg))"
  by (auto simp: tallied_def install_def New_def newMetrics_def boundary_init_def with_label_def reading_def)

definition settled :: "('x, 'm) codecs \<Rightarrow> ('m, 'd) env \<Rightarrow> config \<Rightarrow> 'm process \<Rightarrow> bool" where
  "settled L E cfg p = (live L cfg p \<and> answered_by E cfg p \<and> tallied p)"

lemma reachable_settled:
  assumes "wavefront_main lib get L env args disk = Booted p0" and "(run_step L E)\<^sup>*\<^sup>* p0 p"
  shows "settled L E (sv_cfg (pr_server p0)) p"
proof -
  obtain cfg b where boot: "Load L (BundlePath cfg) (disk (BundlePath cfg)) = Inr b" "p0 = install b (New cfg)"
    using booted [OF assms(1)] by blast
  then have cfg: "sv_cfg (pr_server p0) = cfg" by (simp add: install_def New_def SetBundle_def)
  have "installed L cfg b" using boot(1) by (auto simp: installed_def)
  then have "settled L E cfg p0"
    using live_install [of L cfg b] tallied_boot [of b cfg] boot(2)
    by (simp add: settled_def answered_by_def) (simp add: install_def New_def)
  with assms(2) show ?thesis
    unfolding cfg
    by (induction rule: rtranclp_induct)
      (auto simp: settled_def dest: step_live step_answered_by step_tallied)
qed

lemma DataHandler_label:
  "label (DataHandler E r) = (if isCORSPreflight r then None else Some (px_version (proxy_main E r)))"
  by (auto simp: label_def DataHandler_def Recover_def proxy_def proxy_deferred_def Let_def
      split: option.split go_panic.split prod.split)

section \<open>Shutdown\<close>

lemma shutdown_all_elapsed: "snd (shutdown_all left needs) = min left (sum_list needs)"
proof (induction left needs rule: shutdown_all.induct)
  case (2 left need needs)
  then show ?case by (auto simp: Let_def split: prod.split)
qed simp

lemma shutdown_all_complete:
  "i < length needs \<Longrightarrow> fst (shutdown_all left needs) ! i \<longleftrightarrow> needs ! i \<le> left - sum_list (take i needs)"
proof (induction left needs arbitrary: i rule: shutdown_all.induct)
  case (2 left need needs)
  show ?case
  proof (cases i)
    case 0
    then show ?thesis by (simp add: Let_def split: prod.split)
  next
    case (Suc j)
    with "2.IH" [OF refl, of j] "2.prems" show ?thesis
      by (auto simp: Let_def diff_diff_left split: prod.split)
  qed
qed simp

section \<open>Properties\<close>

text \<open>C13. From the moment \<open>main\<close> has installed the first bundle, and through every interleaving of
  requests, reloads (failing ones too), listener errors and the signal to stop, the process has a live
  bundle, the one of the last successful load, and \<open>/ready\<close> answers 200.  Every request is answered with
  bundles that some load of the configured path returned, and its pipeline does not panic.\<close>

theorem serving_process:
  assumes "wavefront_main lib get L env args disk = Booted p0" and "(run_step L E)\<^sup>*\<^sup>* p0 p"
  shows "let cfg = sv_cfg (pr_server p0) in
     load_config lib env = Inr cfg \<and> ready_status (pr_server p) = 200 \<and>
     sv_bundle (pr_server p) = Some (last (pr_loads p)) \<and> (\<forall>b \<in> set (pr_loads p). installed L cfg b) \<and>
     (\<forall>(f, h) \<in> set (pr_answers p).
        h = DataHandler (request_env E cfg f) (fl_request f) \<and>
        {fl_start f, fl_decode f, fl_encode f} \<subseteq> Some ` set (pr_loads p) \<and>
        px_panic (proxy_main (request_env E cfg f) (fl_request f)) = None)"
proof -
  let ?cfg = "sv_cfg (pr_server p0)"
  have s: "live L ?cfg p" "answered_by E ?cfg p"
    using reachable_settled [OF assms] by (simp_all add: settled_def)
  have np: "px_panic (proxy_main (request_env E ?cfg f) (fl_request f)) = None" if f: "sees (pr_loads p) f" for f
  proof -
    obtain b where b: "b \<in> set (pr_loads p)" "fl_start f = Some b" using f by (auto simp: sees_def)
    then obtain root where "Load L (BundlePath ?cfg) root = Inr b" using s(1) by (auto simp: live_def installed_def)
    then show ?thesis by (rule loaded_bundle_never_panics) (simp add: request_env_def b(2))
  qed
  have "\<forall>(f, h) \<in> set (pr_answers p).
        h = DataHandler (request_env E ?cfg f) (fl_request f) \<and>
        {fl_start f, fl_decode f, fl_encode f} \<subseteq> Some ` set (pr_loads p) \<and>
        px_panic (proxy_main (request_env E ?cfg f) (fl_request f)) = None"
    using s(2) np unfolding answered_by_def sees_def by fast
  then show ?thesis
    using s(1) booted_cfg(1) [OF assms(1)] by (simp add: Let_def live_def ready_status_eq)
qed

text \<open>C14. The counters are exact and bounded.  \<open>wavefront_requests_total\<close> under a label is the number of
  answered requests with that version, \<open>wavefront_errors_total\<close> counts each error once and
  \<open>wavefront_stdlib_boundary_total\<close> each boundary failure; the series of the requests counter are
  \<open>unknown\<close>, there from the start, and versions of bundles that were installed.\<close>

theorem counters_exact:
  assumes "wavefront_main lib get L env args disk = Booted p0" and "(run_step L E)\<^sup>*\<^sup>* p0 p"
  shows "reading (mt_requests (pr_metrics p)) v = length (filter (\<lambda>(f, h). label h = Some v) (pr_answers p)) \<and>
     reading (mt_errors (pr_metrics p)) e = count_list (concat (map (hd_errors \<circ> snd) (pr_answers p))) e \<and>
     reading (mt_boundary (pr_metrics p)) l = count_list (stdlibBoundary (pr_boundary p)) l \<and>
     VersionUnknown \<in> dom (mt_requests (pr_metrics p)) \<and>
     dom (mt_requests (pr_metrics p)) \<subseteq> insert VersionUnknown (\<Union>b \<in> set (pr_loads p). set (Versions b))"
proof -
  let ?cfg = "sv_cfg (pr_server p0)"
  have s: "live L ?cfg p" "answered_by E ?cfg p" "tallied p"
    using reachable_settled [OF assms] by (simp_all add: settled_def)
  have "v \<in> insert VersionUnknown (\<Union>b \<in> set (pr_loads p). set (Versions b))"
    if fh: "(f, h) \<in> set (pr_answers p)" "label h = Some v" for f h v
  proof -
    have h: "sees (pr_loads p) f" "h = DataHandler (request_env E ?cfg f) (fl_request f)"
      using s(2) fh(1) by (auto simp: answered_by_def)
    then obtain b where b: "b \<in> set (pr_loads p)" "fl_start f = Some b" by (auto simp: sees_def)
    then obtain root where "Load L (BundlePath ?cfg) root = Inr b" using s(1) by (auto simp: live_def installed_def)
    from version_bounded [OF this, of "request_env E ?cfg f" "fl_request f"] b
    show ?thesis using fh(2) by (auto simp: h(2) DataHandler_label request_env_def split: if_splits)
  qed
  then have "dom (mt_requests (pr_metrics p)) \<subseteq> insert VersionUnknown (\<Union>b \<in> set (pr_loads p). set (Versions b))"
    using s(3) unfolding tallied_def by blast
  then show ?thesis using s(3) unfolding tallied_def by blast
qed

text \<open>C25. The process ends in one of two ways, after which nothing happens any more.  A listener that
  fails makes it exit with status 1 at once; a signal makes it exit with status 0 after the data plane,
  the ops server and the tracer were shut down one after the other, together in at most ten seconds:
  each completes exactly when what the ones before it left of that time is enough.\<close>

theorem process_exit:
  assumes "wavefront_main lib get L env args disk = Booted p0" and "(run_step L E)\<^sup>*\<^sup>* p0 p"
    and "exit_code p = Some n"
  shows "\<not> run_step L E p p' \<and>
    (n = 1 \<and> (\<exists>err. pr_phase p = Failed err) \<or>
     n = 0 \<and> (\<exists>data ops tracer oks. pr_phase p = Finished oks (min shutdownTimeout (data + ops + tracer)) \<and>
       oks = [data \<le> shutdownTimeout, ops \<le> shutdownTimeout - data, tracer \<le> shutdownTimeout - (data + ops)]))"
proof -
  have fin: "\<exists>d t x. shutdown_all shutdownTimeout [d, t, x] = (oks, e)" if "pr_phase p = Finished oks e" for oks e
    using assms(2) that
  proof (induction rule: rtranclp_induct)
    case base
    then show ?case using booted_cfg(2) [OF assms(1)] by simp
  next
    case (step q p)
    from step(2) show ?case
      by (cases rule: run_step.cases)
        (use step(3,4) in \<open>auto simp: answer_def arrive_def Let_def reload_def split: prod.splits\<close>)
  qed
  have "\<not> run_step L E p p'"
    using assms(3) by (auto simp: exit_code_def elim: run_stepE split: run_phase.splits)
  moreover have "\<exists>data ops tracer. e = min shutdownTimeout (data + ops + tracer) \<and>
      oks = [data \<le> shutdownTimeout, ops \<le> shutdownTimeout - data, tracer \<le> shutdownTimeout - (data + ops)]"
    if e: "pr_phase p = Finished oks e" for oks e
  proof -
    obtain d t x where s: "shutdown_all shutdownTimeout [d, t, x] = (oks, e)"
      using fin [OF e] by blast
    have "e = min shutdownTimeout (d + t + x)"
      using shutdown_all_elapsed [of shutdownTimeout "[d, t, x]"] unfolding s by (simp add: add.assoc)
    moreover have "oks = [d \<le> shutdownTimeout, t \<le> shutdownTimeout - d, x \<le> shutdownTimeout - (d + t)]"
      using s by (auto simp: Let_def min_def split: if_splits)
    ultimately show ?thesis by blast
  qed
  ultimately show ?thesis
    using assms(3) by (fastforce simp: exit_code_def split: run_phase.splits)
qed

section \<open>Witnesses\<close>

definition demo_process :: "string process" where
  "demo_process = install demo_bundle (New demo_config)"

lemma configured_path: "load_config lib env = Inr cfg \<Longrightarrow> required env ''WAVEFRONT_BUNDLE_PATH'' = Inr (BundlePath cfg)"
  unfolding load_config_def by (auto simp: result_simps)

lemma demo_boots: "wavefront_main demo_configlib (\<lambda>url t. Inl ''refused'') demo_codecs demo_env [''serve''] (\<lambda>path. demo_root)
    = Booted demo_process"
proof -
  have "required demo_env ''WAVEFRONT_BUNDLE_PATH'' = Inr (BundlePath demo_config)"
    using demo_config_loads by (rule configured_path)
  then have "BundlePath demo_config = ''/bundle''" using demo_env_parts(1) by simp
  then show ?thesis
    by (simp add: wavefront_main_def boot_server_def demo_config_loads demo_loads demo_process_def)
qed

text \<open>A request arrives, a reload of a missing directory fails, the request is answered.\<close>

definition demo_served :: "string process" where
  "demo_served = answer (edge_env (edge_reply 200)) 0
     \<lparr>fl_conn = 7, fl_request = edge_request ''v2'', fl_start = Some demo_bundle, fl_decode = Some demo_bundle,
      fl_encode = Some demo_bundle\<rparr>
     (reload demo_codecs None (arrive 0 7 (edge_request ''v2'') (demo_process\<lparr>pr_phase := Serving\<rparr>)))"

lemma demo_reload: "reload demo_codecs None p = p"
  by (simp add: reload_def ReloadBundle_def Load_def layerDirs_def ReadDir_def)

lemma demo_serves: "(run_step demo_codecs (edge_env (edge_reply 200)))\<^sup>*\<^sup>* demo_process demo_served"
proof -
  let ?step = "run_step demo_codecs (edge_env (edge_reply 200))"
  let ?p1 = "demo_process\<lparr>pr_phase := Serving\<rparr>"
  let ?p2 = "arrive 0 7 (edge_request ''v2'') ?p1"
  have "?step demo_process ?p1"
    by (rule run_step.listening) (simp add: demo_process_def install_def New_def)
  moreover have "?step ?p1 ?p2"
    by (rule run_step.arrived) (simp_all add: demo_process_def install_def New_def)
  moreover have "?step ?p2 (reload demo_codecs None ?p2)"
    by (rule run_step.reloaded) (simp add: arrive_def Let_def)
  moreover have "?step (reload demo_codecs None ?p2) demo_served"
    unfolding demo_served_def
    by (rule run_step.answering)
      (simp_all add: demo_reload, simp_all add: arrive_def Let_def demo_process_def install_def New_def SetBundle_def)
  ultimately show ?thesis by (meson rtranclp.rtrancl_into_rtrancl rtranclp.rtrancl_refl)
qed

theorem serving_process_witness:
  "ready_status (pr_server demo_served) = 200 \<and> sv_bundle (pr_server demo_served) = Some (last (pr_loads demo_served))"
  using serving_process [OF demo_boots demo_serves] by (simp add: Let_def)

theorem counters_exact_witness:
  "reading (mt_requests (pr_metrics demo_served)) ''v2''
     = length (filter (\<lambda>(f, h). label h = Some ''v2'') (pr_answers demo_served))"
  using counters_exact [OF demo_boots demo_serves] by blast

theorem process_exit_witness:
  "\<exists>oks. shutdown_all shutdownTimeout [4000000000, 7000000000, 1] = (oks, shutdownTimeout) \<and>
     exit_code (demo_process\<lparr>pr_phase := Finished oks shutdownTimeout\<rparr>) = Some 0 \<and>
     \<not> run_step demo_codecs (edge_env (edge_reply 200)) (demo_process\<lparr>pr_phase := Finished oks shutdownTimeout\<rparr>) demo_process"
proof -
  let ?step = "run_step demo_codecs (edge_env (edge_reply 200))"
  let ?oks = "[True, False, False]"
  let ?p = "demo_process\<lparr>pr_phase := Finished ?oks shutdownTimeout\<rparr>"
  have s: "shutdown_all shutdownTimeout [4000000000, 7000000000, 1] = (?oks, shutdownTimeout)"
    by (simp add: shutdownTimeout_def Let_def)
  have start: "pr_phase demo_process = Starting" by (simp add: demo_process_def install_def New_def)
  have "?step demo_process (demo_process\<lparr>pr_phase := Serving\<rparr>)"
    by (rule run_step.listening) (rule start)
  moreover have "?step (demo_process\<lparr>pr_phase := Serving\<rparr>) (demo_process\<lparr>pr_phase := Draining\<rparr>)"
    using run_step.signalled [of "demo_process\<lparr>pr_phase := Serving\<rparr>"] by simp
  moreover have "?step (demo_process\<lparr>pr_phase := Draining\<rparr>) ?p"
    using run_step.drained [OF _ s, of "demo_process\<lparr>pr_phase := Draining\<rparr>"] by simp
  ultimately have "?step\<^sup>*\<^sup>* demo_process ?p" by (meson rtranclp.rtrancl_into_rtrancl rtranclp.rtrancl_refl)
  moreover have "exit_code ?p = Some 0" by (simp add: exit_code_def)
  ultimately show ?thesis
    using s process_exit [OF demo_boots, of _ ?p 0] by blast
qed

end
