(* ===== verification/Tracing.thy ===== *)
theory Tracing
  imports Config Go_Utf8
begin

text \<open>
  \<open>internal/tracing\<close>: the W3C \<open>traceparent\<close> header, the OTLP payload of a span, sampling, and the
  exporter with its bounded queue and background worker.  Bytes are characters; an instant is its
  number of nanoseconds; the draws from \<open>crypto/rand\<close> are arguments, \<open>None\<close> for a failed read.
\<close>

section \<open>Hexadecimal\<close>

definition hex_val :: "char \<Rightarrow> nat option" where
  "hex_val c =
     (let n = of_char c in
        if 48 \<le> n \<and> n \<le> 57 then Some (n - 48)
        else if 97 \<le> n \<and> n \<le> 102 then Some (n - 87)
        else if 65 \<le> n \<and> n \<le> 70 then Some (n - 55)
        else None)"

fun hex_decode :: "string \<Rightarrow> string option" where
  "hex_decode [] = Some []"
| "hex_decode [c] = None"
| "hex_decode (c # d # s) =
     (case (hex_val c, hex_val d, hex_decode s) of
        (Some m, Some n, Some bs) \<Rightarrow> Some (char_of (16 * m + n) # bs)
      | _ \<Rightarrow> None)"

definition hex_encode :: "string \<Rightarrow> string" where
  "hex_encode s = concat (map hex_byte s)"

section \<open>traceparent.go\<close>

record traceparent =
  TraceID :: string
  ParentID :: string
  Sampled :: bool

definition allZero :: "string \<Rightarrow> bool" where
  "allZero b = list_all (\<lambda>x. x = CHR 0x00) b"

text \<open>\<open>copy\<close> fills the fixed array; the lengths have been checked.\<close>

definition ParseTraceparent :: "string \<Rightarrow> traceparent option" where
  "ParseTraceparent v =
     (case split_on CHR ''-'' v of
        [p0, p1, p2, p3] \<Rightarrow>
          if length p0 \<noteq> 2 \<or> length p1 \<noteq> 32 \<or> length p2 \<noteq> 16 \<or> length p3 \<noteq> 2 then None
          else
            (case hex_decode p1 of
               None \<Rightarrow> None
             | Some traceID \<Rightarrow>
                 if allZero traceID then None
                 else
                   (case hex_decode p2 of
                      None \<Rightarrow> None
                    | Some spanID \<Rightarrow>
                        if allZero spanID then None
                        else
                          (case hex_decode p3 of
                             None \<Rightarrow> None
                           | Some flags \<Rightarrow>
                               Some \<lparr>TraceID = traceID, ParentID = spanID,
                                     Sampled = odd (of_char (hd flags) :: nat)\<rparr>)))
      | _ \<Rightarrow> None)"

section \<open>Spans\<close>

datatype status_code = StatusUnset | StatusOK | StatusError

fun status_number :: "status_code \<Rightarrow> int" where
  "status_number StatusUnset = 0"
| "status_number StatusOK = 1"
| "status_number StatusError = 2"

record span =
  sp_traceID :: string
  sp_spanID :: string
  sp_parentID :: string
  sp_hasParent :: bool
  sp_name :: string
  sp_start :: int
  sp_end :: int
  sp_attrs :: "(string \<times> string) list"
  sp_statusCode :: status_code

text \<open>A nil \<open>*Span\<close> is \<open>None\<close>.\<close>

definition SetAttr :: "string \<Rightarrow> string \<Rightarrow> span option \<Rightarrow> span option" where
  "SetAttr key val s = map_option (\<lambda>s. s\<lparr>sp_attrs := AList.update key val (sp_attrs s)\<rparr>) s"

definition SetStatus :: "status_code \<Rightarrow> span option \<Rightarrow> span option" where
  "SetStatus code s = map_option (\<lambda>s. s\<lparr>sp_statusCode := code\<rparr>) s"

section \<open>otlp.go\<close>

text \<open>The JSON the package marshals: objects keep the order of the struct's fields.\<close>

datatype ojson = OStr string | ONum int | OArr "ojson list" | OObj "(string \<times> ojson) list"

text \<open>The string encoding of \<open>json.Marshal\<close>, which also escapes for HTML.\<close>

definition json_escape :: "char \<Rightarrow> string" where
  "json_escape c =
     (if c = CHR 0x22 then [CHR 0x5C, CHR 0x22]
      else if c = CHR 0x5C then [CHR 0x5C, CHR 0x5C]
      else if c = CHR 0x08 then CHR 0x5C # ''b''
      else if c = CHR 0x0C then CHR 0x5C # ''f''
      else if c = CHR 0x0A then CHR 0x5C # ''n''
      else if c = CHR 0x0D then CHR 0x5C # ''r''
      else if c = CHR 0x09 then CHR 0x5C # ''t''
      else if (of_char c :: nat) < 0x20 \<or> c \<in> set ''<>&'' then CHR 0x5C # ''u00'' @ hex_byte c
      else [c])"

function json_runes :: "string \<Rightarrow> string" where
  "json_runes [] = []"
| "json_runes (c # s) =
     (if rune_len (c # s) = 0 then (CHR 0x5C # ''ufffd'') @ json_runes s
      else if rune1 c then json_escape c @ json_runes s
      else
        (let n = rune_len (c # s); r = take n (c # s) in
           (if r = [CHR 0xE2, CHR 0x80, CHR 0xA8] then CHR 0x5C # ''u2028''
            else if r = [CHR 0xE2, CHR 0x80, CHR 0xA9] then CHR 0x5C # ''u2029''
            else r)
           @ json_runes (drop n (c # s))))"
  by pat_completeness auto
termination
  by (relation "measure length") auto

definition json_quote :: "string \<Rightarrow> string" where
  "json_quote s = CHR 0x22 # json_runes s @ [CHR 0x22]"

fun ojson_text :: "ojson \<Rightarrow> string" where
  "ojson_text (OStr s) = json_quote s"
| "ojson_text (ONum n) = itoa n"
| "ojson_text (OArr xs) = ''['' @ join_with '','' (map ojson_text xs) @ '']''"
| "ojson_text (OObj kvs) =
     ''{'' @ join_with '','' (map (\<lambda>kv. json_quote (fst kv) @ '':'' @ ojson_text (snd kv)) kvs) @ ''}''"

definition spanKindServer :: int where "spanKindServer = 2"
definition scopeName :: string where "scopeName = ''wavefront''"

definition otlpKeyValue :: "string \<times> string \<Rightarrow> ojson" where
  "otlpKeyValue kv = OObj [(''key'', OStr (fst kv)), (''value'', OObj [(''stringValue'', OStr (snd kv))])]"

text \<open>\<open>omitempty\<close>: no field for an empty string, an empty list and a nil pointer.\<close>

definition otlpSpan :: "span \<Rightarrow> ojson" where
  "otlpSpan s =
     OObj ([(''traceId'', OStr (hex_encode (sp_traceID s))), (''spanId'', OStr (hex_encode (sp_spanID s)))]
       @ (if sp_hasParent s then [(''parentSpanId'', OStr (hex_encode (sp_parentID s)))] else [])
       @ [(''name'', OStr (sp_name s)), (''kind'', ONum spanKindServer),
          (''startTimeUnixNano'', OStr (itoa (sp_start s))), (''endTimeUnixNano'', OStr (itoa (sp_end s)))]
       @ (if sp_attrs s = [] then []
          else [(''attributes'', OArr (map otlpKeyValue (sort_key fst (sp_attrs s))))])
       @ (if sp_statusCode s = StatusUnset then []
          else [(''status'', OObj [(''code'', ONum (status_number (sp_statusCode s)))])]))"

definition otlpTracesData :: "string \<Rightarrow> span \<Rightarrow> ojson" where
  "otlpTracesData serviceName s =
     OObj [(''resourceSpans'', OArr [OObj
       [(''resource'', OObj [(''attributes'', OArr [otlpKeyValue (''service.name'', serviceName)])]),
        (''scopeSpans'', OArr [OObj
          [(''scope'', OObj [(''name'', OStr scopeName)]), (''spans'', OArr [otlpSpan s])]])]])]"

definition encodeTraces :: "string \<Rightarrow> span \<Rightarrow> string" where
  "encodeTraces serviceName s = ojson_text (otlpTracesData serviceName s)"

section \<open>Sampling\<close>

fun bit_length :: "nat \<Rightarrow> nat" where
  "bit_length n = (if n = 0 then 0 else Suc (bit_length (n div 2)))"

declare bit_length.simps [simp del]

text \<open>The bits of \<open>float64(x)\<close> for a \<open>uint64\<close>, rounded to nearest, ties to even.  A carry out of the
  significand lands in the exponent.\<close>

definition uint64_to_f64 :: "nat \<Rightarrow> nat" where
  "uint64_to_f64 x =
     (if x = 0 then 0
      else
        let e = bit_length x - 1 in
          (e + 1023) * 2 ^ 52 +
          (if e \<le> 52 then x * 2 ^ (52 - e)
           else
             let d = 2 ^ (e - 52); q = x div d; r = x mod d in
               if 2 * r > d \<or> 2 * r = d \<and> odd q then q + 1 else q) - 2 ^ 52)"

text \<open>\<open>float64(math.MaxUint64)\<close> is 2 to the 64, so the division only lowers the exponent by 64.\<close>

definition sampled_fraction :: "nat \<Rightarrow> f64" where
  "sampled_fraction x = (if x = 0 then 0 else word_of_nat (uint64_to_f64 x - 64 * 2 ^ 52))"

definition big_endian :: "string \<Rightarrow> nat" where
  "big_endian b = foldl (\<lambda>n c. 256 * n + of_char c) 0 b"

definition rootSampled :: "f64 \<Rightarrow> string option \<Rightarrow> bool" where
  "rootSampled ratio b =
     (if f64_le f64_one ratio then True
      else if f64_le ratio f64_zero then False
      else (case b of None \<Rightarrow> True | Some b \<Rightarrow> f64_less (sampled_fraction (big_endian b)) ratio))"

section \<open>The exporter\<close>

record draws =
  dr_root :: "string option"
  dr_trace :: "string option"
  dr_span :: "string option"

definition randBytes :: "nat \<Rightarrow> string option \<Rightarrow> string" where
  "randBytes n b = (case b of None \<Rightarrow> replicate n (CHR 0x00) | Some b \<Rightarrow> b)"

text \<open>A buffered channel: sending in a \<open>select\<close> with a default never waits.\<close>

record 'a chan =
  ch_cap :: nat
  ch_items :: "'a list"

definition try_send :: "'a \<Rightarrow> 'a chan \<Rightarrow> bool \<times> 'a chan" where
  "try_send x c =
     (if length (ch_items c) < ch_cap c then (True, c\<lparr>ch_items := ch_items c @ [x]\<rparr>) else (False, c))"

definition try_receive :: "'a chan \<Rightarrow> ('a \<times> 'a chan) option" where
  "try_receive c = (case ch_items c of [] \<Rightarrow> None | x # xs \<Rightarrow> Some (x, c\<lparr>ch_items := xs\<rparr>))"

definition queueDepth :: nat where "queueDepth = 1024"

text \<open>The worker's place in \<open>run\<close>: in the outer \<open>select\<close>, in the drain loop, inside \<open>export\<close> called
  from either, or returned (\<open>doneCh\<close> closed).\<close>

datatype worker = Selecting | Exporting span | Draining | DrainExporting span | Done

record exporter =
  ex_endpoint :: string
  ex_service :: string
  ex_ratio :: f64
  ex_queue :: "span chan"
  ex_stop :: bool
  ex_worker :: worker
  ex_posts :: "(string \<times> string) list"      \<comment> \<open>endpoint and payload of the POSTs, in order\<close>

definition NewExporter :: "string \<Rightarrow> string \<Rightarrow> f64 \<Rightarrow> exporter option" where
  "NewExporter endpoint service ratio =
     (if trim_space endpoint = '''' then None
      else Some
        \<lparr>ex_endpoint = trim_right_char CHR ''/'' endpoint @ ''/v1/traces'',
         ex_service = (if service = '''' then ''wavefront'' else service),
         ex_ratio = (if f64_le ratio f64_zero \<or> f64_less f64_one ratio then f64_one else ratio),
         ex_queue = \<lparr>ch_cap = queueDepth, ch_items = []\<rparr>, ex_stop = False, ex_worker = Selecting,
         ex_posts = []\<rparr>)"

definition new_span :: "string \<Rightarrow> string \<Rightarrow> bool \<Rightarrow> string \<Rightarrow> int \<Rightarrow> draws \<Rightarrow> span" where
  "new_span traceID parentID hasParent name now rnd =
     \<lparr>sp_traceID = traceID, sp_spanID = randBytes 8 (dr_span rnd), sp_parentID = parentID,
      sp_hasParent = hasParent, sp_name = name, sp_start = now, sp_end = 0, sp_attrs = [],
      sp_statusCode = StatusUnset\<rparr>"

definition StartSpan :: "exporter option \<Rightarrow> string \<Rightarrow> string \<Rightarrow> int \<Rightarrow> draws \<Rightarrow> span option" where
  "StartSpan e name traceparent now rnd =
     (case e of
        None \<Rightarrow> None
      | Some e \<Rightarrow>
          (case ParseTraceparent traceparent of
             Some tp \<Rightarrow>
               if \<not> Sampled tp then None
               else Some (new_span (TraceID tp) (ParentID tp) True name now rnd)
           | None \<Rightarrow>
               if \<not> rootSampled (ex_ratio e) (dr_root rnd) then None
               else Some (new_span (randBytes 16 (dr_trace rnd)) (replicate 8 (CHR 0x00)) False name now rnd)))"

definition enqueue :: "span \<Rightarrow> exporter \<Rightarrow> exporter" where
  "enqueue s e = e\<lparr>ex_queue := snd (try_send s (ex_queue e))\<rparr>"

definition End :: "int \<Rightarrow> span option \<Rightarrow> exporter \<Rightarrow> exporter" where
  "End now s e = (case s of None \<Rightarrow> e | Some s \<Rightarrow> enqueue (s\<lparr>sp_end := now\<rparr>) e)"

text \<open>\<open>export\<close>: whatever comes back, or fails, is ignored.\<close>

definition export :: "span \<Rightarrow> exporter \<Rightarrow> exporter" where
  "export s e = e\<lparr>ex_posts := ex_posts e @ [(ex_endpoint e, encodeTraces (ex_service e) s)]\<rparr>"

text \<open>\<open>Shutdown\<close>'s first half; the other half waits for \<open>Done\<close> or the deadline.\<close>

definition close_stop :: "exporter \<Rightarrow> exporter" where
  "close_stop e = e\<lparr>ex_stop := True\<rparr>"

text \<open>The worker: one step is one communication of a \<open>select\<close> or one POST.  With both a span and the
  stop signal ready the outer \<open>select\<close> may take either.\<close>

inductive worker_step :: "exporter \<Rightarrow> exporter \<Rightarrow> bool" where
  w_receive: "ex_worker e = Selecting \<Longrightarrow> try_receive (ex_queue e) = Some (s, q) \<Longrightarrow>
     worker_step e (e\<lparr>ex_queue := q, ex_worker := Exporting s\<rparr>)"
| w_stop: "ex_worker e = Selecting \<Longrightarrow> ex_stop e \<Longrightarrow> worker_step e (e\<lparr>ex_worker := Draining\<rparr>)"
| w_export: "ex_worker e = Exporting s \<Longrightarrow> worker_step e ((export s e)\<lparr>ex_worker := Selecting\<rparr>)"
| w_drain: "ex_worker e = Draining \<Longrightarrow> try_receive (ex_queue e) = Some (s, q) \<Longrightarrow>
     worker_step e (e\<lparr>ex_queue := q, ex_worker := DrainExporting s\<rparr>)"
| w_drain_export: "ex_worker e = DrainExporting s \<Longrightarrow> worker_step e ((export s e)\<lparr>ex_worker := Draining\<rparr>)"
| w_return: "ex_worker e = Draining \<Longrightarrow> try_receive (ex_queue e) = None \<Longrightarrow>
     worker_step e (e\<lparr>ex_worker := Done\<rparr>)"

datatype exporter_event = Ended span | Stopping | Working

inductive exporter_step :: "exporter \<Rightarrow> exporter_event \<Rightarrow> exporter \<Rightarrow> bool" where
  x_end: "exporter_step e (Ended s) (enqueue s e)"
| x_stop: "exporter_step e Stopping (close_stop e)"
| x_work: "worker_step e e' \<Longrightarrow> exporter_step e Working e'"

inductive exporter_run :: "exporter \<Rightarrow> exporter_event list \<Rightarrow> exporter \<Rightarrow> bool" for e where
  run_start: "exporter_run e [] e"
| run_step: "exporter_run e es e' \<Longrightarrow> exporter_step e' x e'' \<Longrightarrow> exporter_run e (es @ [x]) e''"

inductive_cases worker_stepE: "worker_step e e'"
inductive_cases exporter_stepE: "exporter_step e x e'"

section \<open>Hexadecimal round trips\<close>

lemma of_char_256: "(of_char c :: nat) < 256"
  by (metis mod_less_divisor of_char_mod_256 zero_less_numeral)

lemma of_char_nibble: "(of_char c :: nat) div 16 < 16"
  using of_char_256 [of c] by (simp add: less_mult_imp_div_less)

lemma of_char_hex_digit: "n < 16 \<Longrightarrow> (of_char (hex_digit n) :: nat) = (if n < 10 then 48 + n else 87 + n)"
proof -
  assume "n < 16"
  moreover have "list_all (\<lambda>n. (of_char (hex_digit n) :: nat) = (if n < 10 then 48 + n else 87 + n)) [0..<16]"
    by (simp add: hex_digit_def upt_rec)
  ultimately show ?thesis by (simp add: list_all_iff)
qed

lemma of_char_lower: "(of_char (lower_char c) :: nat) =
    (if 65 \<le> (of_char c :: nat) \<and> (of_char c :: nat) \<le> 90 then of_char c + 32 else of_char c)"
  by (simp add: lower_char_def)

lemma hex_digit_val: "n < 16 \<Longrightarrow> hex_val (hex_digit n) = Some n"
  by (simp add: hex_val_def of_char_hex_digit Let_def)

lemma hex_val_digit: "hex_val c = Some n \<Longrightarrow> n < 16 \<and> hex_digit n = lower_char c"
proof -
  assume a: "hex_val c = Some n"
  then have n: "n < 16" by (auto simp: hex_val_def Let_def split: if_splits)
  have "(of_char (hex_digit n) :: nat) = of_char (lower_char c)"
    using a by (auto simp: of_char_hex_digit [OF n] of_char_lower hex_val_def Let_def split: if_splits)
  then have "hex_digit n = lower_char c" by (rule of_char_eq_iff [THEN iffD1])
  with n show ?thesis ..
qed

lemma hex_val_lower: "hex_val (lower_char c) = hex_val c"
  by (simp add: hex_val_def of_char_lower Let_def)

lemma hex_encode_simps [simp]: "hex_encode [] = []" "hex_encode (c # s) = hex_byte c @ hex_encode s"
  by (simp_all add: hex_encode_def)

lemma length_hex_encode [simp]: "length (hex_encode s) = 2 * length s"
  by (induction s) (simp_all add: hex_byte_def)

lemma hex_decode_encode [simp]: "hex_decode (hex_encode s) = Some s"
proof (induction s)
  case (Cons c s)
  have "16 * ((of_char c :: nat) div 16) + of_char c mod 16 = of_char c" by simp
  then have "char_of (16 * ((of_char c :: nat) div 16) + of_char c mod 16) = c" by (simp only: char_of_char)
  then show ?case using Cons of_char_nibble [of c] by (simp add: hex_byte_def hex_digit_val)
qed simp

lemma hex_decode_lower: "hex_decode (map lower_char s) = hex_decode s"
  by (induction s rule: hex_decode.induct) (simp_all add: hex_val_lower)

lemma hex_decode_iff: "hex_decode s = Some b \<longleftrightarrow> map lower_char s = hex_encode b"
proof
  show "hex_decode s = Some b \<Longrightarrow> map lower_char s = hex_encode b"
  proof (induction s arbitrary: b rule: hex_decode.induct)
    case (3 c d s)
    then obtain m n bs where v: "hex_val c = Some m" "hex_val d = Some n" "hex_decode s = Some bs"
      "b = char_of (16 * m + n) # bs"
      by (auto split: option.splits)
    from hex_val_digit [OF v(1)] hex_val_digit [OF v(2)] show ?case
      using "3.IH" [OF v(3)] v by (simp add: hex_byte_def)
  qed simp_all
next
  show "map lower_char s = hex_encode b \<Longrightarrow> hex_decode s = Some b"
    using hex_decode_lower [of s] by simp
qed

lemma no_dash: "map lower_char s = hex_encode b \<Longrightarrow> CHR ''-'' \<notin> set s"
proof
  assume "map lower_char s = hex_encode b" "CHR ''-'' \<in> set s"
  then have "lower_char CHR ''-'' \<in> set (hex_encode b)" by (metis image_eqI list.set_map)
  then obtain c where "lower_char CHR ''-'' \<in> set (hex_byte c)" by (auto simp: hex_encode_def)
  then have "lower_char CHR ''-'' = hex_digit (of_char c div 16) \<or> lower_char CHR ''-'' = hex_digit (of_char c mod 16)"
    by (simp add: hex_byte_def)
  then obtain n where "n < 16" "lower_char CHR ''-'' = hex_digit n"
    using of_char_nibble [of c] by (metis mod_less_divisor zero_less_numeral)
  then have "hex_val (lower_char CHR ''-'') = Some n" by (simp add: hex_digit_val)
  then show False by (simp add: hex_val_def of_char_lower Let_def)
qed

text \<open>What the parser looks at: the lengths of the four fields, hexadecimal digits of either case in the
  last three, and ids that are not all zero.\<close>

definition loose_traceparent :: "string \<Rightarrow> traceparent \<Rightarrow> bool" where
  "loose_traceparent v tp =
   (\<exists>ver tid sid fl flags.
      v = ver @ ''-'' @ tid @ ''-'' @ sid @ ''-'' @ fl \<and> length ver = 2 \<and> CHR ''-'' \<notin> set ver \<and>
      map lower_char tid = hex_encode (TraceID tp) \<and> length (TraceID tp) = 16 \<and> \<not> allZero (TraceID tp) \<and>
      map lower_char sid = hex_encode (ParentID tp) \<and> length (ParentID tp) = 8 \<and> \<not> allZero (ParentID tp) \<and>
      map lower_char fl = hex_encode [flags] \<and> Sampled tp = odd (of_char flags :: nat))"

text \<open>The header of the W3C recommendation with four fields: lower-case hexadecimal throughout, and no
  version \<open>ff\<close>.\<close>

definition w3c_traceparent :: "string \<Rightarrow> traceparent \<Rightarrow> bool" where
  "w3c_traceparent v tp =
   (\<exists>ver flags.
      v = hex_encode [ver] @ ''-'' @ hex_encode (TraceID tp) @ ''-'' @ hex_encode (ParentID tp) @ ''-'' @
          hex_encode [flags] \<and> ver \<noteq> CHR 0xFF \<and>
      length (TraceID tp) = 16 \<and> \<not> allZero (TraceID tp) \<and> length (ParentID tp) = 8 \<and> \<not> allZero (ParentID tp) \<and>
      Sampled tp = odd (of_char flags :: nat))"

lemma ParseTraceparent_loose: "ParseTraceparent v = Some tp \<longleftrightarrow> loose_traceparent v tp"
  (is "?L \<longleftrightarrow> ?R")
proof
  assume ?L
  then obtain p0 p1 p2 p3 flags where p: "split_on CHR ''-'' v = [p0, p1, p2, p3]"
    "length p0 = 2" "length p1 = 32" "length p2 = 16" "length p3 = 2"
    "hex_decode p1 = Some (TraceID tp)" "\<not> allZero (TraceID tp)"
    "hex_decode p2 = Some (ParentID tp)" "\<not> allZero (ParentID tp)"
    "hex_decode p3 = Some flags" "Sampled tp = odd (of_char (hd flags) :: nat)"
    by (auto simp: ParseTraceparent_def split: list.splits option.splits if_splits)
  have v: "v = p0 @ ''-'' @ p1 @ ''-'' @ p2 @ ''-'' @ p3"
    using join_split [of "CHR ''-''" v] p(1) by simp
  have h: "map lower_char p1 = hex_encode (TraceID tp)" "map lower_char p2 = hex_encode (ParentID tp)"
    "map lower_char p3 = hex_encode flags"
    using p by (simp_all add: hex_decode_iff)
  from arg_cong [OF h(1), of length] arg_cong [OF h(2), of length] arg_cong [OF h(3), of length] p(3-5)
  have l: "length (TraceID tp) = 16" "length (ParentID tp) = 8" "length flags = 1" by simp_all
  then obtain f where f: "flags = [f]" by (auto simp: length_Suc_conv)
  have "CHR ''-'' \<notin> set p0" using split_on_mem [of p0 "CHR ''-''" v] p(1) by simp
  then show ?R using v p(2,7,9,11) h l f
    unfolding loose_traceparent_def by (intro exI [of _ p0] exI [of _ p1] exI [of _ p2] exI [of _ p3] exI [of _ f]) simp
next
  assume ?R
  then obtain ver tid sid fl flags where r:
    "v = ver @ ''-'' @ tid @ ''-'' @ sid @ ''-'' @ fl" "length ver = 2" "CHR ''-'' \<notin> set ver"
    "map lower_char tid = hex_encode (TraceID tp)" "length (TraceID tp) = 16" "\<not> allZero (TraceID tp)"
    "map lower_char sid = hex_encode (ParentID tp)" "length (ParentID tp) = 8" "\<not> allZero (ParentID tp)"
    "map lower_char fl = hex_encode [flags]" "Sampled tp = odd (of_char flags :: nat)"
    unfolding loose_traceparent_def by blast
  have "split_on CHR ''-'' v = [ver, tid, sid, fl]"
    using r(3) no_dash [OF r(4)] no_dash [OF r(7)] no_dash [OF r(10)]
    by (simp add: r(1) split_on_append split_on_no_sep)
  moreover have "length tid = 32" "length sid = 16" "length fl = 2"
    using arg_cong [OF r(4), of length] arg_cong [OF r(7), of length] arg_cong [OF r(10), of length] r(5,8)
    by (simp_all add: hex_byte_def)
  moreover have "hex_decode tid = Some (TraceID tp)" "hex_decode sid = Some (ParentID tp)" "hex_decode fl = Some [flags]"
    using r by (simp_all add: hex_decode_iff)
  ultimately show ?L using r(2,6,9,11) by (simp add: ParseTraceparent_def)
qed

text \<open>Lower-case digits.\<close>

definition lower_hex :: "char \<Rightarrow> bool" where
  "lower_hex c = (hex_val c \<noteq> None \<and> lower_char c = c)"

lemma lower_hex_byte: "list_all lower_hex (hex_byte c)"
proof -
  have "lower_hex (hex_digit n)" if "n < 16" for n
    using hex_digit_val [OF that] hex_val_digit [of "hex_digit n" n] by (simp add: lower_hex_def)
  then show ?thesis using of_char_nibble [of c] by (simp add: hex_byte_def)
qed

lemma lower_hex_encode: "list_all lower_hex (hex_encode s)"
  using lower_hex_byte by (induction s) simp_all

lemma lower_hex_lower: "list_all lower_hex s \<Longrightarrow> map lower_char s = s"
  by (induction s) (simp_all add: lower_hex_def)

lemma dash_no_hex [simp]: "\<not> lower_hex CHR ''-''"
  by code_simp

lemma lower_hex_pair: "list_all lower_hex s \<Longrightarrow> length s = 2 \<Longrightarrow> \<exists>c. s = hex_encode [c]"
proof -
  assume s: "list_all lower_hex s" "length s = 2"
  then obtain c d where cd: "s = [c, d]" by (auto simp: length_Suc_conv numeral_2_eq_2)
  then obtain b where "hex_decode s = Some [b]" using s(1) by (auto simp: lower_hex_def)
  then show ?thesis using lower_hex_lower [OF s(1)] by (auto simp: hex_decode_iff)
qed

lemma ff_byte: "hex_encode [c] = ''ff'' \<longleftrightarrow> c = CHR 0xFF"
proof
  assume "hex_encode [c] = ''ff''"
  then have "Some [c] = hex_decode ''ff''" by (metis hex_decode_encode)
  also have "\<dots> = Some [CHR 0xFF]" by code_simp
  finally show "c = CHR 0xFF" by simp
next
  have "hex_encode [CHR 0xFF] = ''ff''" by code_simp
  then show "c = CHR 0xFF \<Longrightarrow> hex_encode [c] = ''ff''" by (simp only:)
qed

text \<open>C26. Which \<open>traceparent\<close> values are accepted: exactly those with four fields of the right lengths,
  the last three hexadecimal in either case and the ids not all zero; the result holds the very ids of
  the header and bit 0 of its flags.  The headers of the W3C recommendation are among them, and they
  are exactly the accepted ones that are lower-case hexadecimal in every field, the version too, and
  not of version \<open>ff\<close>: the parser does not look at the version beyond its length, nor at the case.\<close>

theorem traceparent_exact:
  "(ParseTraceparent v = Some tp \<longleftrightarrow> loose_traceparent v tp) \<and>
   (w3c_traceparent v tp \<longleftrightarrow>
      ParseTraceparent v = Some tp \<and> list_all lower_hex (filter (\<lambda>c. c \<noteq> CHR ''-'') v) \<and> take 2 v \<noteq> ''ff'')"
proof -
  have plain: "filter (\<lambda>c. c \<noteq> CHR ''-'') s = s" if "list_all lower_hex s" for s
    using that by (auto simp: filter_id_conv list_all_iff)
  have "w3c_traceparent v tp \<longleftrightarrow>
      loose_traceparent v tp \<and> list_all lower_hex (filter (\<lambda>c. c \<noteq> CHR ''-'') v) \<and> take 2 v \<noteq> ''ff''"
    (is "?L \<longleftrightarrow> ?R")
  proof
    assume ?L
    then obtain ver flags where w: "v = hex_encode [ver] @ ''-'' @ hex_encode (TraceID tp) @ ''-'' @
        hex_encode (ParentID tp) @ ''-'' @ hex_encode [flags]" "ver \<noteq> CHR 0xFF"
      "length (TraceID tp) = 16" "\<not> allZero (TraceID tp)" "length (ParentID tp) = 8" "\<not> allZero (ParentID tp)"
      "Sampled tp = odd (of_char flags :: nat)"
      unfolding w3c_traceparent_def by blast
    have "loose_traceparent v tp"
      unfolding loose_traceparent_def
      by (intro exI [of _ "hex_encode [ver]"] exI [of _ "hex_encode (TraceID tp)"]
          exI [of _ "hex_encode (ParentID tp)"] exI [of _ "hex_encode [flags]"] exI [of _ flags])
        (use w no_dash [of "hex_encode [ver]" "[ver]"] in
          \<open>simp add: lower_hex_lower lower_hex_encode del: hex_encode_simps\<close>)
    moreover have "take 2 v \<noteq> ''ff''" using w(2) ff_byte [of ver] by (simp add: w(1) del: hex_encode_simps)
    moreover have "list_all lower_hex (filter (\<lambda>c. c \<noteq> CHR ''-'') v)"
      by (simp add: w(1) plain lower_hex_encode del: hex_encode_simps)
    ultimately show ?R by simp
  next
    assume R: ?R
    then obtain ver tid sid fl flags where r:
      "v = ver @ ''-'' @ tid @ ''-'' @ sid @ ''-'' @ fl" "length ver = 2" "CHR ''-'' \<notin> set ver"
      "map lower_char tid = hex_encode (TraceID tp)" "length (TraceID tp) = 16" "\<not> allZero (TraceID tp)"
      "map lower_char sid = hex_encode (ParentID tp)" "length (ParentID tp) = 8" "\<not> allZero (ParentID tp)"
      "map lower_char fl = hex_encode [flags]" "Sampled tp = odd (of_char flags :: nat)"
      unfolding loose_traceparent_def by blast
    have nd: "filter (\<lambda>c. c \<noteq> CHR ''-'') s = s" if "CHR ''-'' \<notin> set s" for s :: string
      using that by (auto simp: filter_id_conv)
    have "list_all lower_hex ver" "list_all lower_hex tid" "list_all lower_hex sid" "list_all lower_hex fl"
      using R nd [OF r(3)] nd [OF no_dash [OF r(4)]] nd [OF no_dash [OF r(7)]] nd [OF no_dash [OF r(10)]]
      by (simp_all add: r(1))
    moreover obtain x where "ver = hex_encode [x]" using lower_hex_pair [OF calculation(1) r(2)] by blast
    ultimately show ?L
      unfolding w3c_traceparent_def
      by (intro exI [of _ x] exI [of _ flags])
        (use R r ff_byte [of x] lower_hex_lower in \<open>auto simp del: hex_encode_simps\<close>)
  qed
  then show ?thesis by (simp only: ParseTraceparent_loose)
qed

section \<open>The queue behind the exporter\<close>

locale bounded_queue =
  fixes offer :: "'a \<Rightarrow> 'q \<Rightarrow> bool \<times> 'q" and receive :: "'q \<Rightarrow> ('a \<times> 'q) option"
    and items :: "'q \<Rightarrow> 'a list" and capacity :: "'q \<Rightarrow> nat"
  assumes offer_room: "length (items q) < capacity q \<Longrightarrow>
      items (snd (offer x q)) = items q @ [x]"
    and offer_full: "\<not> length (items q) < capacity q \<Longrightarrow> items (snd (offer x q)) = items q"
    and offer_capacity: "capacity (snd (offer x q)) = capacity q"
    and receive_None: "receive q = None \<longleftrightarrow> items q = []"
    and receive_Some: "receive q = Some (x, q') \<Longrightarrow> items q = x # items q' \<and> capacity q' = capacity q"
begin

text \<open>Every operation keeps the bound, an offer appends at most, and what a receive takes is what came
  first.\<close>

lemma offer_bounded: "length (items q) \<le> capacity q \<Longrightarrow> length (items (snd (offer x q))) \<le> capacity (snd (offer x q))"
  using offer_room [of q x] offer_full [of q x] by (cases "length (items q) < capacity q") (auto simp: offer_capacity)

lemma receive_bounded: "receive q = Some (x, q') \<Longrightarrow> length (items q) \<le> capacity q \<Longrightarrow> length (items q') < capacity q'"
  using receive_Some [of q x q'] by simp

lemma offer_appends: "items (snd (offer x q)) = items q @ (if length (items q) < capacity q then [x] else [])"
  by (simp add: offer_room offer_full)

lemma receive_shortens: "receive q = Some (x, q') \<Longrightarrow> length (items q') < length (items q)"
  using receive_Some [of q x q'] by simp

end

interpretation ch: bounded_queue try_send try_receive ch_items ch_cap
  by unfold_locales (auto simp: try_send_def try_receive_def split: list.splits)

text \<open>What the exporter has accepted: posted, being posted, and queued, oldest first.\<close>

fun in_flight :: "worker \<Rightarrow> span list" where
  "in_flight (Exporting s) = [s]"
| "in_flight (DrainExporting s) = [s]"
| "in_flight _ = []"

definition pending :: "exporter \<Rightarrow> span list" where
  "pending e = in_flight (ex_worker e) @ ch_items (ex_queue e)"

definition accepted :: "exporter \<Rightarrow> (string \<times> string) list" where
  "accepted e = ex_posts e @ map (\<lambda>s. (ex_endpoint e, encodeTraces (ex_service e) s)) (pending e)"

fun ended_spans :: "exporter_event list \<Rightarrow> span list" where
  "ended_spans [] = []"
| "ended_spans (Ended s # es) = s # ended_spans es"
| "ended_spans (_ # es) = ended_spans es"

lemma ended_spans_append: "ended_spans (es @ fs) = ended_spans es @ ended_spans fs"
  by (induction es rule: ended_spans.induct) auto

definition exporter_ok :: "exporter \<Rightarrow> bool" where
  "exporter_ok e = (ch_cap (ex_queue e) = queueDepth \<and> length (ch_items (ex_queue e)) \<le> queueDepth)"

lemma worker_step_frame:
  assumes "worker_step e e'"
  shows "accepted e' = accepted e" "exporter_ok e \<Longrightarrow> exporter_ok e'" "ex_stop e' = ex_stop e"
    "ex_endpoint e' = ex_endpoint e" "ex_service e' = ex_service e"
  using assms by (cases rule: worker_step.cases;
      auto simp: accepted_def pending_def exporter_ok_def export_def dest: ch.receive_Some)+

lemma enqueue_frame:
  "ex_endpoint (enqueue s e) = ex_endpoint e" "ex_service (enqueue s e) = ex_service e"
  "ex_worker (enqueue s e) = ex_worker e" "ex_stop (enqueue s e) = ex_stop e" "ex_posts (enqueue s e) = ex_posts e"
  "ch_items (ex_queue (enqueue s e)) = ch_items (ex_queue e) @
     (if length (ch_items (ex_queue e)) < ch_cap (ex_queue e) then [s] else [])"
  by (simp_all add: enqueue_def ch.offer_appends)

lemma enqueue_accepted:
  "accepted (enqueue s e) = accepted e @
     (if length (ch_items (ex_queue e)) < ch_cap (ex_queue e)
      then [(ex_endpoint e, encodeTraces (ex_service e) s)] else [])"
  by (simp add: accepted_def pending_def enqueue_def ch.offer_appends)

lemma close_stop_frame:
  "accepted (close_stop e) = accepted e" "exporter_ok (close_stop e) = exporter_ok e"
  "ex_endpoint (close_stop e) = ex_endpoint e" "ex_service (close_stop e) = ex_service e"
  "ex_queue (close_stop e) = ex_queue e"
  by (simp_all add: close_stop_def accepted_def pending_def exporter_ok_def)

lemma enqueue_ok: "exporter_ok e \<Longrightarrow> exporter_ok (enqueue s e)"
  using ch.offer_bounded [of "ex_queue e" s] by (simp add: exporter_ok_def enqueue_def ch.offer_capacity)

text \<open>C27. The request path never waits for the collector: ending a span is a single step that is
  always possible.  The backlog never exceeds 1024 spans; what is posted is a prefix of what was
  accepted, and what was accepted is what was ended, in order and without duplicates, minus the
  spans that found the queue full.\<close>

theorem exporter_bounded_fifo:
  assumes "NewExporter endpoint service ratio = Some e0" and "exporter_run e0 es e"
  shows "length (ch_items (ex_queue e)) \<le> 1024 \<and> prefix (ex_posts e) (accepted e) \<and>
    subseq (accepted e) (map (\<lambda>s. (ex_endpoint e, encodeTraces (ex_service e) s)) (ended_spans es)) \<and>
    (length (ended_spans es) \<le> 1024 \<longrightarrow>
      accepted e = map (\<lambda>s. (ex_endpoint e, encodeTraces (ex_service e) s)) (ended_spans es)) \<and>
    exporter_step e (Ended s) (enqueue s e)"
proof -
  have "exporter_ok e \<and> ex_endpoint e = ex_endpoint e0 \<and> ex_service e = ex_service e0 \<and>
    length (ch_items (ex_queue e)) \<le> length (ended_spans es) \<and>
    subseq (accepted e) (map (\<lambda>s. (ex_endpoint e, encodeTraces (ex_service e) s)) (ended_spans es)) \<and>
    (length (ended_spans es) \<le> 1024 \<longrightarrow>
      accepted e = map (\<lambda>s. (ex_endpoint e, encodeTraces (ex_service e) s)) (ended_spans es))"
    using assms(2)
  proof (induction rule: exporter_run.induct)
    case run_start
    show ?case using assms(1)
      by (auto simp: NewExporter_def exporter_ok_def accepted_def pending_def queueDepth_def split: if_splits)
  next
    case (run_step es e' x e'')
    from run_step.hyps(2) show ?case
    proof (cases rule: exporter_step.cases)
      case (x_end s)
      then show ?thesis
        using run_step.IH enqueue_ok [of e' s]
        by (auto simp: ended_spans_append enqueue_frame enqueue_accepted exporter_ok_def queueDepth_def
            list_emb_append_mono list_emb_prefix)
    next
      case x_stop
      then show ?thesis using run_step.IH
        by (auto simp: ended_spans_append close_stop_frame)
    next
      case x_work
      have "length (ch_items (ex_queue e'')) \<le> length (ch_items (ex_queue e'))"
        using x_work(2) by (cases rule: worker_step.cases) (auto simp: export_def dest: ch.receive_Some)
      then show ?thesis using run_step.IH worker_step_frame [OF x_work(2)] x_work(1)
        by (auto simp: ended_spans_append)
    qed
  qed
  then show ?thesis by (auto simp: exporter_ok_def queueDepth_def accepted_def intro: x_end)
qed

section \<open>Shutdown\<close>

text \<open>The steps the worker has left at most, once no more spans arrive.\<close>

fun worker_rank :: "worker \<Rightarrow> nat" where
  "worker_rank (Exporting s) = 3"
| "worker_rank Selecting = 2"
| "worker_rank (DrainExporting s) = 2"
| "worker_rank Draining = 1"
| "worker_rank Done = 0"

definition work_left :: "exporter \<Rightarrow> nat" where
  "work_left e = 2 * length (ch_items (ex_queue e)) + worker_rank (ex_worker e)"

inductive worker_steps :: "nat \<Rightarrow> exporter \<Rightarrow> exporter \<Rightarrow> bool" where
  ws_refl: "worker_steps 0 e e"
| ws_step: "worker_step e e' \<Longrightarrow> worker_steps n e' e'' \<Longrightarrow> worker_steps (Suc n) e e''"

lemma worker_step_work:
  assumes "worker_step e e'"
  shows "work_left e' < work_left e"
  using assms
  by (cases rule: worker_step.cases; auto simp: work_left_def export_def dest: ch.receive_Some)

lemma worker_steps_work: "worker_steps n e e' \<Longrightarrow> n + work_left e' \<le> work_left e"
  by (induction rule: worker_steps.induct) (auto dest: worker_step_work)

lemma worker_steps_frame: "worker_steps n e e' \<Longrightarrow> accepted e' = accepted e \<and> ex_stop e' = ex_stop e"
  by (induction rule: worker_steps.induct) (simp_all add: worker_step_frame)

lemma worker_steps_trans: "worker_steps m e e' \<Longrightarrow> worker_steps n e' e'' \<Longrightarrow> worker_steps (m + n) e e''"
  by (induction rule: worker_steps.induct) (auto intro: ws_step)

lemma worker_progress: "ex_stop e \<Longrightarrow> ex_worker e \<noteq> Done \<Longrightarrow> \<exists>e'. worker_step e e'"
proof (cases "ex_worker e")
  case Draining
  then show ?thesis
    by (cases "try_receive (ex_queue e)") (auto intro: worker_step.intros)
qed (auto intro: worker_step.intros)

lemma worker_finishes: "ex_stop e \<Longrightarrow> \<exists>n e'. worker_steps n e e' \<and> ex_worker e' = Done"
proof (induction "work_left e" arbitrary: e rule: less_induct)
  case less
  show ?case
  proof (cases "ex_worker e = Done")
    case True
    then show ?thesis using ws_refl by blast
  next
    case False
    with less.prems obtain e' where s: "worker_step e e'" using worker_progress by blast
    with less.prems worker_step_frame(3) [OF s] less.hyps [OF worker_step_work [OF s]] ws_step [OF s]
    show ?thesis by blast
  qed
qed

lemma done_empty:
  assumes "worker_steps n e e'" "ex_worker e \<noteq> Done" "ex_worker e' = Done"
  shows "ch_items (ex_queue e') = []"
  using assms
proof (induction rule: worker_steps.induct)
  case (ws_step e e' n e'')
  show ?case
  proof (cases "ex_worker e' = Done")
    case True
    with ws_step.hyps(1) have "ch_items (ex_queue e') = []"
      by (cases rule: worker_step.cases) (auto simp: ch.receive_None export_def)
    moreover have "e'' = e'" using ws_step.hyps(2)
    proof (cases rule: worker_steps.cases)
      case (ws_step d k)
      then show ?thesis using True by (auto elim: worker_step.cases)
    qed simp
    ultimately show ?thesis by simp
  next
    case False
    then show ?thesis using ws_step by simp
  qed
qed simp

text \<open>C28. Shutdown drains: once the stop channel is closed and no further span ends, every way the
  worker can go on is finite, is never stuck before it has returned, and ends with all accepted
  spans posted, none lost and none twice, whichever ready case each \<open>select\<close> picks.\<close>

theorem shutdown_drains:
  assumes "ex_stop e" and "ex_worker e \<noteq> Done" and "worker_steps n e e'"
  shows "n \<le> 2 * length (ch_items (ex_queue e)) + 3 \<and>
    (ex_worker e' \<noteq> Done \<longrightarrow> (\<exists>e''. worker_step e' e'')) \<and>
    (ex_worker e' = Done \<longrightarrow> ex_posts e' = accepted e) \<and>
    (\<exists>k e''. worker_steps k e' e'' \<and> ex_worker e'' = Done \<and> ex_posts e'' = accepted e)"
proof -
  have posted: "ex_posts d = accepted e" if "worker_steps k e d" "ex_worker d = Done" for k d
    using worker_steps_frame [OF that(1)] done_empty [OF that(1) assms(2) that(2)] that(2)
    by (simp add: accepted_def pending_def)
  have stop: "ex_stop e'" using worker_steps_frame [OF assms(3)] assms(1) by simp
  then obtain k e'' where k: "worker_steps k e' e''" "ex_worker e'' = Done" using worker_finishes by blast
  have "worker_rank (ex_worker e) \<le> 3" by (cases "ex_worker e") simp_all
  then have "n \<le> 2 * length (ch_items (ex_queue e)) + 3"
    using worker_steps_work [OF assms(3)] by (simp add: work_left_def)
  moreover have "ex_worker e' \<noteq> Done \<longrightarrow> (\<exists>e''. worker_step e' e'')"
    using worker_progress [OF stop] by blast
  ultimately show ?thesis
    using posted [OF assms(3)] posted [OF worker_steps_trans [OF assms(3) k(1)] k(2)] k by blast
qed

section \<open>Witnesses\<close>

definition demo_span :: span where
  "demo_span = new_span (replicate 16 (CHR 0x01)) (replicate 8 (CHR 0x02)) True ''wavefront.proxy'' 7
     \<lparr>dr_root = None, dr_trace = None, dr_span = None\<rparr>"

definition demo_exporter :: exporter where
  "demo_exporter = the (NewExporter ''http://otel/'' '''' f64_one)"

lemma demo_endpoint: "trim_space ''http://otel/'' \<noteq> ''''"
  by code_simp

lemma demo_exporter_new: "NewExporter ''http://otel/'' '''' f64_one = Some demo_exporter"
  by (simp add: demo_exporter_def NewExporter_def demo_endpoint)

theorem exporter_bounded_fifo_witness:
  "prefix (ex_posts (enqueue demo_span demo_exporter)) (accepted (enqueue demo_span demo_exporter))"
proof -
  have "exporter_run demo_exporter ([] @ [Ended demo_span]) (enqueue demo_span demo_exporter)"
    by (rule run_step [OF run_start x_end])
  from exporter_bounded_fifo [OF demo_exporter_new this] show ?thesis by blast
qed

theorem shutdown_drains_witness:
  "\<exists>k e''. worker_steps k (close_stop (enqueue demo_span demo_exporter)) e'' \<and> ex_worker e'' = Done \<and>
     ex_posts e'' = accepted (close_stop (enqueue demo_span demo_exporter))"
proof -
  let ?e = "close_stop (enqueue demo_span demo_exporter)"
  have "ex_worker demo_exporter = Selecting"
    by (simp add: demo_exporter_def NewExporter_def demo_endpoint)
  then have "ex_stop ?e" "ex_worker ?e \<noteq> Done"
    by (simp_all add: close_stop_def enqueue_frame)
  from shutdown_drains [OF this ws_refl] show ?thesis by blast
qed

end
