(* ===== verification/Gen_Names.thy ===== *)
theory Gen_Names
  imports Go_Prelude
begin

text \<open>
  The names \<open>internal/bundlegen/bundlegen.go\<close> gives to messages, fields, packages and layers:
  sanitizing to proto3 identifiers, disambiguation by numeric suffixes, map-entry names.  A map from
  names to names is a function, a set of used names a list.
\<close>

section \<open>Sanitizing\<close>

definition ident_char :: "char \<Rightarrow> bool" where
  "ident_char c =
     (is_digit c \<or> 65 \<le> (of_char c :: nat) \<and> (of_char c :: nat) \<le> 90
      \<or> 97 \<le> (of_char c :: nat) \<and> (of_char c :: nat) \<le> 122 \<or> c = CHR ''_'')"

text \<open>\<open>nonIdent.ReplaceAllString\<close> replaces runes: the bytes after the first one of a multi-byte rune
  go with it.  (The names come out of \<open>encoding/json\<close>, so they are valid UTF-8.)\<close>

definition continuation :: "char \<Rightarrow> bool" where
  "continuation c = (128 \<le> (of_char c :: nat) \<and> (of_char c :: nat) \<le> 191)"

definition replace_non_ident :: "string \<Rightarrow> string" where
  "replace_non_ident s = map (\<lambda>c. if ident_char c then c else CHR ''_'') (filter (\<lambda>c. \<not> continuation c) s)"

definition sanitizeIdent :: "string \<Rightarrow> string" where
  "sanitizeIdent s =
     (let out = replace_non_ident s in
        if out = '''' then ''_'' else if is_digit (hd out) then CHR ''_'' # out else out)"

definition sanitize :: "string \<Rightarrow> string" where
  "sanitize version = (let s = replace_non_ident version in if s = '''' then ''x'' else s)"

definition protoPackage :: "string \<Rightarrow> string" where
  "protoPackage version = ''wavefront.gen.v'' @ sanitize version"

text \<open>A legal proto3 identifier.\<close>

definition legal_ident :: "string \<Rightarrow> bool" where
  "legal_ident s = (s \<noteq> '''' \<and> list_all ident_char s \<and> \<not> is_digit (hd s))"

lemma ident_char_underscore [simp]: "ident_char CHR ''_''"
  by (simp add: ident_char_def)

lemma underscore_no_digit [simp]: "\<not> is_digit CHR ''_''"
  by code_simp

lemma ident_no_continuation: "ident_char c \<Longrightarrow> \<not> continuation c"
  by (auto simp: ident_char_def continuation_def is_digit_def)

lemma replace_idents: "list_all ident_char (replace_non_ident s)"
  by (auto simp: replace_non_ident_def list_all_iff)

lemma replace_id: "list_all ident_char s \<Longrightarrow> replace_non_ident s = s"
  by (induction s) (auto simp: replace_non_ident_def ident_no_continuation)

lemma sanitizeIdent_legal: "legal_ident (sanitizeIdent s)"
  using replace_idents [of s] by (auto simp: sanitizeIdent_def legal_ident_def Let_def)

lemma sanitizeIdent_id: "legal_ident s \<Longrightarrow> sanitizeIdent s = s"
  by (auto simp: sanitizeIdent_def legal_ident_def replace_id Let_def)

section \<open>Disambiguation\<close>

definition suffixed :: "string \<Rightarrow> nat \<Rightarrow> string" where
  "suffixed base i = base @ ''_'' @ itoa (int i)"

lemma suffixed_inj: "suffixed base i = suffixed base j \<Longrightarrow> i = j"
  by (simp add: suffixed_def itoa_def nat_digits_inj)

lemma suffixes_finite: "finite {j. suffixed base j \<in> set used}"
  by (rule finite_imageD [where f = "suffixed base"])
    (auto intro: finite_subset [where B = "set used"] inj_onI suffixed_inj)

text \<open>The loop \<open>for i := 2; used[name]; i++\<close>.  It ends because each turn tries another name and only
  finitely many are used.\<close>

function free_name :: "string \<Rightarrow> string list \<Rightarrow> nat \<Rightarrow> string" where
  "free_name base used i =
     (if suffixed base i \<in> set used then free_name base used (i + 1) else suffixed base i)"
  by pat_completeness auto
termination
proof (relation "measure (\<lambda>(base, used, i). card {j. i \<le> j \<and> suffixed base j \<in> set used})", goal_cases)
  case (2 base used i)
  have "{j. i + 1 \<le> j \<and> suffixed base j \<in> set used} \<subset> {j. i \<le> j \<and> suffixed base j \<in> set used}"
    (is "?L \<subset> ?R")
  proof (rule psubsetI)
    have "i \<in> ?R" "i \<notin> ?L" using 2 by simp_all
    then show "?L \<noteq> ?R" by blast
  qed auto
  moreover have "finite {j. i \<le> j \<and> suffixed base j \<in> set used}"
    by (rule finite_subset [OF _ suffixes_finite [of base used]]) auto
  ultimately show ?case by (simp add: psubset_card_mono)
qed simp

declare free_name.simps [simp del]

definition uniqueIdent :: "string \<Rightarrow> string list \<Rightarrow> string \<times> string list" where
  "uniqueIdent raw used =
     (let base = sanitizeIdent raw;
          name = (if base \<in> set used then free_name base used 2 else base)
      in (name, name # used))"

text \<open>The names in order, each with the identifier it gets.\<close>

fun assign_idents :: "string list \<Rightarrow> string list \<Rightarrow> (string \<times> string) list" where
  "assign_idents used [] = []"
| "assign_idents used (n # ns) =
     (case uniqueIdent n used of (name, used') \<Rightarrow> (n, name) # assign_idents used' ns)"

definition sanitizeMessageNames :: "string list \<Rightarrow> (string \<times> string) list" where
  "sanitizeMessageNames names = assign_idents [] names"

text \<open>\<open>msgNames[n]\<close>: the zero value of a missing key.\<close>

definition name_of :: "(string \<times> string) list \<Rightarrow> string \<Rightarrow> string" where
  "name_of m n = (case map_of m n of None \<Rightarrow> '''' | Some s \<Rightarrow> s)"

text \<open>The name of the map-entry message of a field; \<open>unicode.ToUpper\<close> only meets the characters of an
  identifier.\<close>

fun camel_from :: "bool \<Rightarrow> string \<Rightarrow> string" where
  "camel_from up [] = []"
| "camel_from up (c # s) =
     (if c = CHR ''_'' then camel_from True s
      else (if up then upper_char c else c) # camel_from False s)"

definition mapEntryName :: "string \<Rightarrow> string" where
  "mapEntryName field = camel_from True field @ ''Entry''"

definition safeLayerName :: "string \<Rightarrow> bool" where
  "safeLayerName name =
     (if name = '''' \<or> name = ''.'' \<or> name = ''..'' then False
      else if contains_any name [CHR ''/'', CHR 0x5C] then False
      else list_all (\<lambda>c. \<not> ((of_char c :: nat) < 0x20 \<or> c = CHR 0x7F)) name)"

section \<open>Lemmas\<close>

lemma free_name_new: "free_name base used i \<notin> set used"
proof (induction base used i rule: free_name.induct)
  case (1 base used i)
  then show ?case by (subst free_name.simps) auto
qed

lemma free_name_form: "\<exists>j \<ge> i. free_name base used i = suffixed base j"
proof (induction base used i rule: free_name.induct)
  case (1 base used i)
  show ?case
  proof (cases "suffixed base i \<in> set used")
    case True
    with 1 obtain j where "j \<ge> i + 1" "free_name base used (i + 1) = suffixed base j" by blast
    moreover have "free_name base used i = free_name base used (i + 1)" using True by (subst free_name.simps) simp
    ultimately show ?thesis by (intro exI [of _ j]) simp
  next
    case False
    then have "free_name base used i = suffixed base i" by (subst free_name.simps) simp
    then show ?thesis by (intro exI [of _ i]) simp
  qed
qed

lemma legal_suffixed: "legal_ident base \<Longrightarrow> legal_ident (suffixed base i)"
  using nat_digits_all [of i] by (auto simp: legal_ident_def suffixed_def itoa_def list_all_iff ident_char_def)

lemma uniqueIdent_new:
  assumes "uniqueIdent raw used = (name, used')"
  shows "name \<notin> set used" "used' = name # used" "legal_ident name"
    "sanitizeIdent raw \<notin> set used \<Longrightarrow> name = sanitizeIdent raw"
proof -
  have "legal_ident (free_name (sanitizeIdent raw) used 2)"
    using free_name_form [of 2 "sanitizeIdent raw" used] legal_suffixed [OF sanitizeIdent_legal [of raw]] by auto
  then show "name \<notin> set used" "used' = name # used" "legal_ident name"
    "sanitizeIdent raw \<notin> set used \<Longrightarrow> name = sanitizeIdent raw"
    using assms sanitizeIdent_legal [of raw] free_name_new [of "sanitizeIdent raw" used 2]
    by (auto simp: uniqueIdent_def Let_def split: if_splits)
qed

lemma assign_idents_ok:
  "map fst (assign_idents used ns) = ns \<and> distinct (map snd (assign_idents used ns)) \<and>
   set (map snd (assign_idents used ns)) \<inter> set used = {} \<and> list_all legal_ident (map snd (assign_idents used ns))"
proof (induction ns arbitrary: used)
  case (Cons n ns)
  obtain name used' where u: "uniqueIdent n used = (name, used')" by fastforce
  show ?case using Cons.IH [of used'] uniqueIdent_new [OF u] by (auto simp: u)
qed simp

text \<open>A legal name nothing else sanitizes to keeps its name, and takes no suffix of another one unless
  it looks like one.\<close>

lemma assign_idents_keeps:
  assumes "n \<in> set ns" "legal_ident n" "n \<notin> set used"
    and "\<And>m j. m \<in> set ns \<Longrightarrow> m \<noteq> n \<Longrightarrow> sanitizeIdent m \<noteq> n \<and> suffixed (sanitizeIdent m) j \<noteq> n"
    and "distinct ns"
  shows "map_of (assign_idents used ns) n = Some n"
  using assms
proof (induction ns arbitrary: used)
  case (Cons m ns)
  obtain name used' where u: "uniqueIdent m used = (name, used')" by fastforce
  show ?case
  proof (cases "m = n")
    case True
    then show ?thesis using uniqueIdent_new(4) [OF u] Cons.prems(2,3) u by (simp add: sanitizeIdent_id)
  next
    case False
    have "name \<noteq> n"
      using u Cons.prems(4) [of m] False free_name_form [of 2 "sanitizeIdent m" used]
      by (auto simp: uniqueIdent_def Let_def split: if_splits)
    then have "n \<notin> set used'" using uniqueIdent_new(2) [OF u] Cons.prems(3) by simp
    with Cons False show ?thesis by (simp add: u)
  qed
qed simp

end
