(* ===== verification/Gen_Schema.thy ===== *)
theory Gen_Schema
  imports Gen_Names Go_Utf8 Wire_Error
begin

text \<open>
  The schema side of \<open>internal/bundlegen/bundlegen.go\<close>: OpenAPI schemas, their classification, the
  walk that collects the components that become messages, and the lowering of a property to a
  proto3 field.

  A pointer to a schema is an option, a Go map an association list with distinct keys in the order
  it happens to be iterated, a \<open>json.RawMessage\<close> the text of the value, \<open>None\<close> when the key is
  absent.  \<open>encoding/json\<close> is the parameter \<open>unmarshal_schema\<close>.  A failure is an error text or a nil
  dereference.
\<close>

section \<open>Schemas\<close>

datatype schema = Schema
  (s_ref: string)
  (s_type: string)
  (s_format: string)
  (s_nullable: bool)
  (s_properties: "(string \<times> schema option) list option")
  (s_items: "schema option")
  (s_allOf: "schema option list")
  (s_oneOf: "schema option list")
  (s_anyOf: "schema option list")
  (s_additional: "string option")
  (s_discriminator: "string option")

definition empty_schema :: schema where
  "empty_schema = Schema '''' '''' '''' False None None [] [] [] None None"

definition typed_schema :: "string \<Rightarrow> schema" where
  "typed_schema t = Schema '''' t '''' False None None [] [] [] None None"

definition ref_schema :: "string \<Rightarrow> schema" where
  "ref_schema r = Schema r '''' '''' False None None [] [] [] None None"

definition props_of :: "schema \<Rightarrow> (string \<times> schema option) list" where
  "props_of sc = (case s_properties sc of None \<Rightarrow> [] | Some ps \<Rightarrow> ps)"

datatype gen_fault = GenError string | GenPanic string

fun wrap_fault :: "string \<Rightarrow> gen_fault \<Rightarrow> gen_fault" where
  "wrap_fault prefix_text (GenError e) = GenError (prefix_text @ '': '' @ e)"
| "wrap_fault prefix_text (GenPanic m) = GenPanic m"

fun wrap_err :: "string \<Rightarrow> gen_fault + 'a \<Rightarrow> gen_fault + 'a" where
  "wrap_err prefix_text (Inl e) = Inl (wrap_fault prefix_text e)"
| "wrap_err prefix_text (Inr x) = Inr x"

definition nil_deref :: gen_fault where
  "nil_deref = GenPanic ''invalid memory address or nil pointer dereference''"

definition refName :: "string \<Rightarrow> string" where
  "refName ref = last (split_on CHR ''/'' ref)"

definition isMessageComponent :: "schema \<Rightarrow> bool" where
  "isMessageComponent sc = (s_type sc = ''object'' \<and> s_properties sc \<noteq> None)"

definition isEmptySchema :: "schema \<Rightarrow> bool" where
  "isEmptySchema sc =
     (s_ref sc = '''' \<and> s_type sc = '''' \<and> s_format sc = '''' \<and> \<not> s_nullable sc \<and>
      props_of sc = [] \<and> s_items sc = None \<and>
      s_allOf sc = [] \<and> s_oneOf sc = [] \<and> s_anyOf sc = [] \<and>
      s_additional sc = None \<and> (s_discriminator sc = None \<or> s_discriminator sc = Some ''''))"

definition raw_trim :: "string option \<Rightarrow> string" where
  "raw_trim raw = (case raw of None \<Rightarrow> '''' | Some s \<Rightarrow> trim_space s)"

definition hasDiscriminator :: "schema \<Rightarrow> bool" where
  "hasDiscriminator sc =
     (let t = raw_trim (s_discriminator sc) in t \<noteq> '''' \<and> t \<noteq> ''null'')"

definition isDiscriminatedUnion :: "schema \<Rightarrow> bool" where
  "isDiscriminatedUnion sc = (hasDiscriminator sc \<and> (s_oneOf sc \<noteq> [] \<or> s_anyOf sc \<noteq> []))"

definition isNullType :: "schema option \<Rightarrow> bool" where
  "isNullType m = (case m of None \<Rightarrow> False | Some m \<Rightarrow> s_type m = ''null'' \<and> s_ref m = '''')"

definition scalar_type :: "string \<Rightarrow> bool" where
  "scalar_type t = (t \<in> {''string'', ''boolean'', ''integer'', ''number''})"

definition isNullableLeaf :: "schema \<Rightarrow> bool" where
  "isNullableLeaf sc = (if s_ref sc \<noteq> '''' then True else scalar_type (s_type sc))"

text \<open>The loop over the two members keeps whether a null marker was seen and the last other member.\<close>

definition nullableAnyOf :: "schema \<Rightarrow> schema option" where
  "nullableAnyOf sc =
     (if length (s_anyOf sc) \<noteq> 2 then None
      else
        let (nullSeen, other) =
          fold (\<lambda>m (seen, other). if isNullType m then (True, other) else (seen, m))
            (s_anyOf sc) (False, None)
        in (if \<not> nullSeen then None
            else (case other of None \<Rightarrow> None | Some m \<Rightarrow> if isNullableLeaf m then Some m else None)))"

definition isUntaggedUnion :: "schema \<Rightarrow> bool" where
  "isUntaggedUnion sc =
     (if hasDiscriminator sc then False
      else if s_oneOf sc \<noteq> [] then True
      else if s_anyOf sc \<noteq> [] then nullableAnyOf sc = None
      else False)"

type_synonym unmarshal = "string \<Rightarrow> schema option"

definition additionalPropertiesOpen :: "unmarshal \<Rightarrow> string option \<Rightarrow> bool" where
  "additionalPropertiesOpen um raw =
     (let trimmed = raw_trim raw in
        if trimmed = ''true'' then True
        else if trimmed \<noteq> '''' \<and> hd trimmed = CHR ''{'' then
          (case um trimmed of None \<Rightarrow> False | Some v \<Rightarrow> isEmptySchema v)
        else False)"

definition additionalPropertiesFalse :: "string option \<Rightarrow> bool" where
  "additionalPropertiesFalse raw = (raw_trim raw = ''false'')"

definition isOpenObject :: "unmarshal \<Rightarrow> schema \<Rightarrow> bool" where
  "isOpenObject um sc =
     (s_type sc = ''object'' \<and> props_of sc = [] \<and>
      (s_additional sc = None \<or> additionalPropertiesOpen um (s_additional sc)))"

definition structFullName :: string where "structFullName = ''google.protobuf.Struct''"
definition valueFullName :: string where "valueFullName = ''google.protobuf.Value''"

definition wktMessageName :: "unmarshal \<Rightarrow> schema \<Rightarrow> string" where
  "wktMessageName um sc =
     (if isOpenObject um sc \<or> isDiscriminatedUnion sc then structFullName
      else if isUntaggedUnion sc \<or> isEmptySchema sc then valueFullName
      else '''')"

definition mapValueSchema :: "unmarshal \<Rightarrow> string option \<Rightarrow> schema option" where
  "mapValueSchema um raw =
     (let trimmed = raw_trim raw in
        if trimmed = '''' \<or> hd trimmed \<noteq> CHR ''{'' then None
        else
          (case um trimmed of
             None \<Rightarrow> None
           | Some v \<Rightarrow> if s_ref v \<noteq> '''' then Some v else if scalar_type (s_type v) then Some v else None))"

definition additional_msg :: string where
  "additional_msg = ''additionalProperties is unsupported in this form (accepted, each without declared properties: false (no-op), a typed dict additionalProperties:<scalar|$ref>, and an open object additionalProperties:true|{}; rejected: an inline-object value, and any additionalProperties mixed with declared properties)''"

definition rejectUnsupported :: "unmarshal \<Rightarrow> schema option \<Rightarrow> gen_fault + unit" where
  "rejectUnsupported um sc =
     (case sc of
        None \<Rightarrow> Inl nil_deref
      | Some sc \<Rightarrow>
          if s_allOf sc \<noteq> [] then Inl (GenError ''allOf is unsupported'')
          else if s_oneOf sc \<noteq> [] \<or> s_anyOf sc \<noteq> [] then Inr ()
          else if s_additional sc \<noteq> None \<and> \<not> additionalPropertiesFalse (s_additional sc) then
            let isMap = mapValueSchema um (s_additional sc) \<noteq> None;
                isOpen = additionalPropertiesOpen um (s_additional sc) in
            (if (\<not> isMap \<and> \<not> isOpen) \<or> props_of sc \<noteq> [] then Inl (GenError additional_msg)
             else Inr ())
          else Inr ())"

section \<open>Collecting components\<close>

text \<open>\<open>components name\<close> is \<open>doc.Components.Schemas[name]\<close>: missing and null are both nil.  The state of
  the walk is the maps \<open>visited\<close> and \<open>out\<close>.\<close>

type_synonym components = "string \<Rightarrow> schema option"
type_synonym walk = "string list \<times> (string \<times> schema) list"

text \<open>The component a lowered schema pulls in, if any.\<close>

definition walk_target :: "unmarshal \<Rightarrow> schema \<Rightarrow> string option" where
  "walk_target um s =
     (if s_ref s \<noteq> '''' then Some (refName (s_ref s))
      else if s_type s = ''array'' \<and> s_items s \<noteq> None \<and> s_ref (the (s_items s)) \<noteq> '''' then
        Some (refName (s_ref (the (s_items s))))
      else if s_type s = ''object'' then
        (case mapValueSchema um (s_additional s) of
           Some v \<Rightarrow> if s_ref v \<noteq> '''' then Some (refName (s_ref v)) else None
         | None \<Rightarrow> None)
      else
        (case nullableAnyOf s of
           Some inner \<Rightarrow> if s_ref inner \<noteq> '''' then Some (refName (s_ref inner)) else None
         | None \<Rightarrow> None))"

text \<open>\<open>visit\<close> recurses through \<open>walkRefs\<close>.  Every nested call has marked one more component, so the
  depth is bounded by their number; the fuel is that bound, and \<open>None\<close> says it ran out.\<close>

fun visit :: "unmarshal \<Rightarrow> components \<Rightarrow> nat \<Rightarrow> string \<Rightarrow> walk \<Rightarrow> (gen_fault + walk) option"
and visit_props ::
  "unmarshal \<Rightarrow> components \<Rightarrow> nat \<Rightarrow> string \<Rightarrow> (string \<times> schema option) list \<Rightarrow> walk \<Rightarrow> (gen_fault + walk) option"
where
  "visit um comps 0 name st = None"
| "visit um comps (Suc n) name (visited, out) =
     (if name \<in> set visited then Some (Inr (visited, out))
      else
        (let visited = name # visited in
           case comps name of
             None \<Rightarrow> Some (Inl (GenError (''schema '' @ go_quote name @ '' referenced but not defined'')))
           | Some sc \<Rightarrow>
               (case rejectUnsupported um (Some sc) of
                  Inl e \<Rightarrow> Some (Inl (wrap_fault (''schema '' @ go_quote name) e))
                | Inr _ \<Rightarrow>
                    if \<not> isMessageComponent sc then
                      (case walk_target um sc of
                         None \<Rightarrow> Some (Inr (visited, out))
                       | Some r \<Rightarrow> visit um comps n r (visited, out))
                    else visit_props um comps n name (props_of sc) (visited, (name, sc) # out))))"
| "visit_props um comps n name [] st = Some (Inr st)"
| "visit_props um comps n name ((pn, prop) # props) st =
     (case rejectUnsupported um prop of
        Inl e \<Rightarrow> Some (Inl (wrap_fault (''schema '' @ go_quote name @ '' property'') e))
      | Inr _ \<Rightarrow>
          (case walk_target um (the prop) of
             None \<Rightarrow> visit_props um comps n name props st
           | Some r \<Rightarrow>
               (case visit um comps n r st of
                  None \<Rightarrow> None
                | Some (Inl e) \<Rightarrow> Some (Inl e)
                | Some (Inr st') \<Rightarrow> visit_props um comps n name props st')))"

fun visit_roots :: "unmarshal \<Rightarrow> components \<Rightarrow> nat \<Rightarrow> string list \<Rightarrow> walk \<Rightarrow> (gen_fault + walk) option" where
  "visit_roots um comps n [] st = Some (Inr st)"
| "visit_roots um comps n (r # rs) st =
     (case visit um comps n r st of
        None \<Rightarrow> None
      | Some (Inl e) \<Rightarrow> Some (Inl e)
      | Some (Inr st') \<Rightarrow> visit_roots um comps n rs st')"

definition component :: "(string \<times> schema option) list \<Rightarrow> components" where
  "component schemas n = Option.bind (map_of schemas n) (\<lambda>s. s)"

definition collectSchemas ::
  "unmarshal \<Rightarrow> (string \<times> schema option) list \<Rightarrow> string list \<Rightarrow> (gen_fault + (string \<times> schema) list) option" where
  "collectSchemas um schemas roots =
     (case visit_roots um (component schemas) (length schemas + 1) roots ([], []) of
        None \<Rightarrow> None
      | Some (Inl e) \<Rightarrow> Some (Inl e)
      | Some (Inr (visited, out)) \<Rightarrow> Some (Inr out))"

section \<open>What is collected\<close>

text \<open>The components lowering \<open>name\<close> refers to, and what can be reached that way.\<close>

definition targets :: "unmarshal \<Rightarrow> components \<Rightarrow> string \<Rightarrow> string set" where
  "targets um comps name =
     (case comps name of
        None \<Rightarrow> {}
      | Some sc \<Rightarrow>
          if isMessageComponent sc
          then {r. \<exists>pn prop. (pn, Some prop) \<in> set (props_of sc) \<and> walk_target um prop = Some r}
          else {r. walk_target um sc = Some r})"

inductive pulls :: "unmarshal \<Rightarrow> components \<Rightarrow> string set \<Rightarrow> string \<Rightarrow> bool" for um comps roots where
  pulls_root: "r \<in> roots \<Longrightarrow> pulls um comps roots r"
| pulls_target: "pulls um comps roots n \<Longrightarrow> r \<in> targets um comps n \<Longrightarrow> pulls um comps roots r"

lemma pulls_trans: "pulls um comps (targets um comps n) r \<Longrightarrow> pulls um comps {n} r"
  by (induction rule: pulls.induct) (auto intro: pulls.intros)

lemma pulls_mono: "pulls um comps A r \<Longrightarrow> A \<subseteq> B \<Longrightarrow> pulls um comps B r"
  by (induction rule: pulls.induct) (auto intro: pulls.intros)

definition supported :: "unmarshal \<Rightarrow> schema \<Rightarrow> bool" where
  "supported um sc =
     (rejectUnsupported um (Some sc) = Inr () \<and>
      (isMessageComponent sc \<longrightarrow> list_all (\<lambda>(pn, prop). rejectUnsupported um prop = Inr ()) (props_of sc)))"

text \<open>One walk: it only adds components, each of them reachable from where it started, supported,
  with all its targets visited by the end, and recorded exactly when it becomes a message.\<close>

definition walked :: "unmarshal \<Rightarrow> components \<Rightarrow> string set \<Rightarrow> walk \<Rightarrow> walk \<Rightarrow> bool" where
  "walked um comps from st st' =
     (set (fst st) \<subseteq> set (fst st') \<and>
      (\<forall>n \<in> set (fst st') - set (fst st).
         pulls um comps from n \<and> targets um comps n \<subseteq> set (fst st') \<and>
         (\<exists>sc. comps n = Some sc \<and> supported um sc)) \<and>
      (\<forall>n. map_of (snd st') n =
         (if n \<in> set (fst st') - set (fst st) \<and> (\<exists>sc. comps n = Some sc \<and> isMessageComponent sc)
          then comps n else map_of (snd st) n)))"

lemma walked_refl [simp]: "walked um comps from st st"
  by (simp add: walked_def)

lemma walked_trans:
  assumes "walked um comps from st st'" "walked um comps from' st' st''" "from \<subseteq> R" "from' \<subseteq> R"
  shows "walked um comps R st st''"
proof -
  have sub: "set (fst st) \<subseteq> set (fst st')" "set (fst st') \<subseteq> set (fst st'')"
    using assms(1,2) by (simp_all add: walked_def)
  have "pulls um comps R n \<and> targets um comps n \<subseteq> set (fst st'') \<and> (\<exists>sc. comps n = Some sc \<and> supported um sc)"
    if "n \<in> set (fst st'') - set (fst st)" for n
  proof (cases "n \<in> set (fst st')")
    case True
    then have "n \<in> set (fst st') - set (fst st)" using that by simp
    then show ?thesis using assms(1,3) sub(2) pulls_mono unfolding walked_def by blast
  next
    case False
    then have "n \<in> set (fst st'') - set (fst st')" using that by simp
    then show ?thesis using assms(2,4) pulls_mono unfolding walked_def by blast
  qed
  moreover have "map_of (snd st'') n =
      (if n \<in> set (fst st'') - set (fst st) \<and> (\<exists>sc. comps n = Some sc \<and> isMessageComponent sc)
       then comps n else map_of (snd st) n)" for n
    using assms(1,2) sub unfolding walked_def by (cases "n \<in> set (fst st')") auto
  ultimately show ?thesis using sub unfolding walked_def by blast
qed

text \<open>A component whose targets were walked after it was marked, with what recording it adds.\<close>

lemma walked_component:
  assumes w: "walked um comps (targets um comps name) (name # visited, out') st'"
      "targets um comps name \<subseteq> set (fst st')"
    and sc: "comps name = Some sc" "supported um sc" and new: "name \<notin> set visited"
    and out: "out' = (if isMessageComponent sc then (name, sc) # out else out)"
  shows "walked um comps {name} (visited, out) st' \<and> name \<in> set (fst st')"
proof -
  have "pulls um comps {name} m" if "m \<in> set (fst st') - set visited" for m
    using w(1) that pulls_trans [of um comps name m]
    by (cases "m = name") (auto simp: walked_def intro: pulls_root)
  then show ?thesis using w sc out new unfolding walked_def by auto
qed

text \<open>The targets of a list of properties.\<close>

definition prop_targets :: "unmarshal \<Rightarrow> (string \<times> schema option) list \<Rightarrow> string set" where
  "prop_targets um props = {r. \<exists>pn prop. (pn, Some prop) \<in> set props \<and> walk_target um prop = Some r}"

lemma prop_targets_simps:
  "prop_targets um [] = {}"
  "prop_targets um ((pn, None) # props) = prop_targets um props"
  "prop_targets um ((pn, Some sc) # props) = set_option (walk_target um sc) \<union> prop_targets um props"
  by (auto simp: prop_targets_def)

lemma targets_cases:
  "comps name = Some sc \<Longrightarrow> targets um comps name =
     (if isMessageComponent sc then prop_targets um (props_of sc) else set_option (walk_target um sc))"
  by (auto simp: targets_def prop_targets_def)

lemma visit_walked:
  "visit um comps n name st = Some (Inr st') \<Longrightarrow>
     walked um comps {name} st st' \<and> name \<in> set (fst st')"
  "visit_props um comps n name props st = Some (Inr st') \<Longrightarrow>
     walked um comps (prop_targets um props) st st' \<and> prop_targets um props \<subseteq> set (fst st') \<and>
     list_all (\<lambda>(pn, prop). rejectUnsupported um prop = Inr ()) props"
proof (induction um comps n name st and um comps n name props st arbitrary: st' and st'
    rule: visit_visit_props.induct)
  case (2 um comps n name visited out)
  show ?case
  proof (cases "name \<in> set visited")
    case new: False
    then obtain sc where sc: "comps name = Some sc" "rejectUnsupported um (Some sc) = Inr ()"
      using "2.prems" by (auto simp: Let_def split: option.splits sum.splits)
    show ?thesis
    proof (cases "isMessageComponent sc")
      case False
      then have "walked um comps (targets um comps name) (name # visited, out) st' \<and>
          targets um comps name \<subseteq> set (fst st')"
        using "2.prems" "2.IH"(1) [OF new refl sc(1) sc(2)] new sc
        by (cases "walk_target um sc") (auto simp: targets_cases [of comps name sc, OF sc(1)])
      with False sc new show ?thesis by (intro walked_component) (auto simp: supported_def)
    next
      case True
      with "2.prems" "2.IH"(2) [OF new refl sc(1) sc(2)] new sc
      have "walked um comps (targets um comps name) (name # visited, (name, sc) # out) st'"
        "targets um comps name \<subseteq> set (fst st')"
        "list_all (\<lambda>(pn, prop). rejectUnsupported um prop = Inr ()) (props_of sc)"
        by (auto simp: targets_cases [of comps name sc, OF sc(1)])
      with True sc new show ?thesis by (intro walked_component) (auto simp: supported_def)
    qed
  qed (use "2.prems" in auto)
next
  case (4 um comps n name pn pr props st)
  from "4.prems" have ok: "rejectUnsupported um pr = Inr ()" by (auto split: sum.splits)
  then obtain sc where sc: "pr = Some sc" by (cases pr) (auto simp: rejectUnsupported_def)
  show ?case
  proof (cases "walk_target um sc")
    case None
    with "4.prems" "4.IH"(1) [OF ok, of st'] ok sc show ?thesis by (simp add: prop_targets_simps)
  next
    case (Some r)
    with "4.prems" ok sc obtain st1 where v: "visit um comps n r st = Some (Inr st1)"
      "visit_props um comps n name props st1 = Some (Inr st')"
      by (auto split: option.splits sum.splits)
    have w1: "walked um comps {r} st st1" "r \<in> set (fst st1)"
      using "4.IH"(2) [OF ok _ v(1)] Some sc by auto
    have w2: "walked um comps (prop_targets um props) st1 st'" "prop_targets um props \<subseteq> set (fst st')"
      "list_all (\<lambda>(pn, q). rejectUnsupported um q = Inr ()) props"
      using "4.IH"(3) [OF ok _ v(1) refl v(2)] Some sc by auto
    have "r \<in> set (fst st')" using w1(2) w2(1) by (auto simp: walked_def)
    then show ?thesis
      using walked_trans [OF w1(1) w2(1)] w2(2,3) ok by (auto simp: sc Some prop_targets_simps)
  qed
qed (simp_all add: prop_targets_simps)

text \<open>The fuel is enough: every level of the recursion has marked a component of its own.\<close>

lemma visit_fuel:
  assumes "finite {k. comps k \<noteq> None}"
  shows "card ({k. comps k \<noteq> None} - set (fst st)) < n \<Longrightarrow> visit um comps n name st \<noteq> None"
    and "card ({k. comps k \<noteq> None} - set (fst st)) < n \<Longrightarrow> visit_props um comps n name props st \<noteq> None"
  using assms
proof (induction um comps n name st and um comps n name props st rule: visit_visit_props.induct)
  case (1 um comps name st)
  then show ?case by simp
next
  case (2 um comps n name visited out)
  show ?case
  proof (cases "name \<in> set visited \<or> comps name = None")
    case True
    then show ?thesis by auto
  next
    case False
    let ?K = "{k. comps k \<noteq> None}"
    from False obtain sc where new: "name \<notin> set visited" "comps name = Some sc" by auto
    have "?K - set (name # visited) \<subset> ?K - set visited" using new by auto
    with "2.prems"(2) have "card (?K - set (name # visited)) < card (?K - set visited)"
      by (intro psubset_card_mono) auto
    with "2.prems"(1) have less: "card (?K - set (name # visited)) < n" by simp
    show ?thesis
      using "2.IH" [OF new(1) refl new(2)] less "2.prems"(2) new
      by (auto simp: Let_def split: sum.splits option.splits)
  qed
next
  case (3 um comps n name st)
  then show ?case by simp
next
  case (4 um comps n name pn pr props st)
  let ?K = "{k. comps k \<noteq> None}"
  show ?case
  proof (cases "rejectUnsupported um pr")
    case (Inl e)
    then show ?thesis by simp
  next
    case ok: (Inr u)
    show ?thesis
    proof (cases "walk_target um (the pr)")
      case None
      then show ?thesis using "4.IH"(1) [OF ok] "4.prems" ok by simp
    next
      case (Some r)
      have v: "visit um comps n r st \<noteq> None" using "4.IH"(2) [OF ok Some] "4.prems" by simp
      show ?thesis
      proof (cases "the (visit um comps n r st)")
        case (Inl e)
        then show ?thesis using v ok Some by auto
      next
        case (Inr st1)
        with v have v1: "visit um comps n r st = Some (Inr st1)" by auto
        have "set (fst st) \<subseteq> set (fst st1)" using visit_walked(1) [OF v1] by (simp add: walked_def)
        then have "card (?K - set (fst st1)) \<le> card (?K - set (fst st))"
          using "4.prems"(2) by (intro card_mono) auto
        then show ?thesis using "4.IH"(3) [OF ok Some v1 refl] "4.prems" v1 ok Some by simp
      qed
    qed
  qed
qed

lemma visit_roots_walked:
  "visit_roots um comps n roots st = Some (Inr st') \<Longrightarrow>
     walked um comps (set roots) st st' \<and> set roots \<subseteq> set (fst st')"
proof (induction um comps n roots st arbitrary: st' rule: visit_roots.induct)
  case (2 um comps n r rs st)
  from "2.prems" obtain st1 where v: "visit um comps n r st = Some (Inr st1)"
    "visit_roots um comps n rs st1 = Some (Inr st')"
    by (auto split: option.splits sum.splits)
  note w1 = visit_walked(1) [OF v(1)] and w2 = "2.IH" [OF v(1) refl v(2)]
  have "walked um comps (set (r # rs)) st st'"
    by (rule walked_trans [OF conjunct1 [OF w1] conjunct1 [OF w2]]) auto
  then show ?case using w1 w2 by (auto simp: walked_def)
qed simp

lemma visit_roots_fuel:
  assumes "finite {k. comps k \<noteq> None}" "card {k. comps k \<noteq> None} < n"
  shows "visit_roots um comps n roots st \<noteq> None"
proof (induction roots arbitrary: st)
  case (Cons r rs)
  have "card ({k. comps k \<noteq> None} - set (fst st)) < n"
    using assms card_mono [OF assms(1), of "{k. comps k \<noteq> None} - set (fst st)"] by auto
  then have "visit um comps n r st \<noteq> None" by (rule visit_fuel(1) [OF assms(1)])
  then show ?case using Cons by (auto split: sum.splits)
qed simp

lemma component_finite:
  "finite {k. component schemas k \<noteq> None}" "card {k. component schemas k \<noteq> None} < length schemas + 1"
proof -
  have sub: "{k. component schemas k \<noteq> None} \<subseteq> fst ` set schemas"
    by (auto simp: component_def bind_eq_Some_conv dest: map_of_SomeD intro: rev_image_eqI)
  then show "finite {k. component schemas k \<noteq> None}" by (rule finite_subset) simp
  have "card {k. component schemas k \<noteq> None} \<le> card (set (map fst schemas))"
    using sub by (intro card_mono) auto
  then show "card {k. component schemas k \<noteq> None} < length schemas + 1"
    using card_length [of "map fst schemas"] by simp
qed

text \<open>C29. Collecting the schemas of a document always ends, whatever cycles the references form, and
  on success holds exactly the object components that can be reached from the roots; everything
  reachable is defined and supported.\<close>

theorem collectSchemas_exact:
  "\<exists>r. collectSchemas um schemas roots = Some r \<and>
     (case r of
        Inl e \<Rightarrow> True
      | Inr out \<Rightarrow>
          (\<forall>n. map_of out n =
             (if pulls um (component schemas) (set roots) n \<and>
                 (\<exists>sc. component schemas n = Some sc \<and> isMessageComponent sc)
              then component schemas n else None)) \<and>
          (\<forall>n. pulls um (component schemas) (set roots) n \<longrightarrow>
             (\<exists>sc. component schemas n = Some sc \<and> supported um sc)))"
proof -
  let ?comps = "component schemas"
  obtain r where r: "visit_roots um ?comps (length schemas + 1) roots ([], []) = Some r"
    using visit_roots_fuel [OF component_finite] by blast
  then have c: "collectSchemas um schemas roots =
      (case r of Inl e \<Rightarrow> Some (Inl e) | Inr (visited, out) \<Rightarrow> Some (Inr out))"
    unfolding collectSchemas_def by (simp only: option.case)
  show ?thesis
  proof (cases r)
    case (Inl e)
    then show ?thesis by (simp add: c)
  next
    case (Inr st)
    obtain visited out where st: "st = (visited, out)" by (cases st)
    from visit_roots_walked [of um ?comps "length schemas + 1" roots "([], [])" st] r Inr
    have w: "walked um ?comps (set roots) ([], []) (visited, out)" "set roots \<subseteq> set visited"
      by (simp_all add: st)
    have sub: "n \<in> set visited" if "pulls um ?comps (set roots) n" for n
      using that
    proof (induction rule: pulls.induct)
      case (pulls_target n r)
      then show ?case using w(1) by (auto simp: walked_def)
    qed (use w(2) in blast)
    have "n \<in> set visited \<longleftrightarrow> pulls um ?comps (set roots) n" for n
      using sub w(1) by (auto simp: walked_def)
    with w(1) have "map_of out n = (if pulls um ?comps (set roots) n \<and>
        (\<exists>sc. ?comps n = Some sc \<and> isMessageComponent sc) then ?comps n else None)"
      "pulls um ?comps (set roots) n \<longrightarrow> (\<exists>sc. ?comps n = Some sc \<and> supported um sc)" for n
      by (auto simp: walked_def split: if_splits)
    then show ?thesis by (intro exI [of _ "Inr out"]) (simp add: c Inr st)
  qed
qed

text \<open>Two objects that refer to each other, one of them through an array.\<close>

definition object_of :: "string \<Rightarrow> schema \<Rightarrow> schema" where
  "object_of key sc = Schema '''' ''object'' '''' False (Some [(key, Some sc)]) None [] [] [] None None"

definition array_of :: "schema \<Rightarrow> schema" where
  "array_of sc = Schema '''' ''array'' '''' False None (Some sc) [] [] [] None None"

definition tree_schemas :: "(string \<times> schema option) list" where
  "tree_schemas =
     [(''Node'', Some (object_of ''children'' (array_of (ref_schema ''#/components/schemas/Leaf'')))),
      (''Leaf'', Some (object_of ''parent'' (ref_schema ''#/components/schemas/Node''))),
      (''Other'', Some (typed_schema ''string''))]"

lemma tree_pulls: "pulls (\<lambda>text. None) (component tree_schemas) {''Node''} ''Leaf''"
proof (rule pulls_target [where n = "''Node''"])
  show "pulls (\<lambda>text. None) (component tree_schemas) {''Node''} ''Node''"
    by (rule pulls_root) simp
  have "component tree_schemas ''Node'' = Some (object_of ''children'' (array_of (ref_schema ''#/components/schemas/Leaf'')))"
    "isMessageComponent (object_of ''children'' (array_of (ref_schema ''#/components/schemas/Leaf'')))"
    "walk_target (\<lambda>text. None) (array_of (ref_schema ''#/components/schemas/Leaf'')) = Some ''Leaf''"
    by code_simp+
  then show "''Leaf'' \<in> targets (\<lambda>text. None) (component tree_schemas) ''Node''"
    by (simp add: targets_def) (simp add: object_of_def props_of_def)
qed

lemma collectSchemas_exact_witness:
  "\<exists>out. collectSchemas (\<lambda>text. None) tree_schemas [''Node''] = Some (Inr out) \<and>
     map_of out ''Leaf'' = component tree_schemas ''Leaf'' \<and> map_of out ''Other'' = None"
proof -
  let ?um = "\<lambda>text. None :: schema option"
  have ok: "case collectSchemas ?um tree_schemas [''Node''] of Some (Inr out) \<Rightarrow> True | _ \<Rightarrow> False"
    by code_simp
  then obtain out where out: "collectSchemas ?um tree_schemas [''Node''] = Some (Inr out)"
    by (metis (no_types, lifting) not_None_eq option.case sum.case(1) old.sum.exhaust)
  have m: "map_of out n =
       (if pulls ?um (component tree_schemas) {''Node''} n \<and>
           (\<exists>sc. component tree_schemas n = Some sc \<and> isMessageComponent sc)
        then component tree_schemas n else None)" for n
    using collectSchemas_exact [of ?um tree_schemas "[''Node'']"] by (simp add: out)
  have "component tree_schemas ''Leaf'' = Some (object_of ''parent'' (ref_schema ''#/components/schemas/Node''))"
    "isMessageComponent (object_of ''parent'' (ref_schema ''#/components/schemas/Node''))"
    "component tree_schemas ''Other'' = Some (typed_schema ''string'')"
    "\<not> isMessageComponent (typed_schema ''string'')"
    by code_simp+
  then have "map_of out ''Leaf'' = component tree_schemas ''Leaf''" "map_of out ''Other'' = None"
    using tree_pulls by (simp_all add: m)
  then show ?thesis using out by blast
qed

end
