(* ===== verification/Gen_Fields.thy ===== *)
theory Gen_Fields
  imports Gen_Schema
begin

text \<open>
  Lowering schemas to proto3 descriptors (\<open>buildMessage\<close>, \<open>buildField\<close>, \<open>buildMapField\<close>,
  \<open>buildDescriptors\<close> of \<open>internal/bundlegen/bundlegen.go\<close>).  The messages of \<open>descriptorpb\<close> are
  records with the fields the generator sets.
\<close>

section \<open>Descriptors\<close>

datatype field_type = TString | TBool | TInt32 | TInt64 | TFloat | TDouble | TMessage
datatype field_label = LOptional | LRepeated

record field_desc =
  fd_name :: string
  fd_number :: int
  fd_label :: field_label
  fd_type :: "field_type option"
  fd_type_name :: string
  fd_json_name :: string
  fd_oneof :: "nat option"
  fd_proto3_optional :: bool

datatype message_desc = Message
  (md_name: string)
  (md_fields: "field_desc list")
  (md_nested: "message_desc list")
  (md_oneofs: "string list")
  (md_map_entry: bool)

text \<open>What a call of \<open>buildField\<close> is given besides the schema, and the document's context.\<close>

record field_args =
  fa_message :: string
  fa_key :: string
  fa_name :: string
  fa_number :: int

record gen_context =
  cx_unmarshal :: unmarshal
  cx_package :: string
  cx_names :: "string \<Rightarrow> string"
  cx_components :: components

type_synonym built = "gen_fault + field_desc \<times> bool \<times> message_desc option"

definition plain_field :: "string \<Rightarrow> int \<Rightarrow> field_label \<Rightarrow> field_type option \<Rightarrow> string \<Rightarrow> string \<Rightarrow> field_desc" where
  "plain_field name num lbl t tname json =
     \<lparr>fd_name = name, fd_number = num, fd_label = lbl, fd_type = t, fd_type_name = tname,
      fd_json_name = json, fd_oneof = None, fd_proto3_optional = False\<rparr>"

definition message_ref :: "gen_context \<Rightarrow> string \<Rightarrow> string" where
  "message_ref cx ref = ''.'' @ cx_package cx @ ''.'' @ cx_names cx (refName ref)"

text \<open>A \<open>$ref\<close> to a component that is no message is replaced by the component.\<close>

definition inline_target :: "gen_context \<Rightarrow> schema \<Rightarrow> schema option" where
  "inline_target cx sc =
     (if s_ref sc = '''' then None
      else (case cx_components cx (refName (s_ref sc)) of
              None \<Rightarrow> None
            | Some t \<Rightarrow> if isMessageComponent t then None else Some t))"

definition scalar_field_type :: "schema \<Rightarrow> field_type option" where
  "scalar_field_type sc =
     (if s_type sc = ''string'' then Some TString
      else if s_type sc = ''boolean'' then Some TBool
      else if s_type sc = ''integer'' then Some (if s_format sc = ''int64'' then TInt64 else TInt32)
      else if s_type sc = ''number'' then Some (if s_format sc = ''float'' then TFloat else TDouble)
      else None)"

definition item_field_type :: "schema \<Rightarrow> field_type option" where
  "item_field_type sc =
     (if s_type sc = ''string'' then Some TString
      else if s_type sc = ''boolean'' then Some TBool
      else if s_type sc = ''integer'' then Some TInt64
      else if s_type sc = ''number'' then Some TDouble
      else None)"

section \<open>Map fields\<close>

definition buildMapField :: "gen_context \<Rightarrow> field_args \<Rightarrow> schema \<Rightarrow> built" where
  "buildMapField cx a val =
     (let val = (case inline_target cx val of Some t \<Rightarrow> t | None \<Rightarrow> val);
          valueField =
            (if s_ref val \<noteq> '''' then
               Inr (plain_field ''value'' 2 LOptional (Some TMessage) (message_ref cx (s_ref val)) ''value'')
             else
               (case scalar_field_type val of
                  Some t \<Rightarrow> Inr (plain_field ''value'' 2 LOptional (Some t) '''' ''value'')
                | None \<Rightarrow> Inl (GenError (''map value type '' @ go_quote (s_type val) @ '' is unsupported''))))
      in
        sbind valueField (\<lambda>v.
          let entryName = mapEntryName (fa_name a) in
            Inr (plain_field (fa_name a) (fa_number a) LRepeated (Some TMessage)
                   (''.'' @ cx_package cx @ ''.'' @ fa_message a @ ''.'' @ entryName) (fa_key a),
                 False,
                 Some (Message entryName [plain_field ''key'' 1 LOptional (Some TString) '''' ''key'', v] [] [] True))))"

section \<open>Fields\<close>

text \<open>The branches of \<open>buildField\<close> that end without another call of it.\<close>

definition array_field :: "gen_context \<Rightarrow> field_args \<Rightarrow> schema \<Rightarrow> built" where
  "array_field cx a sc =
     (case s_items sc of
        None \<Rightarrow> Inl (GenError ''array without items'')
      | Some item \<Rightarrow>
          let item = (case inline_target cx item of Some t \<Rightarrow> t | None \<Rightarrow> item);
              field = (\<lambda>t tname. Inr (plain_field (fa_name a) (fa_number a) LRepeated (Some t) tname (fa_key a), False, None))
          in
            if wktMessageName (cx_unmarshal cx) item \<noteq> '''' then
              field TMessage (''.'' @ wktMessageName (cx_unmarshal cx) item)
            else if s_ref item \<noteq> '''' then field TMessage (message_ref cx (s_ref item))
            else
              (case item_field_type item of
                 Some t \<Rightarrow> field t ''''
               | None \<Rightarrow> Inl (GenError (''array item type '' @ go_quote (s_type item) @ '' is unsupported''))))"

definition typed_field :: "gen_context \<Rightarrow> field_args \<Rightarrow> schema \<Rightarrow> built" where
  "typed_field cx a sc =
     (case scalar_field_type sc of
        Some t \<Rightarrow>
          Inr (plain_field (fa_name a) (fa_number a) LOptional (Some t) '''' (fa_key a), s_nullable sc, None)
      | None \<Rightarrow>
          if s_type sc = ''array'' then array_field cx a sc
          else if s_type sc = ''object'' then
            (case mapValueSchema (cx_unmarshal cx) (s_additional sc) of
               Some v \<Rightarrow>
                 if props_of sc = [] then buildMapField cx a v
                 else Inl (GenError ''inline object properties are unsupported (use a $ref)'')
             | None \<Rightarrow> Inl (GenError ''inline object properties are unsupported (use a $ref)''))
          else if s_type sc = '''' then Inl (GenError ''property has no type and no $ref'')
          else Inl (GenError (''type '' @ go_quote (s_type sc) @ '' is unsupported'')))"

definition singular_message :: "field_args \<Rightarrow> string \<Rightarrow> built" where
  "singular_message a tname =
     Inr (plain_field (fa_name a) (fa_number a) LOptional (Some TMessage) tname (fa_key a), False, None)"

fun mark_optional :: "built \<Rightarrow> built" where
  "mark_optional (Inl e) = Inl e"
| "mark_optional (Inr (f, _, nested)) = Inr (f, True, nested)"

text \<open>\<open>buildField\<close> follows references to components that are no messages, and nothing stops it when
  they form a cycle: \<open>None\<close> is a call that does not return.\<close>

partial_function (option) buildField :: "gen_context \<Rightarrow> field_args \<Rightarrow> schema \<Rightarrow> built option" where
  "buildField cx a sc =
     (case nullableAnyOf sc of
        Some inner \<Rightarrow> Option.bind (buildField cx a inner) (\<lambda>r. Some (mark_optional r))
      | None \<Rightarrow>
          if wktMessageName (cx_unmarshal cx) sc \<noteq> '''' then
            Some (singular_message a (''.'' @ wktMessageName (cx_unmarshal cx) sc))
          else if s_ref sc \<noteq> '''' then
            (case inline_target cx sc of
               Some t \<Rightarrow> buildField cx a t
             | None \<Rightarrow> Some (singular_message a (message_ref cx (s_ref sc))))
          else Some (typed_field cx a sc))"

declare buildField.simps [code]

section \<open>Messages\<close>

text \<open>The loop of \<open>buildMessage\<close>: the properties in sorted order, the field numbers from 1, the names
  already used, and a synthetic oneof for each optional field.\<close>

fun build_fields ::
  "gen_context \<Rightarrow> string \<Rightarrow> (string \<times> schema option) list \<Rightarrow> int \<Rightarrow> string list \<Rightarrow>
   field_desc list \<Rightarrow> message_desc list \<Rightarrow> string list \<Rightarrow> (gen_fault + message_desc) option"
where
  "build_fields cx name [] num used fs ns os = Some (Inr (Message name fs ns os False))"
| "build_fields cx name ((pname, prop) # props) num used fs ns os =
     (case uniqueIdent pname used of (fname, used') \<Rightarrow>
        (case prop of
           None \<Rightarrow> Some (Inl nil_deref)
         | Some sc \<Rightarrow>
             (case buildField cx \<lparr>fa_message = name, fa_key = pname, fa_name = fname, fa_number = num\<rparr> sc of
                None \<Rightarrow> None
              | Some (Inl e) \<Rightarrow>
                  Some (Inl (wrap_fault (''message '' @ go_quote name @ '' field '' @ go_quote pname) e))
              | Some (Inr (f, optional, nested)) \<Rightarrow>
                  let f = (if optional then f\<lparr>fd_oneof := Some (length os), fd_proto3_optional := True\<rparr> else f);
                      os = (if optional then os @ [CHR ''_'' # fname] else os);
                      ns = (case nested of None \<Rightarrow> ns | Some m \<Rightarrow> ns @ [m])
                  in build_fields cx name props (num + 1) used' (fs @ [f]) ns os)))"

definition buildMessage :: "gen_context \<Rightarrow> string \<Rightarrow> schema \<Rightarrow> (gen_fault + message_desc) option" where
  "buildMessage cx name sc = build_fields cx name (sort_key fst (props_of sc)) 1 [] [] [] []"

fun descriptorUsesStructProto :: "message_desc \<Rightarrow> bool" where
  "descriptorUsesStructProto (Message name fs ns os me) =
     (list_ex (\<lambda>f. fd_type_name f = ''.'' @ structFullName \<or> fd_type_name f = ''.'' @ valueFullName) fs \<or>
      list_ex descriptorUsesStructProto ns)"

definition messagesUseStructProto :: "message_desc list \<Rightarrow> bool" where
  "messagesUseStructProto msgs = list_ex descriptorUsesStructProto msgs"

definition emptyMessageName :: string where "emptyMessageName = ''Empty''"

definition partitionEmpty :: "string list \<Rightarrow> string list \<times> bool" where
  "partitionEmpty roots =
     (filter (\<lambda>r. r \<noteq> emptyMessageName) roots, emptyMessageName \<in> set roots)"

record file_desc =
  fdesc_name :: string
  fdesc_package :: string
  fdesc_dependency :: "string list"
  fdesc_messages :: "message_desc list"

text \<open>The set of files: whether \<open>google/protobuf/struct.proto\<close> is embedded ahead of the generated file.
  \<open>protodesc.NewFiles\<close> and the deterministic marshalling are parameters.\<close>

record proto_lib =
  pl_new_files :: "bool \<Rightarrow> file_desc \<Rightarrow> string option"       \<comment> \<open>its error\<close>
  pl_marshal :: "bool \<Rightarrow> file_desc \<Rightarrow> string + string"

fun build_messages :: "gen_context \<Rightarrow> (string \<times> schema) list \<Rightarrow> string list \<Rightarrow> (gen_fault + message_desc list) option" where
  "build_messages cx needed [] = Some (Inr [])"
| "build_messages cx needed (n # ns) =
     (case (case map_of needed n of
              None \<Rightarrow> Some (Inr (Message (cx_names cx n) [] [] [] False))
            | Some sc \<Rightarrow> buildMessage cx (cx_names cx n) sc) of
        None \<Rightarrow> None
      | Some (Inl e) \<Rightarrow> Some (Inl e)
      | Some (Inr m) \<Rightarrow>
          (case build_messages cx needed ns of
             None \<Rightarrow> None
           | Some (Inl e) \<Rightarrow> Some (Inl e)
           | Some (Inr ms) \<Rightarrow> Some (Inr (m # ms))))"

definition message_names :: "(string \<times> schema) list \<Rightarrow> bool \<Rightarrow> string list" where
  "message_names needed needEmpty =
     (let names = remdups (map fst needed) in
        sort (if needEmpty \<and> map_of needed emptyMessageName = None then names @ [emptyMessageName] else names))"

definition file_of :: "string \<Rightarrow> string \<Rightarrow> message_desc list \<Rightarrow> file_desc" where
  "file_of pkg version msgs =
     \<lparr>fdesc_name = ''wavefront/gen/'' @ sanitize version @ ''.proto'', fdesc_package = pkg,
      fdesc_dependency = (if messagesUseStructProto msgs then [''google/protobuf/struct.proto''] else []),
      fdesc_messages = msgs\<rparr>"

definition buildDescriptors ::
  "proto_lib \<Rightarrow> unmarshal \<Rightarrow> (string \<times> schema option) list \<Rightarrow> string list \<Rightarrow> string \<Rightarrow> string \<Rightarrow>
   (gen_fault + string \<times> (string \<Rightarrow> string)) option"
where
  "buildDescriptors lib um schemas roots pkg version =
     (case partitionEmpty roots of (realRoots, needEmpty) \<Rightarrow>
        (case collectSchemas um schemas realRoots of
           None \<Rightarrow> None
         | Some (Inl e) \<Rightarrow> Some (Inl e)
         | Some (Inr needed) \<Rightarrow>
             (case find (\<lambda>r. map_of needed r = None) realRoots of
                Some r \<Rightarrow> Some (Inl (GenError (''schema '' @ go_quote r @ '' must be an object with properties'')))
              | None \<Rightarrow>
                  let names = message_names needed needEmpty;
                      msgNames = name_of (sanitizeMessageNames names);
                      cx = \<lparr>cx_unmarshal = um, cx_package = pkg, cx_names = msgNames,
                            cx_components = component schemas\<rparr>
                  in
                    (case build_messages cx needed names of
                       None \<Rightarrow> None
                     | Some (Inl e) \<Rightarrow> Some (Inl e)
                     | Some (Inr msgs) \<Rightarrow>
                         let uses = messagesUseStructProto msgs; fdp = file_of pkg version msgs in
                           (case pl_new_files lib uses fdp of
                              Some err \<Rightarrow> Some (Inl (GenError (''generated descriptors are invalid: '' @ err)))
                            | None \<Rightarrow>
                                (case pl_marshal lib uses fdp of
                                   Inl err \<Rightarrow> Some (Inl (GenError (''marshal descriptors: '' @ err)))
                                 | Inr bytes \<Rightarrow> Some (Inr (bytes, msgNames))))))))"

end
