(* ===== verification/Gen_Openapi.thy ===== *)
theory Gen_Openapi
  imports Gen_Fields "HOL-Library.List_Lexorder" "HOL-Library.Char_ord"
begin

text \<open>
  The OpenAPI side of \<open>internal/bundlegen/bundlegen.go\<close>: reading the document, its operations in
  order, the component each side of an operation binds, and the text of \<open>versions.yaml\<close>.

  A Go map is an association list with distinct keys in the order the code happens to range over
  it.  JSON decoding, HTTP and the file system are the parameters in \<open>gen_env\<close>.
\<close>

section \<open>Documents\<close>

text \<open>A media type's schema under its content type; a nil content map ranges like an empty one.\<close>

type_synonym content = "(string \<times> schema option) list"

record operation =
  op_id :: string
  op_request :: "content option"
  op_responses :: "(string \<times> content) list"

record openapi =
  oa_version :: string
  oa_paths :: "(string \<times> (string \<times> string) list) list"   \<comment> \<open>the operations are raw JSON\<close>
  oa_schemas :: "(string \<times> schema option) list"

record gen_env =
  env_get :: "string \<Rightarrow> string + (int \<times> (string + string))"      \<comment> \<open>status and body of an HTTP GET\<close>
  env_read :: "string \<Rightarrow> string + string"                       \<comment> \<open>\<open>os.ReadFile\<close>\<close>
  env_document :: "string \<Rightarrow> string + openapi"                  \<comment> \<open>\<open>json.Unmarshal\<close>\<close>
  env_operation :: "string \<Rightarrow> string + operation"
  env_schema :: unmarshal
  env_proto :: proto_lib

definition maxOpenAPIBytes :: nat where "maxOpenAPIBytes = 33554432"

definition readOpenAPI :: "gen_env \<Rightarrow> string \<Rightarrow> string + string" where
  "readOpenAPI env src =
     (if prefix ''http://'' src \<or> prefix ''https://'' src then
        (case env_get env src of
           Inl err \<Rightarrow> Inl (''fetch '' @ src @ '': '' @ err)
         | Inr (status, body) \<Rightarrow>
             if status < 200 \<or> 300 \<le> status then Inl (''fetch '' @ src @ '': status '' @ itoa status)
             else (case body of Inl err \<Rightarrow> Inl err | Inr bytes \<Rightarrow> Inr (take maxOpenAPIBytes bytes)))
      else env_read env src)"

definition loadAndPrevalidate :: "gen_env \<Rightarrow> string \<Rightarrow> gen_fault + string \<times> openapi \<times> string" where
  "loadAndPrevalidate env src =
     (case readOpenAPI env src of
        Inl err \<Rightarrow> Inl (GenError (''read openapi: '' @ err))
      | Inr raw \<Rightarrow>
          (case env_document env raw of
             Inl err \<Rightarrow> Inl (GenError (''parse openapi: '' @ err))
           | Inr doc \<Rightarrow>
               let version = trim_space (oa_version doc) in
                 if version = '''' then
                   Inl (GenError ''openapi info.version is required (it is the contract version)'')
                 else if \<not> safeLayerName version then
                   Inl (GenError (''contract version '' @ go_quote version @ '' is not a usable directory name''))
                 else Inr (raw, doc, version)))"

section \<open>Operations\<close>

definition httpMethods :: "string list" where
  "httpMethods = [''get'', ''post'', ''put'', ''patch'', ''delete'', ''head'', ''options'']"

text \<open>Operations are sorted by route and then method.\<close>

datatype op_key = OpKey (key_route: string) (key_method: string)

instantiation op_key :: linorder
begin

definition less_eq_op_key :: "op_key \<Rightarrow> op_key \<Rightarrow> bool" where
  "less_eq_op_key a b =
     (key_route a < key_route b \<or> key_route a = key_route b \<and> key_method a \<le> key_method b)"

definition less_op_key :: "op_key \<Rightarrow> op_key \<Rightarrow> bool" where
  "less_op_key a b =
     (key_route a < key_route b \<or> key_route a = key_route b \<and> key_method a < key_method b)"

instance
  by standard (auto simp: less_eq_op_key_def less_op_key_def intro: op_key.expand)

end

record found_operation =
  fo_key :: op_key
  fo_op :: operation

abbreviation fo_route :: "found_operation \<Rightarrow> string" where "fo_route f \<equiv> key_route (fo_key f)"
abbreviation fo_method :: "found_operation \<Rightarrow> string" where "fo_method f \<equiv> key_method (fo_key f)"

definition add_operation ::
  "gen_env \<Rightarrow> string \<Rightarrow> found_operation list \<Rightarrow> string \<times> string \<Rightarrow> gen_fault + found_operation list" where
  "add_operation env p ops entry =
     (case entry of (m, raw) \<Rightarrow>
        if to_lower m \<notin> set httpMethods then Inr ops
        else
          (case env_operation env raw of
             Inl err \<Rightarrow> Inl (GenError (''parse operation '' @ m @ '' '' @ p @ '': '' @ err))
           | Inr o1 \<Rightarrow> Inr (ops @ [\<lparr>fo_key = OpKey p (to_lower m), fo_op = o1\<rparr>])))"

definition allOperations :: "gen_env \<Rightarrow> openapi \<Rightarrow> gen_fault + found_operation list" where
  "allOperations env doc =
     sbind (sfold (\<lambda>ops (p, item). sfold (add_operation env p) ops item) [] (oa_paths doc))
       (\<lambda>ops. Inr (sort_key fo_key ops))"

section \<open>The schemas an operation binds\<close>

definition success_code :: "string \<Rightarrow> int option" where
  "success_code code =
     (case atoi code of
        None \<Rightarrow> None
      | Some status \<Rightarrow> if status < 200 \<or> 299 < status then None else Some status)"

text \<open>The loop keeps the lowest 2xx and looks its decimal form up again.\<close>

definition best_status :: "(string \<times> content) list \<Rightarrow> int" where
  "best_status responses =
     fold (\<lambda>(code, _) best.
         case success_code code of
           None \<Rightarrow> best
         | Some status \<Rightarrow> if best = -1 \<or> status < best then status else best)
       responses (-1)"

definition successResponse :: "operation \<Rightarrow> content option" where
  "successResponse op1 =
     (let best = best_status (op_responses op1) in
        if best = -1 then None
        else Some (case map_of (op_responses op1) (itoa best) of None \<Rightarrow> [] | Some c \<Rightarrow> c))"

definition json_content :: "content \<Rightarrow> schema option" where
  "json_content mt = Option.bind (map_of mt ''application/json'') (\<lambda>s. s)"

definition bound_schema :: "content \<Rightarrow> gen_fault + string" where
  "bound_schema mt =
     (case json_content mt of
        None \<Rightarrow> Inl (GenError ''operation has no application/json schema'')
      | Some sc \<Rightarrow>
          if isEmptySchema sc then Inr emptyMessageName
          else if s_ref sc = '''' then
            Inl (GenError ''request/response schema must be a $ref to #/components/schemas (inline schemas are unsupported)'')
          else Inr (refName (s_ref sc)))"

definition refSchemaName :: "operation \<Rightarrow> bool \<Rightarrow> gen_fault + string" where
  "refSchemaName op1 request =
     (if request then
        (case op_request op1 of
           None \<Rightarrow> Inr emptyMessageName
         | Some mt \<Rightarrow> bound_schema mt)
      else
        (case successResponse op1 of
           None \<Rightarrow> Inr emptyMessageName
         | Some mt \<Rightarrow> if mt = [] then Inr emptyMessageName else bound_schema mt))"

text \<open>A status whose body is declared as an error.\<close>

definition error_code :: "string \<Rightarrow> bool" where
  "error_code code =
     (case atoi code of
        None \<Rightarrow> False
      | Some status \<Rightarrow> \<not> (200 \<le> status \<and> status \<le> 299) \<and> \<not> IsCapabilityCeiling status)"

definition error_schema :: "string \<Rightarrow> content \<Rightarrow> gen_fault + string" where
  "error_schema code mt =
     (case json_content mt of
        None \<Rightarrow> Inr emptyMessageName
      | Some sc \<Rightarrow>
          if isEmptySchema sc then Inr emptyMessageName
          else if s_ref sc = '''' then
            Inl (GenError (''response '' @ code @
                   '' schema must be a $ref to #/components/schemas (inline schemas are unsupported)''))
          else Inr (refName (s_ref sc)))"

fun errorSchemaNames :: "(string \<times> content) list \<Rightarrow> gen_fault + (string \<times> string) list" where
  "errorSchemaNames [] = Inr []"
| "errorSchemaNames ((code, mt) # responses) =
     (if \<not> error_code code then errorSchemaNames responses
      else
        sbind (error_schema code mt) (\<lambda>name.
        sbind (errorSchemaNames responses) (\<lambda>out. Inr ((code, name) # out))))"

section \<open>versions.yaml\<close>

record contract_entry =
  ce_route :: string
  ce_method :: string
  ce_request :: string
  ce_response :: string
  ce_errors :: "(string \<times> string) list"

text \<open>The error of \<open>strconv.Atoi\<close> is dropped; the codes are numbers.\<close>

definition code_number :: "string \<Rightarrow> int" where
  "code_number code = (case atoi code of None \<Rightarrow> 0 | Some n \<Rightarrow> n)"

abbreviation newline :: string where "newline \<equiv> [CHR 0x0A]"

definition render_errors :: "(string \<times> string) list \<Rightarrow> string" where
  "render_errors errs =
     (if errs = [] then ''''
      else ''    error_messages:'' @ newline @
        concat (map (\<lambda>(code, m). ''      '' @ go_quote code @ '': '' @ m @ newline)
          (sort_key (\<lambda>e. code_number (fst e)) errs)))"

definition render_entry :: "string \<Rightarrow> contract_entry \<Rightarrow> string" where
  "render_entry version e =
     ''  - contract_version: '' @ go_quote version @ newline @
     ''    route: '' @ ce_route e @ newline @
     ''    method: '' @ ce_method e @ newline @
     ''    request_message: '' @ ce_request e @ newline @
     ''    response_message: '' @ ce_response e @ newline @
     render_errors (ce_errors e)"

definition renderVersionsYAML :: "string \<Rightarrow> contract_entry list \<Rightarrow> string" where
  "renderVersionsYAML version entries =
     ''version: 1'' @ newline @ ''contracts:'' @ newline @ concat (map (render_entry version) entries)"

section \<open>From a document to the files of a layer\<close>

record raw_binding =
  rb_route :: string
  rb_method :: string
  rb_request :: string
  rb_response :: string
  rb_errors :: "(string \<times> string) list"

definition bind_operation :: "found_operation \<Rightarrow> gen_fault + raw_binding" where
  "bind_operation f =
     (let where_text = to_upper (fo_method f) @ '' '' @ fo_route f in
        sbind (wrap_err where_text (refSchemaName (fo_op f) True)) (\<lambda>req.
        sbind (wrap_err where_text (refSchemaName (fo_op f) False)) (\<lambda>resp.
        sbind (wrap_err where_text (errorSchemaNames (op_responses (fo_op f)))) (\<lambda>errs.
          Inr \<lparr>rb_route = fo_route f, rb_method = to_upper (fo_method f), rb_request = req,
               rb_response = resp, rb_errors = errs\<rparr>))))"

definition binding_roots :: "raw_binding \<Rightarrow> string list" where
  "binding_roots r = [rb_request r, rb_response r] @ map snd (rb_errors r)"

definition entry_of_binding :: "string \<Rightarrow> (string \<Rightarrow> string) \<Rightarrow> raw_binding \<Rightarrow> contract_entry" where
  "entry_of_binding pkg names r =
     \<lparr>ce_route = rb_route r, ce_method = rb_method r,
      ce_request = pkg @ ''.'' @ names (rb_request r),
      ce_response = pkg @ ''.'' @ names (rb_response r),
      ce_errors = map (\<lambda>(code, n). (code, pkg @ ''.'' @ names n)) (rb_errors r)\<rparr>"

text \<open>The three files \<open>Add\<close> hands to \<open>writeLayer\<close>, with the version; \<open>None\<close> when lowering does not
  return.\<close>

record layer_files =
  lf_version :: string
  lf_descriptors :: string
  lf_openapi :: string
  lf_versions :: string

definition generate :: "gen_env \<Rightarrow> string \<Rightarrow> (gen_fault + layer_files) option" where
  "generate env src =
     (case loadAndPrevalidate env src of
        Inl e \<Rightarrow> Some (Inl e)
      | Inr (raw, doc, version) \<Rightarrow>
          (case allOperations env doc of
             Inl e \<Rightarrow> Some (Inl e)
           | Inr ops \<Rightarrow>
               if ops = [] then
                 Some (Inl (GenError ''openapi has no operations; a bundle layer must contain at least one contract''))
               else
                 (case smap bind_operation ops of
                    Inl e \<Rightarrow> Some (Inl e)
                  | Inr raws \<Rightarrow>
                      let pkg = protoPackage version in
                        (case buildDescriptors (env_proto env) (env_schema env) (oa_schemas doc)
                                (concat (map binding_roots raws)) pkg version of
                           None \<Rightarrow> None
                         | Some (Inl e) \<Rightarrow> Some (Inl e)
                         | Some (Inr (desc, names)) \<Rightarrow>
                             Some (Inr \<lparr>lf_version = version, lf_descriptors = desc, lf_openapi = raw,
                               lf_versions = renderVersionsYAML version (map (entry_of_binding pkg names) raws)\<rparr>)))))"

end
