(* ===== verification/Drift.thy ===== *)
theory Drift
  imports Gen_Openapi
begin

text \<open>
  Drafting a transform shim from two versions of a contract: \<open>internal/bundlegen/drift.go\<close>.

  A field map is an association list with distinct keys.  \<open>strings.ToLower\<close> is exact on ASCII
  names.  The values a drafted default can hold are the zero values the code constructs.
\<close>

section \<open>Proposals\<close>

datatype confidence = Confident | Ambiguous

datatype any_value = AnyString string | AnyBool bool | AnyInt int | AnyZeroFloat | AnyNil | AnyEmptySlice | AnyEmptyMap

datatype stanza_args =
    RenameArgs string string
  | DefaultArgs string any_value
  | OptionalizeArgs string
  | CoerceArgs string string

datatype signal = Signal (sig_kind: string) (sig_value: string)

definition signal_text :: "signal \<Rightarrow> string" where
  "signal_text s = (if sig_value s = '''' then sig_kind s else sig_kind s @ '':'' @ sig_value s)"

definition PureAddSignal :: signal where "PureAddSignal = Signal ''pure-add'' ''''"
definition TypeChangeSignal :: signal where "TypeChangeSignal = Signal ''type-change'' ''''"
definition FromTypeSignal :: "string \<Rightarrow> signal" where "FromTypeSignal t = Signal ''from'' t"
definition ToTypeSignal :: "string \<Rightarrow> signal" where "ToTypeSignal t = Signal ''to'' t"
definition CaseRenameSignal :: signal where "CaseRenameSignal = Signal ''case-rename'' ''''"
definition SameTypeSignal :: "string \<Rightarrow> signal" where "SameTypeSignal t = Signal ''same-type'' t"
definition NoNameSignal :: signal where "NoNameSignal = Signal ''no-name-signal'' ''''"

record stanza_proposal =
  st_verb :: string
  st_args :: stanza_args
  st_confidence :: confidence
  st_signals :: "signal list"

record candidate_pair =
  cp_from :: string
  cp_to :: string
  cp_type :: string
  cp_signals :: "signal list"

record shim_proposal =
  sp_from_version :: string
  sp_to_version :: string
  sp_request :: "stanza_proposal list"
  sp_request_candidates :: "candidate_pair list"
  sp_response :: "stanza_proposal list"
  sp_response_candidates :: "candidate_pair list"
  sp_notes :: "string list"

section \<open>Fields\<close>

type_synonym field_map = "(string \<times> schema option) list"

definition topLevelProperties :: "schema option \<Rightarrow> field_map" where
  "topLevelProperties s = (case s of None \<Rightarrow> [] | Some sc \<Rightarrow> props_of sc)"

definition sortedKeys :: "field_map \<Rightarrow> string list" where
  "sortedKeys m = sort (map fst m)"

definition primitiveType :: "schema option \<Rightarrow> string" where
  "primitiveType s =
     (case s of
        None \<Rightarrow> ''''
      | Some sc \<Rightarrow>
          if s_ref sc \<noteq> '''' then ''''
          else if s_type sc = ''string'' \<or> s_type sc = ''boolean'' then s_type sc
          else if s_type sc = ''integer'' then (if s_format sc = ''int64'' then ''int64'' else ''int32'')
          else if s_type sc = ''number'' then (if s_format sc = ''float'' then ''float'' else ''double'')
          else '''')"

definition field_type_of :: "field_map \<Rightarrow> string \<Rightarrow> string" where
  "field_type_of m n = primitiveType (component m n)"

definition normalizeFieldName :: "string \<Rightarrow> string" where
  "normalizeFieldName s = filter (\<lambda>c. c \<noteq> CHR ''-'') (filter (\<lambda>c. c \<noteq> CHR ''_'') (to_lower s))"

definition zeroForSchema :: "schema option \<Rightarrow> any_value" where
  "zeroForSchema s =
     (case s of
        None \<Rightarrow> AnyString ''''
      | Some sc \<Rightarrow>
          if s_type sc = ''string'' then AnyString ''''
          else if s_type sc = ''boolean'' then AnyBool False
          else if s_type sc = ''integer'' \<or> s_type sc = ''number'' then AnyInt 0
          else if s_type sc = ''array'' then AnyEmptySlice
          else if s_type sc = ''object'' then AnyEmptyMap
          else AnyString '''')"

definition zeroForType :: "string \<Rightarrow> any_value" where
  "zeroForType t =
     (if t = ''string'' then AnyString ''''
      else if t = ''boolean'' then AnyBool False
      else if t = ''int32'' \<or> t = ''int64'' then AnyInt 0
      else if t = ''float'' \<or> t = ''double'' then AnyZeroFloat
      else AnyString '''')"

section \<open>Pairing removed and added fields\<close>

text \<open>The loop both matchers share.  \<open>skip\<close> is the early \<open>continue\<close> of a removed field, \<open>match\<close> the
  tests on an addition that is not used yet.  The empty string stands for no match, so an addition of
  that name never pairs.\<close>

fun pair_loop ::
  "(string \<Rightarrow> bool) \<Rightarrow> (string \<Rightarrow> string \<Rightarrow> bool) \<Rightarrow> string list \<Rightarrow> string list \<Rightarrow> string list \<Rightarrow>
   (string \<times> string) list \<times> string list \<times> string list"
where
  "pair_loop skip match added [] used = ([], [], used)"
| "pair_loop skip match added (r # removed) used =
     (let matched =
        (if skip r then ''''
         else (case find (\<lambda>a. a \<notin> set used \<and> match r a) added of None \<Rightarrow> '''' | Some a \<Rightarrow> a))
      in
        if matched = '''' then
          (case pair_loop skip match added removed used of
             (pairs, unmatched, used') \<Rightarrow> (pairs, r # unmatched, used'))
        else
          (case pair_loop skip match added removed (matched # used) of
             (pairs, unmatched, used') \<Rightarrow> ((r, matched) # pairs, unmatched, used')))"

type_synonym pairing = "(string \<times> string) list \<times> string list \<times> string list"

definition pair_fields ::
  "(string \<Rightarrow> bool) \<Rightarrow> (string \<Rightarrow> string \<Rightarrow> bool) \<Rightarrow> string list \<Rightarrow> string list \<Rightarrow> pairing" where
  "pair_fields skip match removed added =
     (case pair_loop skip match added removed [] of
        (pairs, unmatchedRemoved, used) \<Rightarrow> (pairs, unmatchedRemoved, filter (\<lambda>a. a \<notin> set used) added))"

definition matchCaseRenames :: "field_map \<Rightarrow> field_map \<Rightarrow> string list \<Rightarrow> string list \<Rightarrow> pairing" where
  "matchCaseRenames fromSchemas toSchemas removed added =
     pair_fields
       (\<lambda>r. normalizeFieldName r = '''' \<or> field_type_of fromSchemas r = '''')
       (\<lambda>r a. normalizeFieldName a = normalizeFieldName r \<and> field_type_of toSchemas a \<noteq> '''' \<and>
              field_type_of toSchemas a = field_type_of fromSchemas r)
       removed added"

definition matchAmbiguousPairs :: "field_map \<Rightarrow> field_map \<Rightarrow> string list \<Rightarrow> string list \<Rightarrow> pairing" where
  "matchAmbiguousPairs fromSchemas toSchemas removed added =
     pair_fields
       (\<lambda>r. field_type_of fromSchemas r = '''')
       (\<lambda>r a. field_type_of toSchemas a \<noteq> '''' \<and> field_type_of toSchemas a = field_type_of fromSchemas r)
       removed added"

definition candidate :: "field_map \<Rightarrow> string \<times> string \<Rightarrow> candidate_pair" where
  "candidate fromSchemas p =
     (case p of (r, a) \<Rightarrow>
        \<lparr>cp_from = r, cp_to = a, cp_type = field_type_of fromSchemas r,
         cp_signals = [SameTypeSignal (field_type_of fromSchemas r), NoNameSignal]\<rparr>)"

section \<open>One direction\<close>

definition rename_stanza :: "field_map \<Rightarrow> string \<times> string \<Rightarrow> stanza_proposal" where
  "rename_stanza fromFields p =
     (case p of (r, a) \<Rightarrow>
        \<lparr>st_verb = ''rename'', st_args = RenameArgs r a, st_confidence = Confident,
         st_signals = [CaseRenameSignal, SameTypeSignal (field_type_of fromFields r)]\<rparr>)"

definition default_stanza :: "field_map \<Rightarrow> string \<Rightarrow> stanza_proposal" where
  "default_stanza toFields n =
     \<lparr>st_verb = ''default'', st_args = DefaultArgs n (zeroForSchema (component toFields n)),
      st_confidence = Confident, st_signals = [PureAddSignal]\<rparr>"

definition coerce_stanza :: "field_map \<Rightarrow> field_map \<Rightarrow> string \<Rightarrow> stanza_proposal" where
  "coerce_stanza fromFields toFields n =
     \<lparr>st_verb = ''coerce'', st_args = CoerceArgs n (field_type_of toFields n), st_confidence = Confident,
      st_signals = [TypeChangeSignal, FromTypeSignal (field_type_of fromFields n),
                    ToTypeSignal (field_type_of toFields n)]\<rparr>"

definition type_changes :: "field_map \<Rightarrow> field_map \<Rightarrow> string list" where
  "type_changes fromFields toFields =
     filter (\<lambda>n. n \<in> set (sortedKeys toFields) \<and> field_type_of fromFields n \<noteq> '''' \<and>
                 field_type_of toFields n \<noteq> '''' \<and> field_type_of fromFields n \<noteq> field_type_of toFields n)
       (sortedKeys fromFields)"

definition note_text :: "string \<Rightarrow> string \<Rightarrow> string" where
  "note_text side n =
     side @ '' field '' @ go_quote n @
     '' is present in the from shape but absent from the to shape; the transform verb set has no way to drop a known field, so the operator must reconcile this manually''"

definition removed_fields :: "field_map \<Rightarrow> field_map \<Rightarrow> string list" where
  "removed_fields fromFields toFields = filter (\<lambda>n. n \<notin> set (sortedKeys toFields)) (sortedKeys fromFields)"

definition first_pass :: "bool \<Rightarrow> field_map \<Rightarrow> field_map \<Rightarrow> string list \<Rightarrow> string list \<Rightarrow> pairing" where
  "first_pass strict_mode fromFields toFields removed added =
     (if strict_mode then ([], removed, added)
      else matchCaseRenames fromFields toFields removed added)"

definition draftDirection ::
  "schema option \<Rightarrow> schema option \<Rightarrow> string \<Rightarrow> bool \<Rightarrow>
   stanza_proposal list \<times> candidate_pair list \<times> string list" where
  "draftDirection from_schema to_schema side strict_mode =
     (let fromFields = topLevelProperties from_schema;
          toFields = topLevelProperties to_schema;
          removed = removed_fields fromFields toFields;
          added = removed_fields toFields fromFields
      in
        (case first_pass strict_mode fromFields toFields removed added of
           (renames, unmatchedRemoved, unmatchedAdded) \<Rightarrow>
             (case matchAmbiguousPairs fromFields toFields unmatchedRemoved unmatchedAdded of
                (pairs, unmatchedRemoved, unmatchedAdded) \<Rightarrow>
                  (map (rename_stanza fromFields) renames @
                   map (default_stanza toFields) unmatchedAdded @
                   map (coerce_stanza fromFields toFields) (type_changes fromFields toFields),
                   map (candidate fromFields) pairs,
                   map (note_text side) unmatchedRemoved))))"

section \<open>Two documents\<close>

definition resolveOperationSchema :: "(string \<times> schema) list \<Rightarrow> string \<Rightarrow> gen_fault + schema" where
  "resolveOperationSchema schemas name =
     (if name = emptyMessageName then
        Inr (Schema '''' ''object'' '''' False (Some []) None [] [] [] None None)
      else
        (case map_of schemas name of
           None \<Rightarrow> Inl (GenError (''schema '' @ go_quote name @ '' not found''))
         | Some s \<Rightarrow> Inr s))"

fun prefix_error :: "string \<Rightarrow> gen_fault + 'a \<Rightarrow> gen_fault + 'a" where
  "prefix_error t (Inl (GenError e)) = Inl (GenError (t @ e))"
| "prefix_error t r = r"

definition operationSchemas :: "gen_env \<Rightarrow> openapi \<Rightarrow> (gen_fault + schema \<times> schema) option" where
  "operationSchemas env doc =
     (case allOperations env doc of
        Inl e \<Rightarrow> Some (Inl e)
      | Inr ops \<Rightarrow>
          if length ops \<noteq> 1 then
            Some (Inl (GenError (''draft-shim requires an OpenAPI document with exactly one operation, found '' @
                         itoa (int (length ops)))))
          else
            (let op1 = fo_op (hd ops) in
               case wrap_err ''request'' (refSchemaName op1 True) of
                 Inl e \<Rightarrow> Some (Inl e)
               | Inr reqName \<Rightarrow>
                   (case wrap_err ''response'' (refSchemaName op1 False) of
                      Inl e \<Rightarrow> Some (Inl e)
                    | Inr respName \<Rightarrow>
                        (case collectSchemas (env_schema env) (oa_schemas doc) (fst (partitionEmpty [reqName, respName])) of
                           None \<Rightarrow> None
                         | Some (Inl e) \<Rightarrow> Some (Inl e)
                         | Some (Inr schemas) \<Rightarrow>
                             Some (sbind (prefix_error ''request '' (resolveOperationSchema schemas reqName)) (\<lambda>req.
                                   sbind (prefix_error ''response '' (resolveOperationSchema schemas respName)) (\<lambda>resp.
                                     Inr (req, resp))))))))"

definition parse_side :: "gen_env \<Rightarrow> string \<Rightarrow> string \<Rightarrow> gen_fault + openapi" where
  "parse_side env side raw =
     (case env_document env raw of
        Inl err \<Rightarrow> Inl (GenError (''parse '' @ side @ '': '' @ err))
      | Inr doc \<Rightarrow> Inr doc)"

definition propose :: "openapi \<Rightarrow> openapi \<Rightarrow> schema \<times> schema \<Rightarrow> schema \<times> schema \<Rightarrow> bool \<Rightarrow> shim_proposal" where
  "propose fromDoc toDoc fromPair toPair strict_mode =
     (case (fromPair, toPair) of ((fromReq, fromResp), (toReq, toResp)) \<Rightarrow>
        (case draftDirection (Some fromReq) (Some toReq) ''request'' strict_mode of (reqProps, reqCands, reqNotes) \<Rightarrow>
        (case draftDirection (Some toResp) (Some fromResp) ''response'' strict_mode of (respProps, respCands, respNotes) \<Rightarrow>
          \<lparr>sp_from_version = oa_version fromDoc, sp_to_version = oa_version toDoc,
           sp_request = reqProps, sp_request_candidates = reqCands,
           sp_response = respProps, sp_response_candidates = respCands,
           sp_notes = reqNotes @ respNotes\<rparr>)))"

definition draftShim :: "gen_env \<Rightarrow> string \<Rightarrow> string \<Rightarrow> bool \<Rightarrow> (gen_fault + shim_proposal) option" where
  "draftShim env fromOpenAPI toOpenAPI strict_mode =
     (case parse_side env ''from'' fromOpenAPI of
        Inl e \<Rightarrow> Some (Inl e)
      | Inr fromDoc \<Rightarrow>
          (case parse_side env ''to'' toOpenAPI of
             Inl e \<Rightarrow> Some (Inl e)
           | Inr toDoc \<Rightarrow>
               (case map_option (wrap_err ''resolve from schemas'') (operationSchemas env fromDoc) of
                  None \<Rightarrow> None
                | Some (Inl e) \<Rightarrow> Some (Inl e)
                | Some (Inr fromPair) \<Rightarrow>
                    (case map_option (wrap_err ''resolve to schemas'') (operationSchemas env toDoc) of
                       None \<Rightarrow> None
                     | Some (Inl e) \<Rightarrow> Some (Inl e)
                     | Some (Inr toPair) \<Rightarrow> Some (Inr (propose fromDoc toDoc fromPair toPair strict_mode))))))"

definition DraftShim :: "gen_env \<Rightarrow> string \<Rightarrow> string \<Rightarrow> (gen_fault + shim_proposal) option" where
  "DraftShim env fromOpenAPI toOpenAPI = draftShim env fromOpenAPI toOpenAPI False"

definition DraftShimStrict :: "gen_env \<Rightarrow> string \<Rightarrow> string \<Rightarrow> (gen_fault + shim_proposal) option" where
  "DraftShimStrict env fromOpenAPI toOpenAPI = draftShim env fromOpenAPI toOpenAPI True"

section \<open>Rendering\<close>

text \<open>A float64 zero prints as \<open>0\<close>, an empty slice as \<open>[]\<close> and an empty map as \<open>map[]\<close>.\<close>

fun formatYAMLValue :: "any_value \<Rightarrow> string" where
  "formatYAMLValue (AnyString s) = go_quote s"
| "formatYAMLValue (AnyBool b) = (if b then ''true'' else ''false'')"
| "formatYAMLValue (AnyInt n) = itoa n"
| "formatYAMLValue AnyZeroFloat = ''0''"
| "formatYAMLValue AnyNil = ''null''"
| "formatYAMLValue AnyEmptySlice = ''[]''"
| "formatYAMLValue AnyEmptyMap = ''map[]''"

fun renderArgs :: "stanza_args \<Rightarrow> string" where
  "renderArgs (RenameArgs f t) =
     ''{ from: '' @ formatYAMLValue (AnyString f) @ '', to: '' @ formatYAMLValue (AnyString t) @ '' }''"
| "renderArgs (DefaultArgs f v) =
     ''{ field: '' @ formatYAMLValue (AnyString f) @ '', value: '' @ formatYAMLValue v @ '' }''"
| "renderArgs (OptionalizeArgs f) = ''{ field: '' @ formatYAMLValue (AnyString f) @ '' }''"
| "renderArgs (CoerceArgs f t) =
     ''{ field: '' @ formatYAMLValue (AnyString f) @ '', to: '' @ formatYAMLValue (AnyString t) @ '' }''"

definition joinSignals :: "signal list \<Rightarrow> string" where
  "joinSignals signals = join_with '', '' (map signal_text signals)"

definition arrow :: string where "arrow = [CHR 0xE2, CHR 0x86, CHR 0x94]"
definition dash :: string where "dash = [CHR 0xE2, CHR 0x80, CHR 0x94]"

abbreviation line :: "string \<Rightarrow> string" where "line s \<equiv> s @ newline"

definition render_stanza :: "stanza_proposal \<Rightarrow> string" where
  "render_stanza s =
     line (''      # CONFIDENT: '' @ joinSignals (st_signals s)) @
     line (''      - '' @ st_verb s @ '': '' @ renderArgs (st_args s))"

definition render_candidate :: "string \<Rightarrow> candidate_pair \<Rightarrow> string" where
  "render_candidate side c =
     line (''      # AMBIGUOUS pair '' @ go_quote (cp_from c) @ '' '' @ arrow @ '' '' @ go_quote (cp_to c) @
           '' ('' @ joinSignals (cp_signals c) @ '').'') @
     line ''      # Pick exactly one option, edit, and delete the other comment block:'' @
     line ''      #'' @
     line (''      # OPTION A '' @ dash @ '' interpret as a rename:'') @
     line (''      # - rename: '' @ renderArgs (RenameArgs (cp_from c) (cp_to c))) @
     line ''      #'' @
     line (''      # OPTION B '' @ dash @ '' interpret as separate add + remove:'') @
     line (''      # - default: '' @ renderArgs (DefaultArgs (cp_to c) (zeroForType (cp_type c)))) @
     line (''      # (note: dropping the obsolete '' @ side @ ''-side '' @ go_quote (cp_from c) @
           '' is not expressible in the verb set; the operator must reconcile manually if OPTION B is chosen)'')"

definition renderDirection :: "string \<Rightarrow> stanza_proposal list \<Rightarrow> candidate_pair list \<Rightarrow> string \<Rightarrow> string" where
  "renderDirection key props cands side =
     (if props = [] \<and> cands = [] then ''''
      else line (key @ '':'') @ concat (map render_stanza props) @ concat (map (render_candidate side) cands))"

text \<open>\<open>today\<close> is the clock's date in UTC.\<close>

definition RenderYAML :: "string \<Rightarrow> shim_proposal \<Rightarrow> string \<Rightarrow> string" where
  "RenderYAML today p date =
     (let date = (if date = '''' then today else date) in
        line (''# Drafted by `bundle draft-shim` on '' @ date @ ''.'') @
        line ''# Review every block, edit as needed, then paste into bundle/resolution.yaml's `overrides:` list.'' @
        (if sp_notes p = [] then ''''
         else line ''#'' @ line ''# Notes from the drafter (these need human reconciliation):'' @
              concat (map (\<lambda>n. line (''# - '' @ n)) (sp_notes p))) @
        line ''#'' @
        line (''- contract_version: '' @ go_quote (sp_from_version p)) @
        line ''  transform:'' @
        line (''    target: '' @ go_quote (sp_to_version p)) @
        renderDirection ''    request'' (sp_request p) (sp_request_candidates p) ''request'' @
        renderDirection ''    response'' (sp_response p) (sp_response_candidates p) ''response'')"

end
