(* ===== verification/Drift_Facts.thy ===== *)
theory Drift_Facts
  imports Drift "HOL-Library.Multiset"
begin

text \<open>
  What the drafter of \<open>internal/bundlegen/drift.go\<close> proposes.  The locale \<open>pair_matcher\<close> is the contract
  of a pass that pairs removed with added fields; \<open>two_passes\<close> puts one pass after another, as
  \<open>draftDirection\<close> does.
\<close>

section \<open>A pass that pairs fields\<close>

locale pair_matcher =
  fixes pairing :: "string list \<Rightarrow> string list \<Rightarrow> pairing"
    and related :: "string \<Rightarrow> string \<Rightarrow> bool"
  assumes pairs_related: "pairing removed added = (ps, ur, ua) \<Longrightarrow> list_all (\<lambda>(r, a). related r a) ps"
    and removed_split: "pairing removed added = (ps, ur, ua) \<Longrightarrow> mset removed = mset (map fst ps) + mset ur"
    and added_split:
      "pairing removed added = (ps, ur, ua) \<Longrightarrow> distinct added \<Longrightarrow> mset added = mset (map snd ps) + mset ua"
    and leftover: "pairing removed added = (ps, ur, ua) \<Longrightarrow> '''' \<notin> set added \<Longrightarrow> r \<in> set ur \<Longrightarrow> a \<in> set ua \<Longrightarrow> \<not> related r a"
begin

lemma unmatched_subset:
  assumes "pairing removed added = (ps, ur, ua)" and "distinct added"
  shows "set ur \<subseteq> set removed" "set ua \<subseteq> set added" "distinct ua"
proof -
  have "set removed = fst ` set ps \<union> set ur" "set added = snd ` set ps \<union> set ua"
    using arg_cong [OF removed_split [OF assms(1)], of set_mset] arg_cong [OF added_split [OF assms], of set_mset]
    by auto
  moreover have "distinct (map snd ps @ ua)"
    using added_split [OF assms] assms(2) by (metis mset_append mset_eq_imp_distinct_iff)
  ultimately show "set ur \<subseteq> set removed" "set ua \<subseteq> set added" "distinct ua" by auto
qed

end

locale two_passes = first: pair_matcher p1 rel1 + second: pair_matcher p2 rel2
  for p1 rel1 p2 rel2
begin

text \<open>After both passes every field is in exactly one place.\<close>

lemma partition:
  assumes "p1 removed added = (ps, ur, ua)" "p2 ur ua = (qs, vr, va)" and "distinct added"
  shows "mset removed = mset (map fst ps) + mset (map fst qs) + mset vr \<and>
    mset added = mset (map snd ps) + mset (map snd qs) + mset va"
  using first.removed_split [OF assms(1)] first.added_split [OF assms(1,3)]
    second.removed_split [OF assms(2)] second.added_split [OF assms(2) first.unmatched_subset(3) [OF assms(1,3)]]
  by (simp add: add.assoc)

lemma nothing_left:
  assumes "p1 removed added = (ps, ur, ua)" "p2 ur ua = (qs, vr, va)" and "distinct added" "'''' \<notin> set added"
    and "r \<in> set vr" "a \<in> set va"
  shows "\<not> rel1 r a \<and> \<not> rel2 r a"
proof -
  note sub1 = first.unmatched_subset [OF assms(1,3)]
  note sub2 = second.unmatched_subset [OF assms(2) sub1(3)]
  have "'''' \<notin> set ua" using sub1(2) assms(4) by blast
  then show ?thesis
    using first.leftover [OF assms(1,4), of r a] second.leftover [OF assms(2), of r a] sub2 assms(5,6) by blast
qed

end

section \<open>The loop\<close>

lemma pair_loop_ok:
  assumes "pair_loop skip match added removed used = (ps, ur, used')"
  shows "list_all (\<lambda>(r, a). \<not> skip r \<and> match r a \<and> a \<in> set added) ps \<and>
    mset removed = mset (map fst ps) + mset ur \<and>
    distinct (map snd ps) \<and> set (map snd ps) \<inter> set used = {} \<and>
    set used' = set used \<union> set (map snd ps)"
  using assms
proof (induction removed arbitrary: used ps ur used')
  case (Cons r removed)
  define m where "m = (if skip r then '''' else
    (case find (\<lambda>a. a \<notin> set used \<and> match r a) added of None \<Rightarrow> '''' | Some a \<Rightarrow> a))"
  show ?case
  proof (cases "m = ''''")
    case True
    obtain ps1 ur1 u1 where rec: "pair_loop skip match added removed used = (ps1, ur1, u1)"
      by (cases "pair_loop skip match added removed used")
    then have "ps = ps1" "ur = r # ur1" "used' = u1"
      using Cons.prems True by (simp_all add: m_def [symmetric] Let_def)
    with Cons.IH [OF rec] show ?thesis by simp
  next
    case False
    obtain ps1 ur1 u1 where rec: "pair_loop skip match added removed (m # used) = (ps1, ur1, u1)"
      by (cases "pair_loop skip match added removed (m # used)")
    then have eqs: "ps = (r, m) # ps1" "ur = ur1" "used' = u1"
      using Cons.prems False by (simp_all add: m_def [symmetric] Let_def)
    have "\<not> skip r \<and> match r m \<and> m \<in> set added \<and> m \<notin> set used"
      using False by (auto simp: m_def split: if_splits option.splits dest!: find_Some_D)
    with Cons.IH [OF rec] show ?thesis by (auto simp: eqs)
  qed
qed simp

lemma pair_loop_leftover:
  assumes "pair_loop skip match added removed used = (ps, ur, used')" and "'''' \<notin> set added"
    and "r \<in> set ur" "\<not> skip r" "a \<in> set added" "a \<notin> set used'"
  shows "\<not> match r a"
  using assms(1,3,6)
proof (induction removed arbitrary: used ps ur used')
  case (Cons q removed)
  define m where "m = (if skip q then '''' else
    (case find (\<lambda>a. a \<notin> set used \<and> match q a) added of None \<Rightarrow> '''' | Some a \<Rightarrow> a))"
  show ?case
  proof (cases "m = ''''")
    case True
    obtain ps1 ur1 u1 where rec: "pair_loop skip match added removed used = (ps1, ur1, u1)"
      by (cases "pair_loop skip match added removed used")
    then have eqs: "ps = ps1" "ur = q # ur1" "used' = u1"
      using Cons.prems(1) True by (simp_all add: m_def [symmetric] Let_def)
    have "a \<notin> set used" using pair_loop_ok [OF rec] Cons.prems(3) eqs(3) by auto
    then have "\<not> match q a" if "\<not> skip q"
      using True that assms(2,5)
      by (auto simp: m_def find_None_iff split: option.splits dest!: find_Some_D)
    with Cons.IH [OF rec] Cons.prems(2,3) eqs assms(4) show ?thesis by auto
  next
    case False
    obtain ps1 ur1 u1 where rec: "pair_loop skip match added removed (m # used) = (ps1, ur1, u1)"
      by (cases "pair_loop skip match added removed (m # used)")
    then have "ur = ur1" "used' = u1"
      using Cons.prems(1) False by (simp_all add: m_def [symmetric] Let_def)
    with Cons.IH [OF rec] Cons.prems(2,3) show ?thesis by auto
  qed
qed simp

lemma pair_fields_matcher:
  "pair_matcher (pair_fields skip match) (\<lambda>r a. \<not> skip r \<and> match r a)"
proof unfold_locales
  fix removed added ps ur ua
  assume p: "pair_fields skip match removed added = (ps, ur, ua)"
  then obtain used where l: "pair_loop skip match added removed [] = (ps, ur, used)"
    "ua = filter (\<lambda>a. a \<notin> set used) added"
    by (auto simp: pair_fields_def split: prod.splits)
  note ok = pair_loop_ok [OF l(1)]
  show "list_all (\<lambda>(r, a). \<not> skip r \<and> match r a) ps" using ok by (auto simp: list_all_iff)
  show "mset removed = mset (map fst ps) + mset ur" using ok by blast
  show "mset added = mset (map snd ps) + mset ua" if "distinct added"
  proof -
    have "set (map snd ps) = set (filter (\<lambda>a. a \<in> set used) added)"
      using ok by (auto simp: list_all_iff)
    then have "mset (map snd ps) = mset (filter (\<lambda>a. a \<in> set used) added)"
      using ok that by (metis distinct_filter set_eq_iff_mset_eq_distinct)
    then show ?thesis by (simp add: l(2) flip: multiset_partition)
  qed
  show "\<not> (\<not> skip r \<and> match r a)" if "'''' \<notin> set added" "r \<in> set ur" "a \<in> set ua" for r a
    using pair_loop_leftover [OF l(1) that(1,2)] that(3) by (auto simp: l(2))
qed

interpretation case_renames: pair_matcher "matchCaseRenames fromF toF"
  "\<lambda>r a. \<not> (normalizeFieldName r = '''' \<or> field_type_of fromF r = '''') \<and>
         (normalizeFieldName a = normalizeFieldName r \<and> field_type_of toF a \<noteq> '''' \<and>
          field_type_of toF a = field_type_of fromF r)"
  unfolding matchCaseRenames_def [abs_def] by (rule pair_fields_matcher)

interpretation ambiguous_pairs: pair_matcher "matchAmbiguousPairs fromF toF"
  "\<lambda>r a. \<not> field_type_of fromF r = '''' \<and>
         (field_type_of toF a \<noteq> '''' \<and> field_type_of toF a = field_type_of fromF r)"
  unfolding matchAmbiguousPairs_def [abs_def] by (rule pair_fields_matcher)

interpretation no_pairs: pair_matcher "\<lambda>removed added. ([], removed, added)" "\<lambda>r a. False"
  by unfold_locales simp_all

lemma first_pass_matcher:
  "pair_matcher (first_pass strict_mode fromF toF)
     (\<lambda>r a. \<not> strict_mode \<and>
       \<not> (normalizeFieldName r = '''' \<or> field_type_of fromF r = '''') \<and>
       (normalizeFieldName a = normalizeFieldName r \<and> field_type_of toF a \<noteq> '''' \<and>
        field_type_of toF a = field_type_of fromF r))"
  using case_renames.pair_matcher_axioms [of fromF toF] no_pairs.pair_matcher_axioms
  by (cases strict_mode) (simp_all add: first_pass_def [abs_def])

interpretation draft_passes: two_passes "first_pass strict_mode fromF toF"
  "\<lambda>r a. \<not> strict_mode \<and>
       \<not> (normalizeFieldName r = '''' \<or> field_type_of fromF r = '''') \<and>
       (normalizeFieldName a = normalizeFieldName r \<and> field_type_of toF a \<noteq> '''' \<and>
        field_type_of toF a = field_type_of fromF r)"
  "matchAmbiguousPairs fromF toF"
  "\<lambda>r a. \<not> field_type_of fromF r = '''' \<and>
         (field_type_of toF a \<noteq> '''' \<and> field_type_of toF a = field_type_of fromF r)"
  by (rule two_passes.intro [OF first_pass_matcher ambiguous_pairs.pair_matcher_axioms])

section \<open>What is drafted\<close>

definition renames_of :: "stanza_proposal list \<Rightarrow> (string \<times> string) list" where
  "renames_of props = concat (map (\<lambda>s. case st_args s of RenameArgs f t \<Rightarrow> [(f, t)] | _ \<Rightarrow> []) props)"

definition defaults_of :: "stanza_proposal list \<Rightarrow> string list" where
  "defaults_of props = concat (map (\<lambda>s. case st_args s of DefaultArgs f v \<Rightarrow> [f] | _ \<Rightarrow> []) props)"

definition coerces_of :: "stanza_proposal list \<Rightarrow> (string \<times> string) list" where
  "coerces_of props = concat (map (\<lambda>s. case st_args s of CoerceArgs f t \<Rightarrow> [(f, t)] | _ \<Rightarrow> []) props)"

lemma concat_singletons: "concat (map (\<lambda>x. [f x]) xs) = map f xs"
  by (induction xs) auto

lemmas drafted_of_defs = renames_of_def defaults_of_def coerces_of_def

lemma drafted_append [simp]:
  "renames_of (xs @ ys) = renames_of xs @ renames_of ys"
  "defaults_of (xs @ ys) = defaults_of xs @ defaults_of ys"
  "coerces_of (xs @ ys) = coerces_of xs @ coerces_of ys"
  by (simp_all add: drafted_of_defs)

lemma drafted_stanzas [simp]:
  "renames_of (map (rename_stanza F) ps) = ps" "renames_of (map (default_stanza F) ns) = []"
  "renames_of (map (coerce_stanza F G) ns) = []"
  "defaults_of (map (rename_stanza F) ps) = []" "defaults_of (map (default_stanza F) ns) = ns"
  "defaults_of (map (coerce_stanza F G) ns) = []"
  "coerces_of (map (rename_stanza F) ps) = []" "coerces_of (map (default_stanza F) ns) = []"
  "coerces_of (map (coerce_stanza F G) ns) = map (\<lambda>n. (n, field_type_of G n)) ns"
  by (induction ps; induction ns;
      simp add: drafted_of_defs rename_stanza_def default_stanza_def coerce_stanza_def split: prod.split)+

text \<open>The same field under another spelling, and fields of one primitive type.\<close>

definition same_spelling :: "field_map \<Rightarrow> field_map \<Rightarrow> string \<times> string \<Rightarrow> bool" where
  "same_spelling F G p =
     (normalizeFieldName (snd p) = normalizeFieldName (fst p) \<and>
      field_type_of F (fst p) \<noteq> '''' \<and> field_type_of G (snd p) = field_type_of F (fst p))"

definition same_type :: "field_map \<Rightarrow> field_map \<Rightarrow> string \<times> string \<Rightarrow> bool" where
  "same_type F G p = (field_type_of F (fst p) \<noteq> '''' \<and> field_type_of G (snd p) = field_type_of F (fst p))"

definition candidate_names :: "candidate_pair \<Rightarrow> string \<times> string" where
  "candidate_names c = (cp_from c, cp_to c)"

lemma candidate_names_simps [simp]:
  "candidate_names (candidate F p) = p" "cp_from (candidate F p) = fst p" "cp_to (candidate F p) = snd p"
  by (simp_all add: candidate_names_def candidate_def split: prod.split)

lemma distinct_removed_fields: "distinct (map fst F) \<Longrightarrow> distinct (removed_fields F G)"
  by (simp add: removed_fields_def sortedKeys_def)

lemma draft_split:
  assumes "draftDirection from_schema to_schema side strict_mode = (props, cands, notes)"
    and "F = topLevelProperties from_schema" "G = topLevelProperties to_schema" and "distinct (map fst G)"
  obtains ps ur ua qs vr va where
    "first_pass strict_mode F G (removed_fields F G) (removed_fields G F) = (ps, ur, ua)"
    "matchAmbiguousPairs F G ur ua = (qs, vr, va)"
    "props = map (rename_stanza F) ps @ map (default_stanza G) va @
       map (coerce_stanza F G) (type_changes F G)"
    "cands = map (candidate F) qs" "notes = map (note_text side) vr"
    "mset (removed_fields F G) = mset (map fst ps) + mset (map fst qs) + mset vr"
    "mset (removed_fields G F) = mset (map snd ps) + mset (map snd qs) + mset va"
proof -
  let ?removed = "removed_fields F G" and ?added = "removed_fields G F"
  obtain ps ur ua where p1: "first_pass strict_mode F G ?removed ?added = (ps, ur, ua)"
    by (cases "first_pass strict_mode F G ?removed ?added")
  obtain qs vr va where p2: "matchAmbiguousPairs F G ur ua = (qs, vr, va)"
    by (cases "matchAmbiguousPairs F G ur ua")
  have "props = map (rename_stanza F) ps @ map (default_stanza G) va @
      map (coerce_stanza F G) (type_changes F G)"
    "cands = map (candidate F) qs" "notes = map (note_text side) vr"
    using assms(1) by (simp_all add: draftDirection_def Let_def p1 p2 flip: assms(2,3))
  with draft_passes.partition [OF p1 p2 distinct_removed_fields [OF assms(4)]] p1 p2 that show thesis by blast
qed

text \<open>The fields a draft says anything about, \<open>noted\<close> being the ones its notes are for.\<close>

definition mentioned :: "stanza_proposal list \<Rightarrow> candidate_pair list \<Rightarrow> string list \<Rightarrow> string set" where
  "mentioned props cands noted =
     fst ` set (renames_of props) \<union> snd ` set (renames_of props) \<union> set (defaults_of props) \<union>
     fst ` set (coerces_of props) \<union> cp_from ` set cands \<union> cp_to ` set cands \<union> set noted"

lemma removed_fields_mem: "n \<in> set (removed_fields F G) \<longleftrightarrow> n \<in> fst ` set F \<and> n \<notin> fst ` set G"
  by (auto simp: removed_fields_def sortedKeys_def)

lemma type_changes_mem:
  "n \<in> set (type_changes F G) \<longleftrightarrow> n \<in> fst ` set F \<inter> fst ` set G \<and>
     field_type_of F n \<noteq> '''' \<and> field_type_of G n \<noteq> '''' \<and> field_type_of F n \<noteq> field_type_of G n"
  by (auto simp: type_changes_def sortedKeys_def)

text \<open>C38. What a draft says.  Every removed field is renamed, paired as a candidate or noted, once; every
  added field is the target of a rename, of a candidate or of a default, once; a field of both shapes is
  coerced when its type is primitive in both and changed, and otherwise the draft does not mention it,
  whatever changed about it: a field that becomes, or stops being, an array, an object or a reference is
  passed over in silence.  A confident rename pairs two spellings of one name with one type, a candidate
  two fields of one type, and no removed field is left over together with an added one of its type.\<close>

theorem draft_exact:
  assumes "draftDirection from_schema to_schema side strict_mode = (props, cands, notes)"
    and "F = topLevelProperties from_schema" "G = topLevelProperties to_schema"
    and "distinct (map fst G)" "'''' \<notin> fst ` set G"
  shows "\<exists>noted. notes = map (note_text side) noted \<and>
    mset (removed_fields F G) = mset (map fst (renames_of props)) + mset (map cp_from cands) + mset noted \<and>
    mset (removed_fields G F) = mset (map snd (renames_of props)) + mset (map cp_to cands) + mset (defaults_of props) \<and>
    coerces_of props = map (\<lambda>n. (n, field_type_of G n)) (type_changes F G) \<and>
    (\<forall>n \<in> fst ` set F \<inter> fst ` set G. n \<in> mentioned props cands noted \<longleftrightarrow>
       field_type_of F n \<noteq> '''' \<and> field_type_of G n \<noteq> '''' \<and> field_type_of F n \<noteq> field_type_of G n) \<and>
    list_all (same_spelling F G) (renames_of props) \<and> (strict_mode \<longrightarrow> renames_of props = []) \<and>
    list_all (same_type F G \<circ> candidate_names) cands \<and>
    list_all (\<lambda>r. list_all (\<lambda>a. \<not> same_type F G (r, a)) (defaults_of props)) noted"
proof -
  have d: "distinct (removed_fields G F)" "'''' \<notin> set (removed_fields G F)"
    using assms(4,5) distinct_removed_fields by (auto simp: removed_fields_def sortedKeys_def)
  obtain ps ur ua qs vr va where p1: "first_pass strict_mode F G (removed_fields F G) (removed_fields G F) = (ps, ur, ua)"
    and p2: "matchAmbiguousPairs F G ur ua = (qs, vr, va)"
    and out: "props = map (rename_stanza F) ps @ map (default_stanza G) va @
       map (coerce_stanza F G) (type_changes F G)"
    "cands = map (candidate F) qs" "notes = map (note_text side) vr"
    and split: "mset (removed_fields F G) = mset (map fst ps) + mset (map fst qs) + mset vr"
    "mset (removed_fields G F) = mset (map snd ps) + mset (map snd qs) + mset va"
    by (rule draft_split [OF assms(1-4)])
  have sets: "set (removed_fields F G) = fst ` set ps \<union> fst ` set qs \<union> set vr"
    "set (removed_fields G F) = snd ` set ps \<union> snd ` set qs \<union> set va"
    using arg_cong [OF split(1), of set_mset] arg_cong [OF split(2), of set_mset] by simp_all
  have "mentioned props cands vr = set (removed_fields F G) \<union> set (removed_fields G F) \<union> set (type_changes F G)"
    unfolding sets by (auto simp: mentioned_def out image_image comp_def)
  then have "\<forall>n \<in> fst ` set F \<inter> fst ` set G. n \<in> mentioned props cands vr \<longleftrightarrow>
      field_type_of F n \<noteq> '''' \<and> field_type_of G n \<noteq> '''' \<and> field_type_of F n \<noteq> field_type_of G n"
    by (simp add: removed_fields_mem type_changes_mem)
  moreover have "list_all (same_spelling F G) ps" "strict_mode \<longrightarrow> ps = []"
    using draft_passes.first.pairs_related [OF p1] p1
    by (auto simp: list_all_iff same_spelling_def first_pass_def split: if_splits)
  moreover have "list_all (same_type F G) qs"
    using ambiguous_pairs.pairs_related [OF p2] by (auto simp: list_all_iff same_type_def)
  moreover have "list_all (\<lambda>r. list_all (\<lambda>a. \<not> same_type F G (r, a)) va) vr"
    using draft_passes.nothing_left [OF p1 p2 d] by (fastforce simp: list_all_iff same_type_def)
  ultimately show ?thesis
    using split by (intro exI [of _ vr]) (simp add: out comp_def list_all_iff)
qed

section \<open>Two shapes of an order\<close>

definition shape :: "(string \<times> schema option) list \<Rightarrow> schema" where
  "shape ps = Schema '''' ''object'' '''' False (Some ps) None [] [] [] None None"

definition old_order :: schema where
  "old_order =
     shape [(''qty'', Some (typed_schema ''string'')), (''orderId'', Some (typed_schema ''string'')),
            (''size'', Some (typed_schema ''integer'')), (''lines'', Some (typed_schema ''array''))]"

definition new_order :: schema where
  "new_order =
     shape [(''order_id'', Some (typed_schema ''string'')), (''qty'', Some (typed_schema ''integer'')),
            (''count'', Some (typed_schema ''integer'')), (''gift'', Some (typed_schema ''boolean''))]"

definition order_draft :: "stanza_proposal list" where
  "order_draft = fst (draftDirection (Some old_order) (Some new_order) ''request'' False)"

lemma order_drafted:
  "draftDirection (Some old_order) (Some new_order) ''request'' False =
     (order_draft, [candidate (props_of old_order) (''size'', ''count'')], [note_text ''request'' ''lines''])"
  by code_simp

lemma order_renames: "renames_of order_draft = [(''orderId'', ''order_id'')] \<and> defaults_of order_draft = [''gift'']"
  by code_simp

lemma draft_exact_witness:
  "\<exists>noted. [note_text ''request'' ''lines''] = map (note_text ''request'') noted \<and>
     mset (removed_fields (props_of old_order) (props_of new_order)) =
       mset (map fst (renames_of order_draft)) + {#''size''#} + mset noted \<and>
     mset (removed_fields (props_of new_order) (props_of old_order)) =
       mset (map snd (renames_of order_draft)) + {#''count''#} + mset (defaults_of order_draft) \<and>
     list_all (same_spelling (props_of old_order) (props_of new_order)) (renames_of order_draft)"
proof -
  have t: "props_of old_order = topLevelProperties (Some old_order)"
    "props_of new_order = topLevelProperties (Some new_order)"
    by (simp_all add: topLevelProperties_def)
  have "distinct (map fst (props_of new_order))" "'''' \<notin> fst ` set (props_of new_order)"
    by (simp_all add: new_order_def shape_def props_of_def)
  from draft_exact [OF order_drafted t this] show ?thesis by auto
qed

text \<open>A string that becomes an array: no stanza, no candidate, no note.\<close>

lemma structural_change_passed_over:
  "draftDirection (Some (shape [(''tags'', Some (typed_schema ''string''))]))
     (Some (shape [(''tags'', Some (typed_schema ''array''))])) ''request'' False = ([], [], [])"
  by code_simp

end
