(* ===== verification/Go_Disk.thy ===== *)
theory Go_Disk
  imports Go_Fs
begin

text \<open>
  The calls of package \<open>os\<close> that change the tree when the machine may fail them too (permissions, a full
  disk).  The machine is a parameter, which says of each call whether it fails and how far it got.  The
  calls that only read fail for what is in the tree alone.
\<close>

section \<open>The machine\<close>

text \<open>Which calls the machine fails, by path, with the text of the error.  A failing \<open>RemoveAll\<close> leaves some
  of the entries below the path; a failing \<open>MkdirAll\<close> has made nothing (0) or the root and the first
  \<open>n\<close> directories of the path below it (\<open>n + 1\<close>); a failing \<open>WriteFile\<close> has not opened the file, or has
  truncated it and written its first bytes.\<close>

record disk =
  dk_remove :: "string list \<Rightarrow> ((string list \<Rightarrow> bool) \<times> string) option"
  dk_mkdir :: "string list \<Rightarrow> (nat \<times> string) option"
  dk_write :: "string list \<Rightarrow> (nat option \<times> string) option"

definition healthy :: disk where
  "healthy = \<lparr>dk_remove = (\<lambda>p. None), dk_mkdir = (\<lambda>p. None), dk_write = (\<lambda>p. None)\<rparr>"

text \<open>The machine as seen from the directory \<open>p\<close>; what a failing \<open>MkdirAll\<close> makes above it is left out.\<close>

definition below :: "string list \<Rightarrow> disk \<Rightarrow> disk" where
  "below p dk =
     \<lparr>dk_remove = (\<lambda>q. dk_remove dk (p @ q)),
      dk_mkdir = (\<lambda>q. map_option (map_prod (\<lambda>n. n - length p) (\<lambda>err. err)) (dk_mkdir dk (p @ q))),
      dk_write = (\<lambda>q. dk_write dk (p @ q))\<rparr>"

datatype fs_failure = InTree io_error | OfMachine string

text \<open>The part of a tree whose paths are kept.\<close>

fun pruned :: "(string list \<Rightarrow> bool) \<Rightarrow> node \<Rightarrow> node" where
  "pruned keep (FileNode s) = FileNode s"
| "pruned keep (DirNode es) =
     DirNode (map (\<lambda>(x, n). (x, pruned (\<lambda>p. keep (x # p)) n)) (filter (\<lambda>(x, n). keep [x]) es))"

definition left_over :: "(string list \<Rightarrow> bool) \<Rightarrow> node option \<Rightarrow> string \<Rightarrow> node option" where
  "left_over keep root x =
     (case root of
        Some (DirNode es) \<Rightarrow>
          (case map_of es x of
             None \<Rightarrow> root
           | Some n \<Rightarrow> Some (DirNode (AList.update x (pruned keep n) es)))
      | _ \<Rightarrow> root)"

definition remove_all :: "disk \<Rightarrow> node option \<Rightarrow> string \<Rightarrow> node option \<times> string option" where
  "remove_all dk root x =
     (case dk_remove dk [x] of
        None \<Rightarrow> (RemoveAll root x, None)
      | Some (keep, err) \<Rightarrow> (left_over keep root x, Some err))"

definition made_dirs :: "nat \<Rightarrow> node option \<Rightarrow> string list \<Rightarrow> node option" where
  "made_dirs n root p =
     (case n of
        0 \<Rightarrow> root
      | Suc k \<Rightarrow> (case MkdirAll root (take k p) of Inl e \<Rightarrow> root | Inr m \<Rightarrow> Some m))"

definition make_dirs :: "disk \<Rightarrow> node option \<Rightarrow> string list \<Rightarrow> node option \<times> fs_failure option" where
  "make_dirs dk root p =
     (case MkdirAll root p of
        Inl e \<Rightarrow> (root, Some (InTree e))
      | Inr n \<Rightarrow>
          (case dk_mkdir dk p of
             None \<Rightarrow> (Some n, None)
           | Some (k, err) \<Rightarrow> (made_dirs k root p, Some (OfMachine err))))"

definition write_file :: "disk \<Rightarrow> node option \<Rightarrow> string list \<Rightarrow> string \<Rightarrow> node option \<times> fs_failure option" where
  "write_file dk root p s =
     (case WriteFile root p s of
        Inl e \<Rightarrow> (root, Some (InTree e))
      | Inr n \<Rightarrow>
          (case dk_write dk p of
             None \<Rightarrow> (Some n, None)
           | Some (None, err) \<Rightarrow> (root, Some (OfMachine err))
           | Some (Some k, err) \<Rightarrow>
               (case WriteFile root p (take k s) of
                  Inl e \<Rightarrow> (root, Some (InTree e))
                | Inr m \<Rightarrow> (Some m, Some (OfMachine err)))))"

section \<open>Lemmas\<close>

lemma below_root [simp]: "below [] dk = dk"
proof -
  have "map_prod (\<lambda>n. n - length ([] :: string list)) (\<lambda>err. err :: string) = id" by (simp add: fun_eq_iff)
  then show ?thesis by (cases dk) (simp add: below_def option.map_id)
qed

lemma healthy_calls [simp]:
  "dk_remove healthy p = None" "dk_mkdir healthy p = None" "dk_write healthy p = None"
  by (simp_all add: healthy_def)

lemma pruned_dir [simp]: "is_dir (pruned keep n) = is_dir n"
  by (cases n) auto

lemma put_node_file: "(\<exists>m. put_node root p (FileNode s) = Inr m) \<longleftrightarrow> (\<exists>m. put_node root p (FileNode t) = Inr m)"
proof (induction root p "FileNode s" rule: put_node.induct)
  case (4 es x xs)
  then show ?case by (auto simp: result_simps)
qed auto

lemma WriteFile_Inr: "(\<exists>m. WriteFile root p s = Inr m) \<longleftrightarrow> (\<exists>m. WriteFile root p t = Inr m)"
  using put_node_file [of root p s t] by (auto simp: WriteFile_def split: sum.splits node.splits)

text \<open>A call of \<open>WriteFile\<close> ends in one of three ways.\<close>

lemma write_file_cases:
  obtains (written) n where "write_file dk root p s = (Some n, None)" "WriteFile root p s = Inr n" "dk_write dk p = None"
  | (truncated) k n err where "write_file dk root p s = (Some n, Some (OfMachine err))" "WriteFile root p (take k s) = Inr n"
      "dk_write dk p = Some (Some k, err)"
  | (unopened) f where "write_file dk root p s = (root, Some f)"
      "dk_write dk p \<noteq> None \<or> (\<nexists>n. WriteFile root p s = Inr n)"
proof (cases "WriteFile root p s")
  case (Inl e)
  then show ?thesis by (intro unopened) (simp_all add: write_file_def)
next
  case (Inr n)
  show ?thesis
  proof (cases "dk_write dk p")
    case None
    with Inr show ?thesis by (intro written) (simp_all add: write_file_def)
  next
    case (Some r)
    obtain k err where r: "r = (k, err)" by (cases r)
    show ?thesis
    proof (cases k)
      case None
      with Inr Some r show ?thesis by (intro unopened) (simp_all add: write_file_def)
    next
      case (Some j)
      from Inr WriteFile_Inr [of root p s "take j s"] obtain m where "WriteFile root p (take j s) = Inr m" by blast
      with Inr Some r \<open>dk_write dk p = _\<close> show ?thesis by (intro truncated) (simp_all add: write_file_def)
    qed
  qed
qed

end
