(* ===== verification/Gen_Layer.thy ===== *)
theory Gen_Layer
  imports Gen_Openapi Bundle_Properties Go_Path Go_Disk
begin

text \<open>
  The commands of \<open>internal/bundlegen/bundlegen.go\<close> on a bundle directory: \<open>Add\<close>, \<open>Remove\<close>,
  \<open>Retire\<close> and \<open>Verify\<close>.

  \<open>dir\<close> is the path of the bundle directory, used in texts only, and a \<open>node option\<close> what is there.
  A command is given the machine (\<open>disk\<close>), which may fail any of its changes, and returns the tree it
  leaves behind, also when it fails half way, and its error.
\<close>

section \<open>Files\<close>

type_synonym outcome = "node option \<times> gen_fault option"

definition path_text :: "string \<Rightarrow> string list \<Rightarrow> string" where
  "path_text dir segs = (if segs = [] then dir else Join (dir # segs))"

text \<open>A \<open>*fs.PathError\<close>.\<close>

definition path_error :: "string \<Rightarrow> string \<Rightarrow> string list \<Rightarrow> io_error \<Rightarrow> string" where
  "path_error operation_name dir segs e =
     operation_name @ '' '' @ path_text dir segs @ '': '' @ io_error_text e"

fun failure_text :: "(io_error \<Rightarrow> string) \<Rightarrow> fs_failure \<Rightarrow> string" where
  "failure_text f (InTree e) = f e"
| "failure_text f (OfMachine err) = err"

text \<open>\<open>os.ReadFile\<close> opens a directory without error and fails to read it.\<close>

definition read_operation :: "io_error \<Rightarrow> string" where
  "read_operation e = (if e = IsDir then ''read'' else ''open'')"

text \<open>The layer directory is a path of names below the bundle directory; a version that leads out of it
  has none.\<close>

fun write_files :: "disk \<Rightarrow> string \<Rightarrow> string list \<Rightarrow> (string \<times> string) list \<Rightarrow> node option \<Rightarrow> outcome" where
  "write_files dk dir layer [] root = (root, None)"
| "write_files dk dir layer ((name, bytes) # rest) root =
     (case write_file dk root (layer @ [name]) bytes of
        (root, Some e) \<Rightarrow> (root, Some (GenError (failure_text (path_error ''open'' dir (layer @ [name])) e)))
      | (root, None) \<Rightarrow> write_files dk dir layer rest root)"

definition fill_layer :: "disk \<Rightarrow> string \<Rightarrow> string list \<Rightarrow> layer_files \<Rightarrow> node option \<Rightarrow> outcome" where
  "fill_layer dk dir layer lf root =
     (case make_dirs dk root layer of
        (root, Some e) \<Rightarrow>
          (root, Some (GenError (''mkdir layer: '' @ failure_text (path_error ''mkdir'' dir layer) e)))
      | (root, None) \<Rightarrow>
          write_files dk dir layer
            [(''descriptors.binpb'', lf_descriptors lf), (''openapi.json'', lf_openapi lf),
             (''versions.yaml'', lf_versions lf)] root)"

text \<open>The guard of the forced removal.  It never fires on a name \<open>safeLayerName\<close> accepts.\<close>

definition direct_child :: "string \<Rightarrow> string list \<Rightarrow> bool" where
  "direct_child dir layer = (Dir (path_text dir layer) = Clean dir)"

lemma safe_layer_direct: "safeLayerName v \<Longrightarrow> direct_child dir [v]"
proof -
  assume "safeLayerName v"
  then have "proper v" by (auto simp: safeLayerName_def proper_def contains_any_def list_ex_iff split: if_splits)
  then show ?thesis using Dir_Join [of v dir] by (simp add: direct_child_def path_text_def)
qed

definition writeLayer :: "disk \<Rightarrow> string \<Rightarrow> string list \<Rightarrow> layer_files \<Rightarrow> bool \<Rightarrow> node option \<Rightarrow> outcome" where
  "writeLayer dk dir layer lf force root =
     (case node_at root layer of
        Inr info \<Rightarrow>
          if \<not> force then
            (root, Some (GenError (''version '' @ go_quote (lf_version lf) @
                      '' already exists in the bundle; frozen versions are immutable'')))
          else if \<not> is_dir info then
            (root, Some (GenError (''refusing to overwrite '' @ path_text dir layer @ '': not a directory'')))
          else if \<not> direct_child dir layer then
            (root, Some (GenError (''refusing to overwrite '' @ path_text dir layer @
                      '': not a direct child of bundle dir '' @ dir)))
          else
            (case remove_all dk root (hd layer) of
               (root, Some err) \<Rightarrow>
                 (root, Some (GenError (''remove existing layer '' @ path_text dir layer @ '': '' @ err)))
             | (root, None) \<Rightarrow> fill_layer dk dir layer lf root)
      | Inl NotExist \<Rightarrow> fill_layer dk dir layer lf root
      | Inl e \<Rightarrow>
          (root, Some (GenError (''stat '' @ path_text dir layer @ '': '' @ path_error ''stat'' dir layer e))))"

text \<open>\<open>None\<close>: the lowering does not return, and nothing has been touched.\<close>

definition Add :: "disk \<Rightarrow> gen_env \<Rightarrow> string \<Rightarrow> string \<Rightarrow> bool \<Rightarrow> node option \<Rightarrow> outcome option" where
  "Add dk env src dir force root =
     (case generate env src of
        None \<Rightarrow> None
      | Some (Inl e) \<Rightarrow> Some (root, Some e)
      | Some (Inr lf) \<Rightarrow> Some (writeLayer dk dir [lf_version lf] lf force root))"

section \<open>Remove\<close>

definition Remove :: "disk \<Rightarrow> string \<Rightarrow> string \<Rightarrow> node option \<Rightarrow> outcome" where
  "Remove dk dir version root =
     (case ReadDir root [] of
        Inl e \<Rightarrow> (root, Some (GenError (''read bundle dir: '' @ path_error ''open'' dir [] e)))
      | Inr entries \<Rightarrow>
          let layers = subdirs entries in
            if length layers < 2 then
              (root, Some (GenError (''refusing to remove '' @ go_quote version @
                        '': a bundle must keep at least one layer'')))
            else if version \<noteq> hd layers then
              (root, Some (GenError (''refusing to remove '' @ go_quote version @
                        '': only the oldest layer ('' @ go_quote (hd layers) @ '') may be removed'')))
            else (case remove_all dk root version of (root, err) \<Rightarrow> (root, map_option GenError err)))"

section \<open>Retire\<close>

text \<open>The subset of \<open>resolution.yaml\<close> this command decodes and writes back; \<open>'y\<close> is \<open>yaml.Node\<close>.\<close>

record 'y retire_transform =
  rt_target :: string
  rt_request :: 'y
  rt_response :: 'y

record 'y retire_entry =
  re_version :: string
  re_transform :: "'y retire_transform option"
  re_route :: "string option"

record 'y retire_file =
  rf_version :: int
  rf_overrides :: "'y retire_entry list"

record 'y retire_yaml =
  ry_decode :: "string \<Rightarrow> string + 'y retire_file"
  ry_marshal :: "'y retire_file \<Rightarrow> string + string"
  ry_empty :: 'y                                        \<comment> \<open>\<open>emptySeqNode\<close>\<close>

definition index_of :: "'a \<Rightarrow> 'a list \<Rightarrow> nat option" where
  "index_of x xs = (let i = length (takeWhile (\<lambda>y. y \<noteq> x) xs) in if i < length xs then Some i else None)"

definition scaffold :: "'y retire_yaml \<Rightarrow> string \<Rightarrow> string \<Rightarrow> 'y retire_entry" where
  "scaffold ry version neighbour =
     \<lparr>re_version = version,
      re_transform = Some \<lparr>rt_target = neighbour, rt_request = ry_empty ry, rt_response = ry_empty ry\<rparr>,
      re_route = None\<rparr>"

definition read_retire_file :: "'y retire_yaml \<Rightarrow> string \<Rightarrow> node option \<Rightarrow> gen_fault + 'y retire_file" where
  "read_retire_file ry dir root =
     (case ReadFile root [fileResolution] of
        Inl NotExist \<Rightarrow> Inr \<lparr>rf_version = 1, rf_overrides = []\<rparr>
      | Inl e \<Rightarrow> Inl (GenError (''read resolution.yaml: '' @ path_error (read_operation e) dir [fileResolution] e))
      | Inr raw \<Rightarrow>
          (case ry_decode ry raw of
             Inl err \<Rightarrow> Inl (GenError (''parse resolution.yaml: '' @ err))
           | Inr rf \<Rightarrow> Inr rf))"

definition Retire :: "disk \<Rightarrow> 'y retire_yaml \<Rightarrow> string \<Rightarrow> string \<Rightarrow> node option \<Rightarrow> outcome" where
  "Retire dk ry dir version root =
     (case ReadDir root [] of
        Inl e \<Rightarrow> (root, Some (GenError (''read bundle dir: '' @ path_error ''open'' dir [] e)))
      | Inr entries \<Rightarrow>
          let layers = subdirs entries in
            (case index_of version layers of
               None \<Rightarrow> (root, Some (GenError (''version '' @ go_quote version @ '' is not a layer in the bundle'')))
             | Some idx \<Rightarrow>
                 if idx = length layers - 1 then
                   (root, Some (GenError (''refusing to retire the current version '' @ go_quote version)))
                 else
                   (case read_retire_file ry dir root of
                      Inl e \<Rightarrow> (root, Some e)
                    | Inr rf \<Rightarrow>
                        if version \<in> set (map re_version (rf_overrides rf)) then
                          (root, Some (GenError (''version '' @ go_quote version @
                             '' already has an override in resolution.yaml; retire only scaffolds a fresh override'')))
                        else
                          (case ry_marshal ry (rf\<lparr>rf_overrides := rf_overrides rf @
                                  [scaffold ry version (layers ! (idx + 1))]\<rparr>) of
                             Inl err \<Rightarrow> (root, Some (GenError (''marshal resolution.yaml: '' @ err)))
                           | Inr out \<Rightarrow>
                               (case write_file dk root [fileResolution] out of
                                  (root, err) \<Rightarrow>
                                    (root, map_option (\<lambda>e. GenError
                                       (failure_text (path_error ''open'' dir [fileResolution]) e)) err))))))"

section \<open>Verify\<close>

definition candidatesBlockMarker :: string where "candidatesBlockMarker = ''# AMBIGUOUS pair''"

definition verifyNoUnresolvedCandidates :: "string \<Rightarrow> node option \<Rightarrow> string + unit" where
  "verifyNoUnresolvedCandidates dir root =
     (case ReadFile root [fileResolution] of
        Inl NotExist \<Rightarrow> Inr ()
      | Inl e \<Rightarrow> Inl (''read resolution.yaml: '' @ path_error (read_operation e) dir [fileResolution] e)
      | Inr raw \<Rightarrow>
          if str_contains raw candidatesBlockMarker then
            Inl (''resolution.yaml contains an unresolved drift-shim candidates block (look for '' @
                 go_quote candidatesBlockMarker @
                 ''); pick one option, edit the stanzas, and remove the comment block before committing'')
          else Inr ())"

definition Verify :: "('x, 'm) codecs \<Rightarrow> string \<Rightarrow> node option \<Rightarrow> string + unit" where
  "Verify L dir root =
     (case Load L dir root of
        Inl e \<Rightarrow> Inl (load_error_text e)
      | Inr b \<Rightarrow> verifyNoUnresolvedCandidates dir root)"

end
