(* ===== verification/Drift_Effect.thy ===== *)
theory Drift_Effect
  imports Drift_Facts Gen_Layer
begin

text \<open>
  A drafted shim through the rest of the program: its stanzas read by the loader (\<open>toOps\<close> of
  \<open>internal/bundle\<close>), run on a body by \<open>internal/transform\<close>, and its text met by \<open>Verify\<close>.
\<close>

section \<open>Drafted stanzas as the loader reads them\<close>

text \<open>The YAML value a rendered placeholder is; \<open>map[]\<close> inside a flow mapping is no YAML.\<close>

fun yaml_value :: "any_value \<Rightarrow> yvalue option" where
  "yaml_value (AnyString s) = Some (YStr s)"
| "yaml_value (AnyBool b) = Some (YBool b)"
| "yaml_value (AnyInt n) = Some (YInt n)"
| "yaml_value AnyZeroFloat = Some (YInt 0)"
| "yaml_value AnyNil = Some YNull"
| "yaml_value AnyEmptySlice = Some (YSeq [])"
| "yaml_value AnyEmptyMap = None"

fun yaml_stanza :: "stanza_args \<Rightarrow> yaml_op option" where
  "yaml_stanza (RenameArgs f t) = Some (no_verb\<lparr>y_rename := Some \<lparr>yr_from = f, yr_to = t\<rparr>\<rparr>)"
| "yaml_stanza (DefaultArgs f v) =
     map_option (\<lambda>y. no_verb\<lparr>y_default := Some \<lparr>yd_field = f, yd_value = y\<rparr>\<rparr>) (yaml_value v)"
| "yaml_stanza (OptionalizeArgs f) = Some (no_verb\<lparr>y_optionalize := Some f\<rparr>)"
| "yaml_stanza (CoerceArgs f t) = Some (no_verb\<lparr>y_coerce := Some \<lparr>yc_field = f, yc_to = t\<rparr>\<rparr>)"

text \<open>A field name that is a path of one segment.\<close>

definition plain_name :: "string \<Rightarrow> bool" where
  "plain_name n = (ParsePath n = Inr [fld n])"

text \<open>The operation a stanza on such names becomes.\<close>

fun op_of_args :: "stanza_args \<Rightarrow> op \<Rightarrow> bool" where
  "op_of_args (RenameArgs f t) x = (x = Rename [fld f] [fld t])"
| "op_of_args (DefaultArgs f v) x = (\<exists>j. x = Default [fld f] j)"
| "op_of_args (OptionalizeArgs f) x = (x = Optionalize [fld f])"
| "op_of_args (CoerceArgs f t) x = (x = Coerce [fld f] t)"

fun args_names :: "stanza_args \<Rightarrow> string list" where
  "args_names (RenameArgs f t) = [f, t]"
| "args_names (DefaultArgs f v) = [f]"
| "args_names (OptionalizeArgs f) = [f]"
| "args_names (CoerceArgs f t) = [f]"

lemmas block_defs = to_op_def rename_block_def default_block_def optionalize_block_def coerce_block_def
  parse_field_def no_verb_def

lemma to_op_stanza:
  assumes "yaml_stanza a = Some y" and "to_op R cv dir ext y = Inr x" and "list_all plain_name (args_names a)"
  shows "op_of_args a x"
proof (cases a)
  case (RenameArgs f t)
  then show ?thesis using assms
    by (auto simp: block_defs plain_name_def result_simps split: if_splits sum.splits)
next
  case (DefaultArgs f v)
  then show ?thesis using assms
    by (auto simp: block_defs plain_name_def result_simps split: if_splits sum.splits)
next
  case (OptionalizeArgs f)
  then show ?thesis using assms
    by (auto simp: block_defs plain_name_def result_simps split: if_splits sum.splits)
next
  case (CoerceArgs f t)
  then show ?thesis using assms
    by (auto simp: block_defs plain_name_def result_simps split: if_splits sum.splits)
qed

text \<open>\<open>loaded_stanzas\<close>: the operations of a direction whose drafted stanzas were pasted as they are.\<close>

definition loaded_stanzas ::
  "'m reflection \<Rightarrow> string \<Rightarrow> string \<Rightarrow> 'm option \<Rightarrow> 'm option \<Rightarrow> stanza_proposal list \<Rightarrow> op list \<Rightarrow> bool" where
  "loaded_stanzas R cv dir reqMsg respMsg props ops =
     (list_all (\<lambda>s. yaml_stanza (st_args s) \<noteq> None) props \<and>
      toOps R cv dir (map (\<lambda>s. the (yaml_stanza (st_args s))) props) reqMsg respMsg = Inr ops)"

lemma list_all2_mono_in:
  "list_all2 P xs ys \<Longrightarrow> (\<And>x y. x \<in> set xs \<Longrightarrow> P x y \<Longrightarrow> Q x y) \<Longrightarrow> list_all2 Q xs ys"
  by (simp add: list_all2_conv_all_nth)

lemma loaded_ops:
  assumes "loaded_stanzas R cv dir reqMsg respMsg props ops"
    and "list_all (\<lambda>s. list_all plain_name (args_names (st_args s))) props"
  shows "list_all2 (\<lambda>s x. op_of_args (st_args s) x) props ops"
proof -
  have "list_all2 (\<lambda>s x. to_op R cv dir (external dir reqMsg respMsg) (the (yaml_stanza (st_args s))) = Inr x) props ops"
    using assms(1) by (simp add: loaded_stanzas_def toOps_def smap_eq_Inr_iff list_all2_map1 split: if_splits)
  then show ?thesis
  proof (rule list_all2_mono_in)
    fix s x
    assume s: "s \<in> set props" and x: "to_op R cv dir (external dir reqMsg respMsg) (the (yaml_stanza (st_args s))) = Inr x"
    from s assms have "yaml_stanza (st_args s) \<noteq> None" "list_all plain_name (args_names (st_args s))"
      by (auto simp: loaded_stanzas_def list_all_iff)
    with x show "op_of_args (st_args s) x" by (auto intro: to_op_stanza)
  qed
qed

section \<open>Running them on a body\<close>

lemma step_rename:
  "f \<in> fmdom' m \<Longrightarrow> t \<notin> fmdom' m \<Longrightarrow>
   \<exists>m'. apply_op lib fail (m, opts) (Rename [fld f] [fld t]) = Inr (m', opts) \<and>
        fmdom' m' = insert t (fmdom' m - {f})"
  by (auto simp: rename_leaf_def fmlookup_dom'_iff)

lemma step_default:
  "\<exists>m'. apply_op lib fail (m, opts) (Default [fld f] j) = Inr (m', opts) \<and> fmdom' m' = insert f (fmdom' m)"
  by (auto simp: default_leaf_def intro: fmdom'I)

lemma step_coerce:
  assumes "f \<in> fmdom' m" and "apply_op lib fail (m, opts) (Coerce [fld f] t) = Inr (m', o')"
  shows "o' = opts \<and> fmdom' m' = fmdom' m"
proof -
  obtain v where "fmlookup m f = Some v" using assms(1) by (auto simp: fmlookup_dom'_iff)
  with assms show ?thesis
    by (auto simp: coerce_leaf_def result_simps insert_absorb split: sum.splits)
qed

lemma drafted_args [simp]:
  "st_args (rename_stanza F (f, t)) = RenameArgs f t"
  "st_args (default_stanza G n) = DefaultArgs n (zeroForSchema (component G n))"
  "st_args (coerce_stanza F G n) = CoerceArgs n (field_type_of G n)"
  by (simp_all add: rename_stanza_def default_stanza_def coerce_stanza_def)

lemma run_renames:
  assumes "list_all2 (\<lambda>s x. op_of_args (st_args s) x) (map (rename_stanza F) ps) ops"
    and "distinct (map fst ps)" "distinct (map snd ps)"
    and "set (map fst ps) \<subseteq> fmdom' m" "set (map snd ps) \<inter> fmdom' m = {}"
  shows "\<exists>m'. sfold (apply_op lib fail) (m, opts) ops = Inr (m', opts) \<and>
    fmdom' m' = (fmdom' m - set (map fst ps)) \<union> set (map snd ps)"
  using assms
proof (induction ps arbitrary: m ops)
  case (Cons p ps)
  obtain f t where p: "p = (f, t)" by (cases p)
  from Cons.prems(1) obtain ops' where ops: "ops = Rename [fld f] [fld t] # ops'"
    "list_all2 (\<lambda>s x. op_of_args (st_args s) x) (map (rename_stanza F) ps) ops'"
    by (auto simp: p list_all2_Cons1)
  have "f \<in> fmdom' m" "t \<notin> fmdom' m" using Cons.prems(4,5) by (auto simp: p)
  from step_rename [OF this] obtain m1 where m1: "apply_op lib fail (m, opts) (Rename [fld f] [fld t]) = Inr (m1, opts)"
    "fmdom' m1 = insert t (fmdom' m - {f})" by blast
  have "set (map fst ps) \<subseteq> fmdom' m1" "set (map snd ps) \<inter> fmdom' m1 = {}"
    using Cons.prems(2-5) by (auto simp: p m1(2))
  from Cons.IH [OF ops(2) _ _ this] obtain m' where
    "sfold (apply_op lib fail) (m1, opts) ops' = Inr (m', opts)"
    "fmdom' m' = (fmdom' m1 - set (map fst ps)) \<union> set (map snd ps)"
    using Cons.prems(2,3) by auto
  moreover from this(2) have "fmdom' m' = (fmdom' m - set (map fst (p # ps))) \<union> set (map snd (p # ps))"
    using Cons.prems(4,5) by (auto simp: p m1(2))
  ultimately show ?case by (simp add: ops(1) m1(1) del: apply_op.simps)
qed simp

lemma run_defaults:
  assumes "list_all2 (\<lambda>s x. op_of_args (st_args s) x) (map (default_stanza G) ns) ops"
  shows "\<exists>m'. sfold (apply_op lib fail) (m, opts) ops = Inr (m', opts) \<and> fmdom' m' = fmdom' m \<union> set ns"
  using assms
proof (induction ns arbitrary: m ops)
  case (Cons n ns)
  from Cons.prems obtain j ops' where ops: "ops = Default [fld n] j # ops'"
    "list_all2 (\<lambda>s x. op_of_args (st_args s) x) (map (default_stanza G) ns) ops'"
    by (auto simp: list_all2_Cons1)
  obtain m1 where m1: "apply_op lib fail (m, opts) (Default [fld n] j) = Inr (m1, opts)"
    "fmdom' m1 = insert n (fmdom' m)" using step_default by blast
  from Cons.IH [OF ops(2), of m1] show ?case by (simp add: ops(1) m1 del: apply_op.simps)
qed simp

lemma run_coerces:
  assumes "list_all2 (\<lambda>s x. op_of_args (st_args s) x) (map (coerce_stanza F G) ns) ops"
    and "set ns \<subseteq> fmdom' m" "sfold (apply_op lib fail) (m, opts) ops = Inr (m', o')"
  shows "fmdom' m' = fmdom' m"
  using assms
proof (induction ns arbitrary: m ops)
  case (Cons n ns)
  from Cons.prems(1) obtain ops' where ops: "ops = Coerce [fld n] (field_type_of G n) # ops'"
    "list_all2 (\<lambda>s x. op_of_args (st_args s) x) (map (coerce_stanza F G) ns) ops'"
    by (auto simp: list_all2_Cons1)
  from Cons.prems(3) obtain m1 o1 where m1: "apply_op lib fail (m, opts) (Coerce [fld n] (field_type_of G n)) = Inr (m1, o1)"
    "sfold (apply_op lib fail) (m1, o1) ops' = Inr (m', o')"
    by (auto simp: ops(1) result_simps simp del: apply_op.simps)
  have "n \<in> fmdom' m" using Cons.prems(2) by simp
  from step_coerce [OF this m1(1)] have "o1 = opts" "fmdom' m1 = fmdom' m" by auto
  with Cons.IH [OF ops(2), of m1] Cons.prems(2) m1(2) show ?case by simp
qed simp

lemma removed_fields_set: "set (removed_fields F G) = fst ` set F - fst ` set G"
  by (auto simp: removed_fields_def sortedKeys_def)

lemma type_changes_common: "set (type_changes F G) \<subseteq> fst ` set F \<inter> fst ` set G"
  by (auto simp: type_changes_def sortedKeys_def)

text \<open>C36. A draft without candidates and notes does what it is for: its stanzas, pasted as they are and
  accepted by the loader, turn a body with exactly the fields of the one shape into a body with exactly
  the fields of the other.  It never fails when no type changed.\<close>

theorem drafted_shim_reshapes:
  assumes "draftDirection from_schema to_schema side strict_mode = (props, [], [])"
    and "F = topLevelProperties from_schema" "G = topLevelProperties to_schema"
    and "distinct (map fst F)" "distinct (map fst G)"
    and "list_all plain_name (map fst F @ map fst G)"
    and "loaded_stanzas R cv side reqMsg respMsg props ops"
    and "fmdom' m = fst ` set F"
  shows "(\<forall>m'. apply_ops lib fail ops m = Inr m' \<longrightarrow> fmdom' m' = fst ` set G) \<and>
    (type_changes F G = [] \<longrightarrow> (\<exists>m'. apply_ops lib fail ops m = Inr m'))"
proof -
  obtain ps ur ua qs vr va where props: "props = map (rename_stanza F) ps @ map (default_stanza G) va @
       map (coerce_stanza F G) (type_changes F G)"
    and none: "[] = map (candidate F) qs" "[] = map (note_text side) vr"
    and split: "mset (removed_fields F G) = mset (map fst ps) + mset (map fst qs) + mset vr"
    "mset (removed_fields G F) = mset (map snd ps) + mset (map snd qs) + mset va"
    by (rule draft_split [OF assms(1-3,5)])
  have mp: "mset (removed_fields F G) = mset (map fst ps)" "mset (removed_fields G F) = mset (map snd ps @ va)"
    using split none by simp_all
  then have sets: "set (map fst ps) = fst ` set F - fst ` set G"
    "set (map snd ps) \<union> set va = fst ` set G - fst ` set F"
    using mset_eq_setD [OF mp(1)] mset_eq_setD [OF mp(2)] by (simp_all add: removed_fields_set)
  have dist: "distinct (map fst ps)" "distinct (map snd ps)"
    using mset_eq_imp_distinct_iff [OF mp(1)] mset_eq_imp_distinct_iff [OF mp(2)]
      distinct_removed_fields [OF assms(4), of G] distinct_removed_fields [OF assms(5), of F] by auto
  have plain: "plain_name n" if "n \<in> fst ` set F \<union> fst ` set G" for n
    using assms(6) that by (auto simp: list_all_iff)
  have "list_all (\<lambda>s. list_all plain_name (args_names (st_args s))) props"
  proof -
    have "n \<in> fst ` set F \<union> fst ` set G"
      if "n \<in> fst ` set ps \<union> snd ` set ps \<union> set va \<union> set (type_changes F G)" for n
      using that sets type_changes_common [of F G] by auto
    then have "plain_name n" if "n \<in> fst ` set ps \<union> snd ` set ps \<union> set va \<union> set (type_changes F G)" for n
      using that plain by blast
    then show ?thesis by (force simp: props list_all_iff)
  qed
  from loaded_ops [OF assms(7) this] obtain rs ds cs where
    ops: "ops = rs @ ds @ cs" and
    rs: "list_all2 (\<lambda>s x. op_of_args (st_args s) x) (map (rename_stanza F) ps) rs" and
    ds: "list_all2 (\<lambda>s x. op_of_args (st_args s) x) (map (default_stanza G) va) ds" and
    cs: "list_all2 (\<lambda>s x. op_of_args (st_args s) x) (map (coerce_stanza F G) (type_changes F G)) cs"
    unfolding props by (auto simp: list_all2_append1)
  have "set (map fst ps) \<subseteq> fmdom' m" "set (map snd ps) \<inter> fmdom' m = {}"
    using sets assms(8) by auto
  from run_renames [OF rs dist this, of lib fail "[]"] obtain m1 where
    m1: "sfold (apply_op lib fail) (m, []) rs = Inr (m1, [])"
    "fmdom' m1 = (fmdom' m - set (map fst ps)) \<union> set (map snd ps)" by blast
  from run_defaults [OF ds, of lib fail m1 "[]"] obtain m2 where
    m2: "sfold (apply_op lib fail) (m1, []) ds = Inr (m2, [])" "fmdom' m2 = fmdom' m1 \<union> set va" by blast
  have dom: "fmdom' m2 = fst ` set G"
    using sets assms(8) m1(2) m2(2) by auto
  have run: "apply_ops lib fail ops m = sbind (sfold (apply_op lib fail) (m2, []) cs) (\<lambda>(obj', _). Inr obj')"
    by (simp add: apply_ops_def ops sfold_append m1(1) m2(1))
  have "fmdom' m' = fst ` set G" if "apply_ops lib fail ops m = Inr m'" for m'
  proof -
    from that obtain o' where "sfold (apply_op lib fail) (m2, []) cs = Inr (m', o')"
      by (auto simp: run result_simps)
    from run_coerces [OF cs _ this] show ?thesis using type_changes_common [of F G] dom by auto
  qed
  moreover have "\<exists>m'. apply_ops lib fail ops m = Inr m'" if "type_changes F G = []"
    using cs that by (simp add: run)
  ultimately show ?thesis by blast
qed

section \<open>Drafts the loader refuses\<close>

text \<open>C39. The drafter writes a coerce to the primitive type of the field, and the loader knows only
  \<open>string\<close>, \<open>number\<close> and \<open>bool\<close>: every drafted coerce whose target is not a string makes the bundle fail to
  load.\<close>

theorem drafted_coerce_refused:
  assumes "draftDirection from_schema to_schema side strict_mode = (props, cands, notes)"
    and "s \<in> set props" "st_args s = CoerceArgs f t" "t \<noteq> ''string''"
  shows "\<not> loaded_stanzas R cv side reqMsg respMsg props ops"
proof
  assume l: "loaded_stanzas R cv side reqMsg respMsg props ops"
  obtain F G where "t = field_type_of G f" "field_type_of G f \<noteq> ''''"
  proof -
    have "s \<in> coerce_stanza (topLevelProperties from_schema) (topLevelProperties to_schema) `
        set (type_changes (topLevelProperties from_schema) (topLevelProperties to_schema))"
      using assms(1-3) by (auto simp: draftDirection_def Let_def split: prod.splits)
    with assms(3) that show thesis by (auto simp: type_changes_def)
  qed
  then have t: "t \<noteq> ''string'' \<and> t \<noteq> ''number'' \<and> t \<noteq> ''bool''"
    using assms(4) by (auto simp: field_type_of_def primitiveType_def split: option.splits if_splits)
  from l have "list_all (\<lambda>s. \<exists>x. to_op R cv side (external side reqMsg respMsg) (the (yaml_stanza (st_args s))) = Inr x) props"
    by (auto simp: loaded_stanzas_def toOps_def smap_eq_Inr_iff list_all2_conv_all_nth list_all_length split: if_splits)
  with assms(2,3) obtain x where
    "to_op R cv side (external side reqMsg respMsg) (the (yaml_stanza (CoerceArgs f t))) = Inr x"
    by (auto simp: list_all_iff)
  with t show False by (auto simp: block_defs result_simps split: if_splits)
qed

lemma coerce_mem: "coerce_stanza (props_of old_order) (props_of new_order) ''qty'' \<in> set order_draft"
  by code_simp

lemma drafted_coerce_refused_witness:
  "\<nexists>ops. loaded_stanzas order_messages ''v1'' ''request'' None None order_draft ops"
proof -
  have "field_type_of (props_of new_order) ''qty'' \<noteq> ''string''" by code_simp
  from drafted_coerce_refused [OF order_drafted coerce_mem drafted_args(3) this] show ?thesis by blast
qed

definition first_order :: schema where
  "first_order = shape [(''userName'', Some (typed_schema ''string'')), (''age'', Some (typed_schema ''integer''))]"

definition second_order :: schema where
  "second_order =
     shape [(''age'', Some (typed_schema ''integer'')), (''user_name'', Some (typed_schema ''string'')),
            (''active'', Some (typed_schema ''boolean''))]"

definition small_draft :: "stanza_proposal list" where
  "small_draft = fst (draftDirection (Some first_order) (Some second_order) ''request'' False)"

definition small_ops :: "op list" where
  "small_ops = [Rename [fld ''userName''] [fld ''user_name''], Default [fld ''active''] (JBool False)]"

definition small_body :: obj where
  "small_body = fmupd ''userName'' (JStr ''ann'') (fmupd ''age'' (JNum 0) fmempty)"

lemma drafted_shim_reshapes_witness:
  "\<exists>m'. apply_ops no_text (fail_as True) small_ops small_body = Inr m' \<and>
     fmdom' m' = {''age'', ''user_name'', ''active''}"
proof -
  have d: "draftDirection (Some first_order) (Some second_order) ''request'' False = (small_draft, [], [])"
    by code_simp
  have t: "props_of first_order = topLevelProperties (Some first_order)"
    "props_of second_order = topLevelProperties (Some second_order)"
    by (simp_all add: topLevelProperties_def)
  have k: "distinct (map fst (props_of first_order))" "distinct (map fst (props_of second_order))"
    "list_all plain_name (map fst (props_of first_order) @ map fst (props_of second_order))"
    "loaded_stanzas order_messages ''v1'' ''request'' None None small_draft small_ops"
    "type_changes (props_of first_order) (props_of second_order) = []"
    by code_simp+
  have "fmdom' small_body = fst ` set (props_of first_order)"
    by (auto simp: small_body_def first_order_def shape_def props_of_def)
  from drafted_shim_reshapes [OF d t k(1-4) this, of no_text "fail_as True"] k(5) show ?thesis
    by (auto simp: second_order_def shape_def props_of_def)
qed

section \<open>Unedited drafts\<close>

lemma str_contains_append:
  "str_contains s sub \<Longrightarrow> str_contains (p @ s @ q) sub"
  unfolding str_contains_sublist sublist_def by (metis append.assoc)

lemma candidate_marked: "str_contains (render_candidate side c) candidatesBlockMarker"
proof -
  have "render_candidate side c = ''      '' @ candidatesBlockMarker @ drop 22 (render_candidate side c)"
    by (simp add: render_candidate_def candidatesBlockMarker_def)
  moreover have "str_contains candidatesBlockMarker candidatesBlockMarker" by (simp add: candidatesBlockMarker_def)
  ultimately show ?thesis by (metis str_contains_append)
qed

text \<open>A draft with candidates that is committed unedited is refused by \<open>Verify\<close>.\<close>

lemma candidates_refused:
  assumes "sp_request_candidates p \<noteq> [] \<or> sp_response_candidates p \<noteq> []"
    and "ReadFile root [fileResolution] = Inr (before @ RenderYAML today p date @ after)"
  shows "\<exists>e. Verify L dir root = Inl e"
proof -
  have side: "str_contains (renderDirection key props cands side) candidatesBlockMarker" if "cands \<noteq> []"
    for key props cands side
  proof -
    obtain c cs where "cands = c # cs" using \<open>cands \<noteq> []\<close> by (meson neq_Nil_conv)
    then have "renderDirection key props cands side =
      (line (key @ '':'') @ concat (map render_stanza props)) @ render_candidate side c @
      concat (map (render_candidate side) cs)"
      by (simp add: renderDirection_def)
    then show ?thesis using candidate_marked str_contains_append by metis
  qed
  have "str_contains (RenderYAML today p date) candidatesBlockMarker"
  proof -
    obtain h where h: "RenderYAML today p date =
      h @ renderDirection ''    request'' (sp_request p) (sp_request_candidates p) ''request'' @
      renderDirection ''    response'' (sp_response p) (sp_response_candidates p) ''response''"
      unfolding RenderYAML_def Let_def by (metis append.assoc)
    show ?thesis
      using assms(1) side str_contains_append [of _ candidatesBlockMarker h]
        str_contains_append [of "renderDirection ''    response'' (sp_response p) (sp_response_candidates p) ''response''"
          candidatesBlockMarker "h @ renderDirection ''    request'' (sp_request p) (sp_request_candidates p) ''request''" "[]"]
      unfolding h by auto
  qed
  then have "str_contains (before @ RenderYAML today p date @ after) candidatesBlockMarker"
    by (rule str_contains_append)
  then show ?thesis
    by (cases "Load L dir root") (auto simp: Verify_def verifyNoUnresolvedCandidates_def assms(2))
qed

end
