(* ===== verification/Gen_Lowering.thy ===== *)
theory Gen_Lowering
  imports Gen_Fields
begin

text \<open>
  What the lowering of a property to a proto3 field is meant to be, as rules over the shape of the
  schema, apart from the code of \<open>internal/bundlegen/bundlegen.go\<close>; and that its predicates on schemas
  decide these shapes.
\<close>

section \<open>Shapes of schemas\<close>

text \<open>The nullable idiom: two members, in either order, one of them the null marker and the other a
  reference or a scalar.\<close>

definition null_marker :: "schema option \<Rightarrow> bool" where
  "null_marker m = (\<exists>s. m = Some s \<and> s_type s = ''null'' \<and> s_ref s = '''')"

definition scalar_names :: "string set" where
  "scalar_names = {''string'', ''boolean'', ''integer'', ''number''}"

definition nullable_of :: "schema \<Rightarrow> schema \<Rightarrow> bool" where
  "nullable_of sc t =
     ((\<exists>n. (s_anyOf sc = [Some t, n] \<or> s_anyOf sc = [n, Some t]) \<and> null_marker n) \<and>
      \<not> null_marker (Some t) \<and> (s_ref t \<noteq> '''' \<or> s_type t \<in> scalar_names))"

text \<open>A schema that says nothing.\<close>

definition unconstrained :: "schema \<Rightarrow> bool" where
  "unconstrained sc =
     (sc = Schema '''' '''' '''' False (s_properties sc) None [] [] [] None (s_discriminator sc) \<and>
      s_properties sc \<in> {None, Some []} \<and> s_discriminator sc \<in> {None, Some ''''})"

definition tagged :: "schema \<Rightarrow> bool" where
  "tagged sc = (raw_trim (s_discriminator sc) \<notin> {'''', ''null''})"

text \<open>Objects without declared properties that take any others, and unions with a discriminator: a
  \<open>Struct\<close>; unions without one, but for the nullable idiom, and schemas that say nothing: a \<open>Value\<close>.\<close>

definition open_additional :: "unmarshal \<Rightarrow> string option \<Rightarrow> bool" where
  "open_additional um raw =
     (raw = None \<or> raw_trim raw = ''true'' \<or>
      (\<exists>text v. raw_trim raw = CHR ''{'' # text \<and> um (raw_trim raw) = Some v \<and> unconstrained v))"

definition struct_shape :: "unmarshal \<Rightarrow> schema \<Rightarrow> bool" where
  "struct_shape um sc =
     (s_type sc = ''object'' \<and> s_properties sc \<in> {None, Some []} \<and> open_additional um (s_additional sc) \<or>
      tagged sc \<and> (s_oneOf sc \<noteq> [] \<or> s_anyOf sc \<noteq> []))"

definition value_shape :: "schema \<Rightarrow> bool" where
  "value_shape sc =
     (\<not> tagged sc \<and> (s_oneOf sc \<noteq> [] \<or> s_anyOf sc \<noteq> [] \<and> (\<nexists>t. nullable_of sc t)) \<or> unconstrained sc)"

inductive dynamic :: "unmarshal \<Rightarrow> schema \<Rightarrow> string \<Rightarrow> bool" for um sc where
  dynamic_struct: "struct_shape um sc \<Longrightarrow> dynamic um sc ''google.protobuf.Struct''"
| dynamic_value: "\<not> struct_shape um sc \<Longrightarrow> value_shape sc \<Longrightarrow> dynamic um sc ''google.protobuf.Value''"

text \<open>A reference to a component that is no object, and what a member of a collection stands for.\<close>

definition alias_of :: "gen_context \<Rightarrow> schema \<Rightarrow> schema \<Rightarrow> bool" where
  "alias_of cx sc t =
     (s_ref sc \<noteq> '''' \<and> cx_components cx (refName (s_ref sc)) = Some t \<and>
      \<not> (s_type t = ''object'' \<and> (\<exists>ps. s_properties t = Some ps)))"

definition member_of :: "gen_context \<Rightarrow> schema \<Rightarrow> schema \<Rightarrow> bool" where
  "member_of cx sc t = (alias_of cx sc t \<or> t = sc \<and> (\<nexists>u. alias_of cx sc u))"

text \<open>A typed dictionary.\<close>

definition dict_of :: "unmarshal \<Rightarrow> schema \<Rightarrow> schema \<Rightarrow> bool" where
  "dict_of um sc v =
     (s_type sc = ''object'' \<and> s_properties sc \<in> {None, Some []} \<and>
      (\<exists>text. raw_trim (s_additional sc) = CHR ''{'' # text \<and> um (raw_trim (s_additional sc)) = Some v) \<and>
      (s_ref v \<noteq> '''' \<or> s_type v \<in> scalar_names))"

section \<open>The rules\<close>

text \<open>A field is single, repeated, or a map with string keys; its type, and the name of the type of a
  message.\<close>

datatype kind = Single field_type string | Many field_type string | Dict field_type string

fun is_single :: "kind \<Rightarrow> bool" where
  "is_single (Single t tn) = True"
| "is_single _ = False"

fun is_dict :: "kind \<Rightarrow> bool" where
  "is_dict (Dict t tn) = True"
| "is_dict _ = False"

text \<open>Scalars on their own and as values of a map, and scalars in an array, where the format is not
  looked at.\<close>

inductive scalar :: "string \<Rightarrow> string \<Rightarrow> field_type \<Rightarrow> bool" where
  "scalar ''string'' fmt TString"
| "scalar ''boolean'' fmt TBool"
| "scalar ''integer'' ''int64'' TInt64"
| "fmt \<noteq> ''int64'' \<Longrightarrow> scalar ''integer'' fmt TInt32"
| "scalar ''number'' ''float'' TFloat"
| "fmt \<noteq> ''float'' \<Longrightarrow> scalar ''number'' fmt TDouble"

inductive_simps scalar_simps: "scalar ty fmt t"

inductive item_scalar :: "string \<Rightarrow> field_type \<Rightarrow> bool" where
  "item_scalar ''string'' TString"
| "item_scalar ''boolean'' TBool"
| "item_scalar ''integer'' TInt64"
| "item_scalar ''number'' TDouble"

inductive_simps item_scalar_simps: "item_scalar ty t"

inductive item_type :: "gen_context \<Rightarrow> schema \<Rightarrow> field_type \<Rightarrow> string \<Rightarrow> bool" for cx sc where
  item_dynamic: "dynamic (cx_unmarshal cx) sc w \<Longrightarrow> item_type cx sc TMessage (CHR ''.'' # w)"
| item_message: "\<nexists>w. dynamic (cx_unmarshal cx) sc w \<Longrightarrow> s_ref sc \<noteq> '''' \<Longrightarrow>
    item_type cx sc TMessage (''.'' @ cx_package cx @ ''.'' @ cx_names cx (refName (s_ref sc)))"
| item_plain: "\<nexists>w. dynamic (cx_unmarshal cx) sc w \<Longrightarrow> s_ref sc = '''' \<Longrightarrow> item_scalar (s_type sc) t \<Longrightarrow>
    item_type cx sc t ''''"

inductive value_type :: "gen_context \<Rightarrow> schema \<Rightarrow> field_type \<Rightarrow> string \<Rightarrow> bool" for cx sc where
  value_message: "s_ref sc \<noteq> '''' \<Longrightarrow>
    value_type cx sc TMessage (''.'' @ cx_package cx @ ''.'' @ cx_names cx (refName (s_ref sc)))"
| value_plain: "s_ref sc = '''' \<Longrightarrow> scalar (s_type sc) (s_format sc) t \<Longrightarrow> value_type cx sc t ''''"

text \<open>A property whose schema none of the first rules applies to.\<close>

definition static :: "gen_context \<Rightarrow> schema \<Rightarrow> bool" where
  "static cx sc = ((\<nexists>t. nullable_of sc t) \<and> (\<nexists>w. dynamic (cx_unmarshal cx) sc w))"

inductive lowers :: "gen_context \<Rightarrow> schema \<Rightarrow> kind \<Rightarrow> bool \<Rightarrow> bool" for cx where
  lowers_nullable: "nullable_of sc t \<Longrightarrow> lowers cx t k b \<Longrightarrow> lowers cx sc k True"
| lowers_dynamic: "\<nexists>t. nullable_of sc t \<Longrightarrow> dynamic (cx_unmarshal cx) sc w \<Longrightarrow>
    lowers cx sc (Single TMessage (CHR ''.'' # w)) False"
| lowers_alias: "static cx sc \<Longrightarrow> alias_of cx sc t \<Longrightarrow> lowers cx t k b \<Longrightarrow> lowers cx sc k b"
| lowers_message: "static cx sc \<Longrightarrow> s_ref sc \<noteq> '''' \<Longrightarrow> \<nexists>t. alias_of cx sc t \<Longrightarrow>
    lowers cx sc (Single TMessage (''.'' @ cx_package cx @ ''.'' @ cx_names cx (refName (s_ref sc)))) False"
| lowers_scalar: "static cx sc \<Longrightarrow> s_ref sc = '''' \<Longrightarrow> scalar (s_type sc) (s_format sc) t \<Longrightarrow>
    lowers cx sc (Single t '''') (s_nullable sc)"
| lowers_array: "static cx sc \<Longrightarrow> s_ref sc = '''' \<Longrightarrow> s_type sc = ''array'' \<Longrightarrow> s_items sc = Some i \<Longrightarrow>
    member_of cx i j \<Longrightarrow> item_type cx j t tn \<Longrightarrow> lowers cx sc (Many t tn) False"
| lowers_dict: "static cx sc \<Longrightarrow> s_ref sc = '''' \<Longrightarrow> dict_of (cx_unmarshal cx) sc v \<Longrightarrow>
    member_of cx v u \<Longrightarrow> value_type cx u t tn \<Longrightarrow> lowers cx sc (Dict t tn) False"

text \<open>The field of a kind, with the entry message of a map.\<close>

fun field_of :: "gen_context \<Rightarrow> field_args \<Rightarrow> kind \<Rightarrow> field_desc \<times> message_desc option" where
  "field_of cx a (Single t tn) =
     (\<lparr>fd_name = fa_name a, fd_number = fa_number a, fd_label = LOptional, fd_type = Some t, fd_type_name = tn,
       fd_json_name = fa_key a, fd_oneof = None, fd_proto3_optional = False\<rparr>, None)"
| "field_of cx a (Many t tn) =
     (\<lparr>fd_name = fa_name a, fd_number = fa_number a, fd_label = LRepeated, fd_type = Some t, fd_type_name = tn,
       fd_json_name = fa_key a, fd_oneof = None, fd_proto3_optional = False\<rparr>, None)"
| "field_of cx a (Dict t tn) =
     (let entry = mapEntryName (fa_name a) in
       (\<lparr>fd_name = fa_name a, fd_number = fa_number a, fd_label = LRepeated, fd_type = Some TMessage,
         fd_type_name = ''.'' @ cx_package cx @ ''.'' @ fa_message a @ ''.'' @ entry,
         fd_json_name = fa_key a, fd_oneof = None, fd_proto3_optional = False\<rparr>,
        Some (Message entry
          [\<lparr>fd_name = ''key'', fd_number = 1, fd_label = LOptional, fd_type = Some TString, fd_type_name = '''',
             fd_json_name = ''key'', fd_oneof = None, fd_proto3_optional = False\<rparr>,
           \<lparr>fd_name = ''value'', fd_number = 2, fd_label = LOptional, fd_type = Some t, fd_type_name = tn,
             fd_json_name = ''value'', fd_oneof = None, fd_proto3_optional = False\<rparr>] [] [] True)))"

text \<open>The schemas a property is followed to; a property ends when no chain of them goes on for ever.\<close>

definition leads_to :: "gen_context \<Rightarrow> schema \<Rightarrow> schema \<Rightarrow> bool" where
  "leads_to cx sc t = (nullable_of sc t \<or> static cx sc \<and> alias_of cx sc t)"

inductive ends :: "gen_context \<Rightarrow> schema \<Rightarrow> bool" for cx where
  "(\<And>t. leads_to cx sc t \<Longrightarrow> ends cx t) \<Longrightarrow> ends cx sc"

section \<open>The code's predicates decide the shapes\<close>

lemma scalar_names [simp]: "scalar_type t \<longleftrightarrow> t \<in> scalar_names"
  by (simp add: scalar_type_def scalar_names_def)

lemma null_marker [simp]: "isNullType m \<longleftrightarrow> null_marker m"
  by (simp add: isNullType_def null_marker_def split: option.split)

lemma nullable_iff: "nullableAnyOf sc = Some t \<longleftrightarrow> nullable_of sc t"
proof (cases "\<exists>a b. s_anyOf sc = [a, b]")
  case True
  then obtain a b where ab: "s_anyOf sc = [a, b]" by blast
  have "\<not> null_marker None" by (simp add: null_marker_def)
  then show ?thesis
    by (auto simp: nullableAnyOf_def nullable_of_def ab isNullableLeaf_def split: option.splits)
next
  case False
  then have "length (s_anyOf sc) \<noteq> 2" by (auto simp: length_Suc_conv numeral_2_eq_2)
  with False show ?thesis by (auto simp: nullableAnyOf_def nullable_of_def)
qed

lemma nullable_None: "nullableAnyOf sc = None \<longleftrightarrow> (\<nexists>t. nullable_of sc t)"
  by (metis nullable_iff not_None_eq)

lemma no_props: "props_of sc = [] \<longleftrightarrow> s_properties sc \<in> {None, Some []}"
  by (auto simp: props_of_def split: option.split)

lemma unconstrained_iff: "isEmptySchema sc \<longleftrightarrow> unconstrained sc"
proof -
  have "isEmptySchema (Schema r ty f n ps i ao oo yo ap d) \<longleftrightarrow> unconstrained (Schema r ty f n ps i ao oo yo ap d)"
    for r ty f n ps i ao oo yo ap d
    unfolding isEmptySchema_def unconstrained_def no_props schema.sel schema.inject by blast
  then show ?thesis by (cases sc) (simp only:)
qed

lemma tagged_iff: "hasDiscriminator sc \<longleftrightarrow> tagged sc"
  by (simp add: hasDiscriminator_def tagged_def Let_def)

lemma braced: "s \<noteq> '''' \<and> hd s = c \<longleftrightarrow> (\<exists>t. s = c # t)"
  by (cases s) auto

lemma open_iff: "isOpenObject um sc \<longleftrightarrow>
    s_type sc = ''object'' \<and> s_properties sc \<in> {None, Some []} \<and> open_additional um (s_additional sc)"
  by (cases "raw_trim (s_additional sc)")
    (auto simp: isOpenObject_def no_props open_additional_def additionalPropertiesOpen_def Let_def
      unconstrained_iff split: option.splits)

lemma struct_iff: "isOpenObject um sc \<or> isDiscriminatedUnion sc \<longleftrightarrow> struct_shape um sc"
  by (simp add: open_iff isDiscriminatedUnion_def tagged_iff struct_shape_def)

lemma value_iff: "isUntaggedUnion sc \<or> isEmptySchema sc \<longleftrightarrow> value_shape sc"
  by (auto simp: isUntaggedUnion_def tagged_iff value_shape_def unconstrained_iff nullable_None)

lemma dynamic_iff: "wktMessageName um sc = w \<and> w \<noteq> '''' \<longleftrightarrow> dynamic um sc w"
  by (auto simp: wktMessageName_def struct_iff value_iff structFullName_def valueFullName_def
      intro: dynamic.intros elim: dynamic.cases)

lemma not_dynamic: "wktMessageName um sc = '''' \<longleftrightarrow> (\<nexists>w. dynamic um sc w)"
  by (metis dynamic_iff)

lemma alias_iff: "inline_target cx sc = Some t \<longleftrightarrow> alias_of cx sc t"
  by (auto simp: inline_target_def alias_of_def isMessageComponent_def split: option.splits)

lemma alias_None: "inline_target cx sc = None \<longleftrightarrow> (\<nexists>t. alias_of cx sc t)"
  by (metis alias_iff not_None_eq)

lemma member_iff: "(case inline_target cx sc of Some t \<Rightarrow> t | None \<Rightarrow> sc) = j \<longleftrightarrow> member_of cx sc j"
proof (cases "inline_target cx sc")
  case None
  then have "\<nexists>u. alias_of cx sc u" by (rule alias_None [THEN iffD1])
  then show ?thesis by (auto simp: None member_of_def)
next
  case (Some t)
  then have "alias_of cx sc u \<longleftrightarrow> u = t" for u using alias_iff [of cx sc u] by auto
  then show ?thesis by (auto simp: Some member_of_def)
qed

lemma scalar_iff: "scalar_field_type sc = Some t \<longleftrightarrow> scalar (s_type sc) (s_format sc) t"
  by (auto simp: scalar_field_type_def scalar_simps)

lemma item_scalar_iff: "item_field_type sc = Some t \<longleftrightarrow> item_scalar (s_type sc) t"
  by (auto simp: item_field_type_def item_scalar_simps)

lemma dict_iff: "s_type sc = ''object'' \<Longrightarrow>
    mapValueSchema (cx_unmarshal cx) (s_additional sc) = Some v \<and> props_of sc = [] \<longleftrightarrow>
    dict_of (cx_unmarshal cx) sc v"
  by (cases "raw_trim (s_additional sc)")
    (auto simp: mapValueSchema_def dict_of_def no_props Let_def split: option.splits if_splits)

end
