(* ===== verification/Gen_Messages.thy ===== *)
theory Gen_Messages
  imports Gen_Lowering
begin

text \<open>
  What the lowering of \<open>internal/bundlegen/bundlegen.go\<close> produces: which schema a property ends at and
  when following it ends at all, and the shape of every message.
\<close>

section \<open>Following a property to the schema that is lowered\<close>

text \<open>The branch \<open>buildField\<close> takes when it does not call itself.\<close>

definition leaf_field :: "gen_context \<Rightarrow> field_args \<Rightarrow> schema \<Rightarrow> built" where
  "leaf_field cx a sc =
     (if wktMessageName (cx_unmarshal cx) sc \<noteq> '''' then
        singular_message a (''.'' @ wktMessageName (cx_unmarshal cx) sc)
      else if s_ref sc \<noteq> '''' then singular_message a (message_ref cx (s_ref sc))
      else typed_field cx a sc)"

text \<open>The schema a call passes on, and whether it marks the field optional on the way back.\<close>

definition next_schema :: "gen_context \<Rightarrow> schema \<Rightarrow> (schema \<times> bool) option" where
  "next_schema cx sc =
     (case nullableAnyOf sc of
        Some inner \<Rightarrow> Some (inner, True)
      | None \<Rightarrow>
          if wktMessageName (cx_unmarshal cx) sc \<noteq> '''' then None
          else map_option (\<lambda>t. (t, False)) (inline_target cx sc))"

inductive resolves :: "gen_context \<Rightarrow> schema \<Rightarrow> schema \<Rightarrow> bool \<Rightarrow> bool" for cx where
  resolves_here: "next_schema cx sc = None \<Longrightarrow> resolves cx sc sc False"
| resolves_next: "next_schema cx sc = Some (t, m) \<Longrightarrow> resolves cx t e b \<Longrightarrow> resolves cx sc e (m \<or> b)"

inductive_cases resolvesE: "resolves cx sc e b"

lemma inline_target_no_ref: "inline_target cx sc = Some t \<Longrightarrow> s_ref sc \<noteq> ''''"
  by (auto simp: inline_target_def split: if_splits)

lemma buildField_step:
  "buildField cx a sc =
     (case next_schema cx sc of
        None \<Rightarrow> Some (leaf_field cx a sc)
      | Some (t, m) \<Rightarrow> map_option (if m then mark_optional else (\<lambda>r. r)) (buildField cx a t))"
proof (cases "nullableAnyOf sc")
  case None
  show ?thesis
    by (subst buildField.simps)
      (use None in \<open>auto simp: next_schema_def leaf_field_def option.map_ident
         dest: inline_target_no_ref split: option.split\<close>)
next
  case (Some inner)
  show ?thesis
    by (subst buildField.simps) (simp add: Some next_schema_def map_conv_bind_option comp_def)
qed

lemma mark_optional_idem [simp]: "mark_optional (mark_optional r) = mark_optional r"
  by (cases r) auto

lemma resolves_builds:
  "resolves cx sc e b \<Longrightarrow>
   buildField cx a sc = Some (if b then mark_optional (leaf_field cx a e) else leaf_field cx a e)"
proof (induction rule: resolves.induct)
  case (resolves_next sc t m e b)
  then show ?case by (subst buildField_step) auto
qed (subst buildField_step, simp)

lemma builds_resolves:
  assumes "buildField cx a sc = Some r"
  shows "\<exists>e b. resolves cx sc e b"
proof -
  show ?thesis
  proof (rule buildField.raw_induct [where P = "\<lambda>cx a sc r. \<exists>e b. resolves cx sc e b", OF _ assms], goal_cases)
    case (1 f cx a sc r)
    show ?case
    proof (cases "next_schema cx sc")
      case None
      then show ?thesis by (blast intro: resolves_here)
    next
      case (Some tm)
      obtain t m where tm: "tm = (t, m)" by fastforce
      have "\<exists>r. f cx a t = Some r"
        using 1(2) Some tm
        by (auto simp: next_schema_def bind_eq_Some_conv dest: inline_target_no_ref split: option.splits if_splits)
      with 1(1) obtain e b where "resolves cx t e b" by blast
      with Some show ?thesis by (auto simp: tm intro: resolves_next)
    qed
  qed
qed

lemma resolves_unique:
  "resolves cx sc e b \<Longrightarrow> resolves cx sc e' b' \<Longrightarrow> e' = e \<and> b' = b"
proof (induction arbitrary: e' b' rule: resolves.induct)
  case (resolves_here sc)
  from resolves_here(2,1) show ?case by (cases rule: resolves.cases) auto
next
  case (resolves_next sc t m e b)
  from resolves_next(4,1) show ?case by (cases rule: resolves.cases) (auto dest: resolves_next(3))
qed

text \<open>The steps of the code are the ones of the rules.\<close>

lemma next_iff:
  "next_schema cx sc = Some (t, m) \<longleftrightarrow> m \<and> nullable_of sc t \<or> \<not> m \<and> static cx sc \<and> alias_of cx sc t"
proof (cases "nullableAnyOf sc")
  case None
  have n: "\<nexists>t. nullable_of sc t" by (rule nullable_None [THEN iffD1, OF None])
  show ?thesis
  proof (cases "wktMessageName (cx_unmarshal cx) sc = ''''")
    case True
    then have "static cx sc" using n by (simp add: static_def not_dynamic)
    with n True show ?thesis by (auto simp: next_schema_def None alias_iff)
  next
    case False
    then have "\<not> static cx sc" by (simp add: static_def not_dynamic)
    with n False show ?thesis by (auto simp: next_schema_def None)
  qed
next
  case (Some u)
  have n: "nullable_of sc t \<longleftrightarrow> t = u" for t using Some nullable_iff [of sc t] by auto
  then have "\<not> static cx sc" by (auto simp: static_def)
  with n show ?thesis by (auto simp: next_schema_def Some)
qed

lemma next_None:
  assumes "next_schema cx sc = None"
  shows "(\<nexists>t. nullable_of sc t) \<and> (\<not> static cx sc \<or> (\<nexists>t. alias_of cx sc t))"
  using assms next_iff [of cx sc] by (metis option.distinct(1))

lemma leads_next: "leads_to cx sc t \<longleftrightarrow> (\<exists>m. next_schema cx sc = Some (t, m))"
  by (auto simp: leads_to_def next_iff)

lemma array_lowers:
  "array_field cx a sc = Inr (f, b, nested) \<longleftrightarrow>
     (\<exists>i j t tn. s_items sc = Some i \<and> member_of cx i j \<and> item_type cx j t tn \<and> \<not> b \<and>
        field_of cx a (Many t tn) = (f, nested))"
proof (cases "s_items sc")
  case (Some i)
  define j where "j = (case inline_target cx i of Some t \<Rightarrow> t | None \<Rightarrow> i)"
  then have m: "member_of cx i k \<longleftrightarrow> k = j" for k using member_iff [where cx = cx and sc = i and j = k] by auto
  define ty where "ty = (if wktMessageName (cx_unmarshal cx) j \<noteq> '''' then
        Some (TMessage, ''.'' @ wktMessageName (cx_unmarshal cx) j)
      else if s_ref j \<noteq> '''' then Some (TMessage, message_ref cx (s_ref j))
      else map_option (\<lambda>t. (t, '''')) (item_field_type j))"
  have "item_type cx j t tn \<longleftrightarrow> ty = Some (t, tn)" for t tn
  proof (cases "wktMessageName (cx_unmarshal cx) j = ''''")
    case True
    have "\<not> dynamic (cx_unmarshal cx) j w" for w using dynamic_iff [of "cx_unmarshal cx" j w] True by auto
    with True show ?thesis
      by (auto simp: ty_def item_type.simps item_scalar_iff message_ref_def)
  next
    case False
    then have "dynamic (cx_unmarshal cx) j w \<longleftrightarrow> w = wktMessageName (cx_unmarshal cx) j" for w
      using dynamic_iff [of "cx_unmarshal cx" j w] by auto
    with False show ?thesis by (auto simp: ty_def item_type.simps)
  qed
  moreover have "array_field cx a sc = Inr (f, b, nested) \<longleftrightarrow>
      (\<exists>t tn. ty = Some (t, tn) \<and> \<not> b \<and> field_of cx a (Many t tn) = (f, nested))"
    by (auto simp: array_field_def Some Let_def ty_def plain_field_def simp flip: j_def split: option.splits)
  ultimately show ?thesis by (simp add: Some m)
qed (simp add: array_field_def)

lemma map_lowers:
  "buildMapField cx a v = Inr (f, b, nested) \<longleftrightarrow>
     (\<exists>u t tn. member_of cx v u \<and> value_type cx u t tn \<and> \<not> b \<and> field_of cx a (Dict t tn) = (f, nested))"
proof -
  define u where "u = (case inline_target cx v of Some t \<Rightarrow> t | None \<Rightarrow> v)"
  then have m: "member_of cx v k \<longleftrightarrow> k = u" for k using member_iff [where cx = cx and sc = v and j = k] by auto
  show ?thesis
    by (auto simp: m value_type.simps buildMapField_def message_ref_def plain_field_def Let_def result_simps
        simp flip: scalar_iff u_def split: option.splits if_splits)
qed

lemma typed_lowers:
  assumes st: "static cx sc" "s_ref sc = ''''"
  shows "typed_field cx a sc = Inr (f, b, nested) \<longleftrightarrow>
     (\<exists>k. lowers cx sc k b \<and> field_of cx a k = (f, nested))"
proof -
  have no: "\<not> nullable_of sc t" "\<not> dynamic (cx_unmarshal cx) sc w" "\<not> alias_of cx sc t" for t w
    using st by (auto simp: static_def alias_of_def)
  have rules: "lowers cx sc k b \<longleftrightarrow>
      (\<exists>t. scalar (s_type sc) (s_format sc) t \<and> b = s_nullable sc \<and> k = Single t '''') \<or>
      (\<exists>i j t tn. s_type sc = ''array'' \<and> s_items sc = Some i \<and> member_of cx i j \<and> item_type cx j t tn \<and> \<not> b \<and>
         k = Many t tn) \<or>
      (\<exists>v u t tn. dict_of (cx_unmarshal cx) sc v \<and> member_of cx v u \<and> value_type cx u t tn \<and> \<not> b \<and> k = Dict t tn)" for k
    by (subst lowers.simps) (auto simp: st no)
  show ?thesis
  proof (cases "scalar_field_type sc")
    case (Some t)
    then have sc: "scalar (s_type sc) (s_format sc) u \<longleftrightarrow> u = t" for u using scalar_iff [of sc u] by auto
    have "scalar (s_type sc) (s_format sc) t" using sc by simp
    then have "s_type sc \<noteq> ''array'' \<and> s_type sc \<noteq> ''object''" by (auto elim: scalar.cases)
    then show ?thesis by (auto simp: typed_field_def Some rules sc dict_of_def plain_field_def)
  next
    case None
    then have sc: "\<not> scalar (s_type sc) (s_format sc) u" for u using scalar_iff [of sc u] by auto
    show ?thesis
    proof (cases "s_type sc = ''object''")
      case True
      note d = dict_iff [OF True, of cx]
      show ?thesis
      proof (cases "\<exists>v. dict_of (cx_unmarshal cx) sc v")
        case True
        then obtain v where v: "dict_of (cx_unmarshal cx) sc v" by blast
        with d [of v] have "mapValueSchema (cx_unmarshal cx) (s_additional sc) = Some v" "props_of sc = []" by simp_all
        from d have dv: "dict_of (cx_unmarshal cx) sc u \<longleftrightarrow> u = v" for u
          using \<open>mapValueSchema _ _ = _\<close> \<open>props_of sc = _\<close> by (metis option.inject)
        have "lowers cx sc k b \<longleftrightarrow>
            (\<exists>u t tn. member_of cx v u \<and> value_type cx u t tn \<and> \<not> b \<and> k = Dict t tn)" for k
          using sc by (simp add: rules dv \<open>s_type sc = _\<close>)
        moreover have "typed_field cx a sc = buildMapField cx a v"
          using \<open>mapValueSchema _ _ = _\<close> \<open>props_of sc = _\<close> by (simp add: typed_field_def None \<open>s_type sc = _\<close>)
        ultimately show ?thesis by (simp only: map_lowers) blast
      next
        case False
        with d show ?thesis
          using \<open>s_type sc = _\<close> sc by (auto simp: typed_field_def None rules split: option.split)
      qed
    next
      case False
      then have l: "lowers cx sc k b \<longleftrightarrow> s_type sc = ''array'' \<and>
          (\<exists>i j t tn. s_items sc = Some i \<and> member_of cx i j \<and> item_type cx j t tn \<and> \<not> b \<and> k = Many t tn)" for k
        by (simp add: rules sc dict_of_def)
      show ?thesis
      proof (cases "s_type sc = ''array''")
        case True
        then have "typed_field cx a sc = array_field cx a sc" by (simp add: typed_field_def None)
        with True show ?thesis unfolding l by (simp only: array_lowers) blast
      qed (use False in \<open>simp add: typed_field_def None l\<close>)
    qed
  qed
qed

lemma leaf_lowers:
  assumes "next_schema cx sc = None"
  shows "leaf_field cx a sc = Inr (f, b, nested) \<longleftrightarrow> (\<exists>k. lowers cx sc k b \<and> field_of cx a k = (f, nested))"
proof -
  have n: "\<not> nullable_of sc t" "static cx sc \<Longrightarrow> \<not> alias_of cx sc t" for t
    using next_None [OF assms] by auto
  show ?thesis
  proof (cases "wktMessageName (cx_unmarshal cx) sc = ''''")
    case False
    then have d: "dynamic (cx_unmarshal cx) sc w \<longleftrightarrow> w = wktMessageName (cx_unmarshal cx) sc" for w
      using dynamic_iff [of "cx_unmarshal cx" sc w] by auto
    then have "\<not> static cx sc" by (simp add: static_def)
    then have "lowers cx sc k b \<longleftrightarrow> k = Single TMessage (CHR ''.'' # wktMessageName (cx_unmarshal cx) sc) \<and> \<not> b" for k
      by (subst lowers.simps) (auto simp: n d)
    with False show ?thesis by (auto simp: leaf_field_def singular_message_def plain_field_def)
  next
    case True
    then have d: "\<not> dynamic (cx_unmarshal cx) sc w" for w using dynamic_iff [of "cx_unmarshal cx" sc w] by auto
    then have st: "static cx sc" using n by (simp add: static_def)
    show ?thesis
    proof (cases "s_ref sc = ''''")
      case True
      with typed_lowers [OF st True] \<open>wktMessageName _ _ = _\<close> show ?thesis by (simp add: leaf_field_def)
    next
      case False
      have "lowers cx sc k b \<longleftrightarrow>
          k = Single TMessage (''.'' @ cx_package cx @ ''.'' @ cx_names cx (refName (s_ref sc))) \<and> \<not> b" for k
        by (subst lowers.simps) (auto simp: n d st False)
      with False True show ?thesis
        by (auto simp: leaf_field_def singular_message_def plain_field_def message_ref_def)
    qed
  qed
qed

lemma lowers_along: "resolves cx sc e m \<Longrightarrow> lowers cx e k b \<Longrightarrow> lowers cx sc k (m \<or> b)"
proof (induction rule: resolves.induct)
  case (resolves_next sc t m e b')
  then show ?case by (cases m) (auto simp: next_iff intro: lowers_nullable lowers_alias)
qed simp

lemma built_lowers:
  assumes "buildField cx a sc = Some (Inr (f, b, nested))"
  shows "\<exists>k. lowers cx sc k b \<and> field_of cx a k = (f, nested)"
proof -
  obtain e m where r: "resolves cx sc e m" using builds_resolves [OF assms] by blast
  then have "next_schema cx e = None" by (induction rule: resolves.induct)
  moreover obtain b' where "leaf_field cx a e = Inr (f, b', nested)" "b = (m \<or> b')"
    using resolves_builds [OF r, of a] assms by (cases "leaf_field cx a e") (auto split: if_splits)
  ultimately show ?thesis using leaf_lowers lowers_along [OF r] by blast
qed

lemma no_next: "\<nexists>t. nullable_of sc t \<Longrightarrow> \<not> static cx sc \<or> (\<nexists>t. alias_of cx sc t) \<Longrightarrow> next_schema cx sc = None"
  using next_iff [of cx sc] by (cases "next_schema cx sc") auto

lemma leaf_built:
  assumes "next_schema cx sc = None" and "lowers cx sc k b"
  shows "buildField cx a sc = Some (Inr (fst (field_of cx a k), b, snd (field_of cx a k)))"
  using assms leaf_lowers [OF assms(1), of a "fst (field_of cx a k)" b "snd (field_of cx a k)"]
  by (auto simp: buildField_step [of cx a sc])

lemma lowers_built:
  "lowers cx sc k b \<Longrightarrow> buildField cx a sc = Some (Inr (fst (field_of cx a k), b, snd (field_of cx a k)))"
proof (induction rule: lowers.induct)
  case (lowers_nullable sc t k b)
  then have "next_schema cx sc = Some (t, True)" by (simp add: next_iff)
  with lowers_nullable show ?case by (simp add: buildField_step [of cx a sc])
next
  case (lowers_alias sc t k b)
  then have "next_schema cx sc = Some (t, False)" by (simp add: next_iff)
  with lowers_alias show ?case by (simp add: buildField_step [of cx a sc])
next
  case (lowers_dynamic sc w)
  then have "lowers cx sc (Single TMessage (CHR ''.'' # w)) False" by (intro lowers.lowers_dynamic)
  moreover have "next_schema cx sc = None" using lowers_dynamic by (intro no_next) (auto simp: static_def)
  ultimately show ?case by (intro leaf_built)
next
  case (lowers_message sc)
  then show ?case by (intro leaf_built lowers.lowers_message no_next) (auto simp: static_def)
next
  case (lowers_scalar sc t)
  then show ?case by (intro leaf_built lowers.lowers_scalar no_next) (auto simp: static_def alias_of_def)
next
  case (lowers_array sc i j t tn)
  then show ?case by (intro leaf_built lowers.lowers_array no_next) (auto simp: static_def alias_of_def)
next
  case (lowers_dict sc v u t tn)
  then show ?case by (intro leaf_built lowers.lowers_dict no_next) (auto simp: static_def alias_of_def)
qed

lemma ends_builds: "ends cx sc \<longleftrightarrow> buildField cx a sc \<noteq> None"
proof
  show "ends cx sc \<Longrightarrow> buildField cx a sc \<noteq> None"
  proof (induction rule: ends.induct)
    case (1 sc)
    then show ?case
      by (cases "next_schema cx sc") (auto simp: buildField_step [of cx a sc] leads_next)
  qed
next
  assume "buildField cx a sc \<noteq> None"
  then obtain e m where "resolves cx sc e m" using builds_resolves by blast
  then show "ends cx sc"
    by (induction rule: resolves.induct) (rule ends.intros, auto simp: leads_next)+
qed

text \<open>C30. Lowering a property is exactly what the rules of \<open>Gen_Lowering\<close> say: the call returns a field, an
  optional mark and an entry message just when the rules give the schema a kind and that mark, and they
  are the ones of that kind; so what no rule lowers is refused.  It returns at all exactly when no chain
  of nullable unions and references to components that are no objects goes on for ever.\<close>

theorem buildField_exact:
  "(buildField cx a sc = Some (Inr (f, b, nested)) \<longleftrightarrow>
      (\<exists>k. lowers cx sc k b \<and> field_of cx a k = (f, nested))) \<and>
   (buildField cx a sc \<noteq> None \<longleftrightarrow> ends cx sc)"
proof (intro conjI iffI)
  assume "\<exists>k. lowers cx sc k b \<and> field_of cx a k = (f, nested)"
  then obtain k where k: "lowers cx sc k b" "field_of cx a k = (f, nested)" by blast
  from lowers_built [OF k(1), of a] k(2) show "buildField cx a sc = Some (Inr (f, b, nested))" by simp
qed (use built_lowers ends_builds in blast)+

text \<open>Two components that are references to each other: the call does not return, though the walk that
  collects the components accepts them.\<close>

definition alias_root :: schema where
  "alias_root =
     Schema '''' ''object'' '''' False (Some [(''a'', Some (ref_schema ''#/components/schemas/A''))])
       None [] [] [] None None"

definition alias_cycle :: "(string \<times> schema option) list" where
  "alias_cycle =
     [(''A'', Some (ref_schema ''#/components/schemas/B'')), (''B'', Some (ref_schema ''#/components/schemas/A'')),
      (''R'', Some alias_root)]"

definition no_json :: "string \<Rightarrow> schema option" where "no_json text = None"

lemma alias_targets:
  "component alias_cycle (refName (s_ref (ref_schema ''#/components/schemas/A''))) = Some (ref_schema ''#/components/schemas/B'')"
  "component alias_cycle (refName (s_ref (ref_schema ''#/components/schemas/B''))) = Some (ref_schema ''#/components/schemas/A'')"
  by code_simp+

lemma ref_schema_plain:
  "r \<noteq> '''' \<Longrightarrow> nullableAnyOf (ref_schema r) = None \<and> wktMessageName um (ref_schema r) = '''' \<and>
   s_ref (ref_schema r) \<noteq> '''' \<and> \<not> isMessageComponent (ref_schema r)"
  by (simp add: ref_schema_def nullableAnyOf_def wktMessageName_def isOpenObject_def isDiscriminatedUnion_def
      hasDiscriminator_def raw_trim_def isUntaggedUnion_def isEmptySchema_def isMessageComponent_def)

lemma alias_next:
  assumes "cx_components cx = component alias_cycle"
  shows "next_schema cx (ref_schema ''#/components/schemas/A'') = Some (ref_schema ''#/components/schemas/B'', False)"
    and "next_schema cx (ref_schema ''#/components/schemas/B'') = Some (ref_schema ''#/components/schemas/A'', False)"
  by (simp_all add: next_schema_def inline_target_def ref_schema_plain assms alias_targets)

lemma alias_field_diverges:
  assumes cx: "cx_components cx = component alias_cycle"
  shows "buildField cx a (ref_schema ''#/components/schemas/A'') = None"
proof -
  have "\<not> resolves cx sc e b"
    if "sc \<in> {ref_schema ''#/components/schemas/A'', ref_schema ''#/components/schemas/B''}" for sc e b
  proof
    assume "resolves cx sc e b"
    then show False using that
      by (induction rule: resolves.induct) (auto simp: alias_next [OF cx])
  qed
  then show ?thesis
    using builds_resolves [of cx a "ref_schema ''#/components/schemas/A''"]
    by (cases "buildField cx a (ref_schema ''#/components/schemas/A'')") auto
qed

lemma alias_cycle_collects: "collectSchemas no_json alias_cycle [''R''] = Some (Inr [(''R'', alias_root)])"
  by code_simp

lemma alias_cycle_diverges: "buildDescriptors lib no_json alias_cycle [''R''] pkg version = None"
proof -
  have "partitionEmpty [''R''] = ([''R''], False)" "message_names [(''R'', alias_root)] False = [''R'']"
    "sort_key fst (props_of alias_root) = [(''a'', Some (ref_schema ''#/components/schemas/A''))]"
    by code_simp+
  then show ?thesis
    by (simp add: buildDescriptors_def alias_cycle_collects buildMessage_def alias_field_diverges Let_def
        split: prod.split)
qed

section \<open>The shape of a message\<close>

text \<open>What proto3 asks of a field, of a map-entry message, and of a message whose fields come from the
  properties \<open>keys\<close>.\<close>

definition field_typed :: "field_desc \<Rightarrow> bool" where
  "field_typed f = (fd_type f \<noteq> None \<and> (fd_type f = Some TMessage \<longleftrightarrow> fd_type_name f \<noteq> ''''))"

definition entry_ok :: "message_desc \<Rightarrow> bool" where
  "entry_ok m =
     (md_map_entry m \<and> map fd_name (md_fields m) = [''key'', ''value''] \<and> map fd_number (md_fields m) = [1, 2] \<and>
      list_all (\<lambda>f. field_typed f \<and> fd_label f = LOptional) (md_fields m))"

definition entry_of :: "gen_context \<Rightarrow> string \<Rightarrow> field_desc \<Rightarrow> message_desc \<Rightarrow> bool" where
  "entry_of cx name f m =
     (md_name m = mapEntryName (fd_name f) \<and> fd_label f = LRepeated \<and>
      fd_type_name f = ''.'' @ cx_package cx @ ''.'' @ name @ ''.'' @ md_name m)"

definition optional_fields :: "field_desc list \<Rightarrow> field_desc list" where
  "optional_fields fs = filter fd_proto3_optional fs"

definition message_ok :: "gen_context \<Rightarrow> string \<Rightarrow> string list \<Rightarrow> message_desc \<Rightarrow> bool" where
  "message_ok cx name keys m =
     (md_name m = name \<and> \<not> md_map_entry m \<and>
      map fd_json_name (md_fields m) = keys \<and>
      map fd_number (md_fields m) = map (\<lambda>i. int i + 1) [0..<length keys] \<and>
      distinct (map fd_name (md_fields m)) \<and> list_all legal_ident (map fd_name (md_fields m)) \<and>
      list_all field_typed (md_fields m) \<and>
      list_all (\<lambda>f. fd_proto3_optional f = (fd_oneof f \<noteq> None)) (md_fields m) \<and>
      map fd_oneof (optional_fields (md_fields m)) = map Some [0..<length (md_oneofs m)] \<and>
      md_oneofs m = map (\<lambda>f. CHR ''_'' # fd_name f) (optional_fields (md_fields m)) \<and>
      list_all (\<lambda>e. entry_ok e \<and> list_ex (\<lambda>f. entry_of cx name f e) (md_fields m)) (md_nested m))"

lemma wkt_cases: "wktMessageName um sc \<in> {'''', structFullName, valueFullName}"
  by (simp add: wktMessageName_def)

text \<open>A built field: named, numbered and keyed as asked, typed, in no oneof yet, with the entry message of a
  map beside it.\<close>

definition field_built :: "gen_context \<Rightarrow> field_args \<Rightarrow> field_desc \<Rightarrow> message_desc option \<Rightarrow> bool" where
  "field_built cx a f nested =
     (fd_name f = fa_name a \<and> fd_number f = fa_number a \<and> fd_json_name f = fa_key a \<and>
      field_typed f \<and> fd_oneof f = None \<and> \<not> fd_proto3_optional f \<and>
      (case nested of None \<Rightarrow> True | Some m \<Rightarrow> entry_ok m \<and> entry_of cx (fa_message a) f m))"

lemmas built_defs = plain_field_def field_typed_def message_ref_def field_built_def

lemma scalar_no_message: "scalar_field_type sc = Some t \<Longrightarrow> t \<noteq> TMessage"
  by (auto simp: scalar_field_type_def split: if_splits)

lemma item_no_message: "item_field_type sc = Some t \<Longrightarrow> t \<noteq> TMessage"
  by (auto simp: item_field_type_def split: if_splits)

lemma array_field_built: "array_field cx a sc = Inr (f, b, nested) \<Longrightarrow> field_built cx a f nested"
  by (auto simp: array_field_def built_defs Let_def dest: item_no_message split: option.splits if_splits)

lemma map_field_built: "buildMapField cx a val = Inr (f, b, nested) \<Longrightarrow> field_built cx a f nested"
  by (auto simp: buildMapField_def built_defs entry_ok_def entry_of_def result_simps Let_def dest: scalar_no_message
      split: option.splits if_splits sum.splits)

lemma typed_field_built: "typed_field cx a sc = Inr (f, b, nested) \<Longrightarrow> field_built cx a f nested"
  unfolding typed_field_def
  by (auto dest: array_field_built map_field_built scalar_no_message split: option.splits if_splits)
    (auto simp: built_defs dest: scalar_no_message)

lemma leaf_field_built: "leaf_field cx a sc = Inr (f, b, nested) \<Longrightarrow> field_built cx a f nested"
  by (auto simp: leaf_field_def singular_message_def dest: typed_field_built split: if_splits)
    (auto simp: built_defs)

lemma buildField_built:
  assumes "buildField cx a sc = Some (Inr (f, b, nested))"
  shows "field_built cx a f nested"
proof -
  obtain e b' where "resolves cx sc e b'" using builds_resolves [OF assms] by blast
  from resolves_builds [OF this, of a] assms show ?thesis
    by (cases "leaf_field cx a e") (auto dest!: leaf_field_built split: if_splits)
qed

text \<open>The state of the loop of \<open>buildMessage\<close> after the keys \<open>done_keys\<close>.\<close>

definition loop_ok :: "gen_context \<Rightarrow> string \<Rightarrow> string list \<Rightarrow> string list \<Rightarrow> message_desc \<Rightarrow> bool" where
  "loop_ok cx name done_keys used m \<longleftrightarrow>
     message_ok cx name done_keys m \<and> set used = fd_name ` set (md_fields m)"

lemma loop_start: "loop_ok cx name [] [] (Message name [] [] [] False)"
  by (simp add: loop_ok_def message_ok_def optional_fields_def)

lemma nested_ext:
  "list_all (\<lambda>e. entry_ok e \<and> list_ex (\<lambda>f. entry_of cx name f e) fs) ns \<Longrightarrow>
   list_all (\<lambda>e. entry_ok e \<and> list_ex (\<lambda>f. entry_of cx name f e) (fs @ [g])) ns"
  by (auto simp: list_all_iff)

lemma loop_step:
  assumes ok: "loop_ok cx name ks used (Message name fs ns os False)"
    and u: "uniqueIdent key used = (fname, used')"
    and f: "field_built cx \<lparr>fa_message = name, fa_key = key, fa_name = fname, fa_number = int (length ks) + 1\<rparr> f nested"
    and f': "f' = (if optional then f\<lparr>fd_oneof := Some (length os), fd_proto3_optional := True\<rparr> else f)"
    and os': "os' = (if optional then os @ [CHR ''_'' # fname] else os)"
    and ns': "ns' = (case nested of None \<Rightarrow> ns | Some m \<Rightarrow> ns @ [m])"
  shows "loop_ok cx name (ks @ [key]) used' (Message name (fs @ [f']) ns' os' False)"
proof -
  note new = uniqueIdent_new [OF u]
  have eqs: "fd_name f' = fname" "fd_json_name f' = key" "fd_number f' = int (length ks) + 1" "field_typed f'"
    "entry_of cx name f' = entry_of cx name f"
    "fd_proto3_optional f' = optional" "fd_oneof f' = (if optional then Some (length os) else None)"
    using f by (auto simp: f' field_built_def field_typed_def entry_of_def fun_eq_iff)
  have nested: "list_all (\<lambda>e. entry_ok e \<and> list_ex (\<lambda>f. entry_of cx name f e) (fs @ [f'])) ns'"
  proof -
    have "list_all (\<lambda>e. entry_ok e \<and> list_ex (\<lambda>f. entry_of cx name f e) (fs @ [f'])) ns"
      using ok by (intro nested_ext) (simp add: loop_ok_def message_ok_def)
    then show ?thesis using f by (auto simp: ns' field_built_def eqs split: option.splits)
  qed
  have used: "set used = fd_name ` set fs" using ok by (simp add: loop_ok_def)
  then have "fname \<notin> fd_name ` set fs" using new(1) by simp
  then show ?thesis
    using ok nested new(3)
    by (simp add: loop_ok_def message_ok_def optional_fields_def eqs os' used new(2))
qed

lemma build_fields_ok:
  assumes "build_fields cx name props (int (length ks) + 1) used fs ns os = Some (Inr m)"
    and "loop_ok cx name ks used (Message name fs ns os False)"
  shows "message_ok cx name (ks @ map fst props) m"
  using assms
proof (induction props arbitrary: ks used fs ns os)
  case Nil
  then show ?case by (auto simp: loop_ok_def)
next
  case (Cons p props)
  obtain key sc where p: "p = (key, sc)" by (cases p)
  obtain fname used' where u: "uniqueIdent key used = (fname, used')" by fastforce
  let ?a = "\<lparr>fa_message = name, fa_key = key, fa_name = fname, fa_number = int (length ks) + 1\<rparr>"
  from Cons.prems(1) obtain s f optional nested where b: "sc = Some s"
    "buildField cx ?a s = Some (Inr (f, optional, nested))"
    by (auto simp: p u split: option.splits sum.splits)
  let ?f = "if optional then f\<lparr>fd_oneof := Some (length os), fd_proto3_optional := True\<rparr> else f"
  let ?os = "if optional then os @ [CHR ''_'' # fname] else os"
  let ?ns = "case nested of None \<Rightarrow> ns | Some m \<Rightarrow> ns @ [m]"
  have "build_fields cx name props (int (length ks) + 1 + 1) used' (fs @ [?f]) ?ns ?os = Some (Inr m)"
    using Cons.prems(1) by (simp add: p u b Let_def)
  moreover have "loop_ok cx name (ks @ [key]) used' (Message name (fs @ [?f]) ?ns ?os False)"
    by (rule loop_step [OF Cons.prems(2) u buildField_built [OF b(2)]]) simp_all
  ultimately have "message_ok cx name ((ks @ [key]) @ map fst props) m"
    by (intro Cons.IH [of "ks @ [key]" used' "fs @ [?f]" ?ns ?os]) (simp_all add: add.commute)
  then show ?case by (simp add: p)
qed

text \<open>The kinds the properties are lowered to, and what the fields and the messages inside are then.\<close>

definition lowered :: "gen_context \<Rightarrow> string \<times> schema option \<Rightarrow> kind \<times> bool \<Rightarrow> bool" where
  "lowered cx p kb = (\<exists>s. snd p = Some s \<and> lowers cx s (fst kb) (snd kb))"

definition label_of :: "kind \<Rightarrow> field_label" where
  "label_of k = (if is_single k then LOptional else LRepeated)"

definition oneof_names :: "(string \<times> kind \<times> bool) list \<Rightarrow> string list" where
  "oneof_names its = [CHR ''_'' # n. (n, k, b) \<leftarrow> its, b]"

definition entry_names :: "(string \<times> kind \<times> bool) list \<Rightarrow> string list" where
  "entry_names its = [mapEntryName n. (n, k, b) \<leftarrow> its, is_dict k]"

definition of_kinds :: "(string \<times> kind \<times> bool) list \<Rightarrow> field_desc list \<Rightarrow> string list \<Rightarrow> message_desc list \<Rightarrow> bool" where
  "of_kinds its fs os ns =
     (map fd_name fs = map fst its \<and>
      map (\<lambda>f. (fd_label f, fd_proto3_optional f)) fs = map (\<lambda>(n, k, b). (label_of k, b)) its \<and>
      os = oneof_names its \<and> map md_name ns = entry_names its)"

lemma field_of_kind:
  "field_of cx a k = (f, nested) \<Longrightarrow>
   fd_name f = fa_name a \<and> fd_label f = label_of k \<and> \<not> fd_proto3_optional f \<and>
   (case nested of None \<Rightarrow> \<not> is_dict k | Some m \<Rightarrow> is_dict k \<and> md_name m = mapEntryName (fa_name a))"
  by (cases k) (auto simp: label_of_def Let_def)

lemma of_kinds_snoc:
  assumes "of_kinds its fs os ns" and "field_of cx a k = (f, nested)"
  shows "of_kinds (its @ [(fa_name a, k, b)])
     (fs @ [if b then f\<lparr>fd_oneof := Some i, fd_proto3_optional := True\<rparr> else f])
     (if b then os @ [CHR ''_'' # fa_name a] else os) (case nested of None \<Rightarrow> ns | Some m \<Rightarrow> ns @ [m])"
  using assms(1) field_of_kind [OF assms(2)]
  by (auto simp: of_kinds_def oneof_names_def entry_names_def split: option.splits)

lemma build_fields_kinds:
  assumes "build_fields cx name props num used fs ns os = Some (Inr m)" and "of_kinds its fs os ns"
  shows "\<exists>ks. list_all2 (lowered cx) props ks \<and>
     of_kinds (its @ zip (map snd (assign_idents used (map fst props))) ks) (md_fields m) (md_oneofs m) (md_nested m)"
  using assms
proof (induction props arbitrary: num used fs ns os its)
  case (Cons p props)
  obtain key sc where p: "p = (key, sc)" by (cases p)
  obtain fname used' where u: "uniqueIdent key used = (fname, used')" by fastforce
  let ?a = "\<lparr>fa_message = name, fa_key = key, fa_name = fname, fa_number = num\<rparr>"
  from Cons.prems(1) obtain s f b nested where s: "sc = Some s" "buildField cx ?a s = Some (Inr (f, b, nested))"
    by (auto simp: p u split: option.splits sum.splits)
  from built_lowers [OF s(2)] obtain k where k: "lowers cx s k b" "field_of cx ?a k = (f, nested)" by blast
  have "build_fields cx name props (num + 1) used'
      (fs @ [if b then f\<lparr>fd_oneof := Some (length os), fd_proto3_optional := True\<rparr> else f])
      (case nested of None \<Rightarrow> ns | Some m \<Rightarrow> ns @ [m]) (if b then os @ [CHR ''_'' # fname] else os) = Some (Inr m)"
    using Cons.prems(1) by (simp add: p u s Let_def)
  from Cons.IH [OF this] of_kinds_snoc [OF Cons.prems(2) k(2), of b "length os"]
  obtain ks where ks: "list_all2 (lowered cx) props ks"
    "of_kinds ((its @ [(fname, k, b)]) @ zip (map snd (assign_idents used' (map fst props))) ks)
       (md_fields m) (md_oneofs m) (md_nested m)"
    unfolding field_args.select_convs by blast
  have "lowered cx p (k, b)" using k(1) by (simp add: lowered_def p s)
  with ks show ?case by (intro exI [of _ "(k, b) # ks"]) (simp add: p u)
qed auto

text \<open>What a message must meet besides: only single fields are optional, and the fields, the oneofs and the
  messages inside share one scope.\<close>

definition scope_ok :: "message_desc \<Rightarrow> bool" where
  "scope_ok m =
     (list_all (\<lambda>f. fd_proto3_optional f \<longrightarrow> fd_label f = LOptional) (md_fields m) \<and>
      distinct (map fd_name (md_fields m) @ md_oneofs m @ map md_name (md_nested m)))"

lemma of_kinds_scope:
  assumes "of_kinds its (md_fields m) (md_oneofs m) (md_nested m)"
  shows "scope_ok m \<longleftrightarrow> list_all (\<lambda>(n, k, b). b \<longrightarrow> is_single k) its \<and>
     distinct (map fst its @ oneof_names its @ entry_names its)"
proof -
  have "list_all (\<lambda>f. fd_proto3_optional f \<longrightarrow> fd_label f = LOptional) (md_fields m) \<longleftrightarrow>
      list_all (\<lambda>(l, b). b \<longrightarrow> l = LOptional) (map (\<lambda>f. (fd_label f, fd_proto3_optional f)) (md_fields m))"
    by (simp add: list.pred_map comp_def)
  also have "\<dots> \<longleftrightarrow> list_all (\<lambda>(n, k, b). b \<longrightarrow> is_single k) its"
    using assms by (auto simp: of_kinds_def list.pred_map comp_def label_of_def list_all_iff split: prod.splits)
  finally show ?thesis using assms by (simp add: scope_ok_def of_kinds_def)
qed

text \<open>C31. A message the generator builds has one field for each property in the sorted order of the keys,
  numbered from 1, with distinct legal names and the key as its JSON name, each with a type and a type name
  exactly for messages; the optional fields are the members of the synthetic oneofs, in order; every
  nested message is the map entry of one of its repeated fields.  It is well formed for proto3 besides
  exactly when no property with an optional mark is an array or a dictionary and no two of its fields,
  oneofs and entry messages have one name.  Both can fail: a nullable reference to an array component, and
  two dictionaries whose names differ in underscores only.\<close>

theorem buildMessage_well_formed:
  assumes "buildMessage cx name sc = Some (Inr m)"
  shows "message_ok cx name (map fst (sort_key fst (props_of sc))) m \<and>
    (\<exists>ks. list_all2 (lowered cx) (sort_key fst (props_of sc)) ks \<and>
       (let its = zip (map snd (assign_idents [] (map fst (sort_key fst (props_of sc))))) ks in
          scope_ok m \<longleftrightarrow> list_all (\<lambda>(n, k, b). b \<longrightarrow> is_single k) its \<and>
            distinct (map fst its @ oneof_names its @ entry_names its)))"
proof
  note b = assms [unfolded buildMessage_def]
  from b show "message_ok cx name (map fst (sort_key fst (props_of sc))) m"
    using build_fields_ok [of cx name _ "[]" "[]" "[]" "[]" "[]" m] loop_start [of cx name] by simp
  have "of_kinds [] [] [] []" by (simp add: of_kinds_def oneof_names_def entry_names_def)
  from build_fields_kinds [OF b this]
  show "\<exists>ks. list_all2 (lowered cx) (sort_key fst (props_of sc)) ks \<and>
       (let its = zip (map snd (assign_idents [] (map fst (sort_key fst (props_of sc))))) ks in
          scope_ok m \<longleftrightarrow> list_all (\<lambda>(n, k, b). b \<longrightarrow> is_single k) its \<and>
            distinct (map fst its @ oneof_names its @ entry_names its))"
    by (auto simp: Let_def dest!: of_kinds_scope)
qed

text \<open>A nullable scalar, two keys with one identifier and a map, lowered.\<close>

definition demo_json :: "string \<Rightarrow> schema option" where
  "demo_json text = (if text = ''{'' @ ''}'' then Some (typed_schema ''string'') else None)"

definition demo_schema :: schema where
  "demo_schema =
     Schema '''' ''object'' '''' False
       (Some [(''user_name'', Some (typed_schema ''integer'')),
              (''labels'', Some (Schema '''' ''object'' '''' False None None [] [] [] (Some '' {} '') None)),
              (''user-name'', Some (Schema '''' '''' '''' False None None [] []
                                     [Some (typed_schema ''null''), Some (typed_schema ''string'')] None None))])
       None [] [] [] None None"

definition demo_context :: gen_context where
  "demo_context = \<lparr>cx_unmarshal = demo_json, cx_package = ''p'', cx_names = (\<lambda>n. n), cx_components = component []\<rparr>"

definition demo_message :: message_desc where
  "demo_message =
     Message ''M''
       [plain_field ''labels'' 1 LRepeated (Some TMessage) ''.p.M.LabelsEntry'' ''labels'',
        (plain_field ''user_name'' 2 LOptional (Some TString) '''' ''user-name'')
          \<lparr>fd_oneof := Some 0, fd_proto3_optional := True\<rparr>,
        plain_field ''user_name_2'' 3 LOptional (Some TInt32) '''' ''user_name'']
       [Message ''LabelsEntry'' [plain_field ''key'' 1 LOptional (Some TString) '''' ''key'',
                                 plain_field ''value'' 2 LOptional (Some TString) '''' ''value''] [] [] True]
       [''_user_name''] False"

lemma demo_builds: "buildMessage demo_context ''M'' demo_schema = Some (Inr demo_message)"
  by code_simp

lemma buildMessage_well_formed_witness:
  "buildMessage demo_context ''M'' demo_schema = Some (Inr demo_message) \<and>
   message_ok demo_context ''M'' (map fst (sort_key fst (props_of demo_schema))) demo_message \<and>
   scope_ok demo_message"
proof -
  have "scope_ok demo_message" by code_simp
  with demo_builds buildMessage_well_formed [OF demo_builds] show ?thesis by simp
qed

text \<open>A nullable reference to a component that is an array is marked optional although it is repeated,
  which proto3 has no meaning for.\<close>

definition array_component :: "(string \<times> schema option) list" where
  "array_component =
     [(''Tags'', Some (Schema '''' ''array'' '''' False None (Some (typed_schema ''string'')) [] [] [] None None))]"

lemma nullable_array_reference:
  "buildField (demo_context\<lparr>cx_components := component array_component\<rparr>)
     \<lparr>fa_message = ''M'', fa_key = ''tags'', fa_name = ''tags'', fa_number = 1\<rparr>
     (Schema '''' '''' '''' False None None [] []
        [Some (ref_schema ''#/components/schemas/Tags''), Some (typed_schema ''null'')] None None) =
   Some (Inr (plain_field ''tags'' 1 LRepeated (Some TString) '''' ''tags'', True, None))"
  by code_simp

text \<open>Two dictionaries, \<open>a_b\<close> and \<open>aB\<close>, get entry messages of one name.\<close>

definition twin_maps :: schema where
  "twin_maps =
     Schema '''' ''object'' '''' False
       (Some [(''a_b'', Some (Schema '''' ''object'' '''' False None None [] [] [] (Some '' {} '') None)),
              (''aB'', Some (Schema '''' ''object'' '''' False None None [] [] [] (Some '' {} '') None))])
       None [] [] [] None None"

lemma twin_entries:
  "(case buildMessage demo_context ''M'' twin_maps of
      Some (Inr m) \<Rightarrow> (map fd_name (md_fields m), map md_name (md_nested m), scope_ok m)
    | _ \<Rightarrow> ([], [], True)) = ([''aB'', ''a_b''], [''ABEntry'', ''ABEntry''], False)"
  by code_simp

end
