(* ===== verification/Gen_History.thy ===== *)
theory Gen_History
  imports Gen_Layer Gen_Messages
begin

text \<open>
  What the commands of \<open>internal/bundlegen\<close> do to a bundle directory, one by one and in sequence.
  The locale \<open>bundle_command\<close> states what every one of them promises: it touches only the entries
  it owns.
\<close>

section \<open>Entries of the bundle directory\<close>

definition dir_entries :: "node option \<Rightarrow> (string \<times> node) list option" where
  "dir_entries root =
     (case root of None \<Rightarrow> Some [] | Some (FileNode s) \<Rightarrow> None | Some (DirNode es) \<Rightarrow> Some es)"

definition entry :: "node option \<Rightarrow> string \<Rightarrow> node option" where
  "entry root x = (case dir_entries root of None \<Rightarrow> None | Some es \<Rightarrow> map_of es x)"

lemma entry_simps [simp]:
  "entry None x = None" "entry (Some (FileNode s)) x = None" "entry (Some (DirNode es)) x = map_of es x"
  by (simp_all add: entry_def dir_entries_def)

lemma node_at_entry:
  "\<nexists>s. root = Some (FileNode s) \<Longrightarrow> node_at root (x # xs) = node_at (entry root x) xs"
  by (cases root; cases "the root") auto

section \<open>What a command promises\<close>

locale bundle_command =
  fixes run :: "node option \<Rightarrow> outcome" and touches :: "string set"
  assumes frame: "x \<notin> touches \<Longrightarrow> entry (fst (run root)) x = entry root x"
    and stays_file: "fst (run (Some (FileNode s))) = Some (FileNode s)"
    and stays_dir: "root \<noteq> Some (FileNode s) \<Longrightarrow> fst (run root) \<noteq> Some (FileNode s)"
begin

lemma node_kept:
  assumes "x \<notin> touches"
  shows "node_at (fst (run root)) (x # xs) = node_at root (x # xs)"
proof (cases "\<exists>s. root = Some (FileNode s)")
  case True
  then show ?thesis using stays_file by auto
next
  case False
  then have "\<nexists>s. fst (run root) = Some (FileNode s)" using stays_dir by blast
  with False show ?thesis by (simp add: node_at_entry frame [OF assms])
qed

lemma file_kept: "x \<notin> touches \<Longrightarrow> ReadFile (fst (run root)) (x # xs) = ReadFile root (x # xs)"
  by (simp add: ReadFile_def node_kept)

lemma layer_kept: "x \<notin> touches \<Longrightarrow> load_layer L (fst (run root)) x = load_layer L root x"
  by (simp add: load_layer_def loadLayerDescriptors_def validateOpenAPI_def loadVersions_def file_kept)

lemma resolution_kept:
  "fileResolution \<notin> touches \<Longrightarrow> loadResolution L (fst (run root)) = loadResolution L root"
  by (simp add: loadResolution_def file_kept)

end

section \<open>Writing a layer\<close>

definition layer_node :: "layer_files \<Rightarrow> node" where
  "layer_node lf =
     DirNode [(''descriptors.binpb'', FileNode (lf_descriptors lf)),
              (''openapi.json'', FileNode (lf_openapi lf)),
              (''versions.yaml'', FileNode (lf_versions lf))]"

definition written_files :: "layer_files \<Rightarrow> (string \<times> string) list" where
  "written_files lf =
     [(''descriptors.binpb'', lf_descriptors lf), (''openapi.json'', lf_openapi lf), (''versions.yaml'', lf_versions lf)]"

definition file_nodes :: "(string \<times> string) list \<Rightarrow> (string \<times> node) list" where
  "file_nodes fs = map (\<lambda>(x, s). (x, FileNode s)) fs"

lemma layer_node_files: "layer_node lf = DirNode (file_nodes (written_files lf))"
  by (simp add: layer_node_def file_nodes_def written_files_def)

text \<open>What there is of a directory whose files are written one after another: nothing, or the first files
  and perhaps the beginning of the next.\<close>

definition begun :: "(string \<times> string) list \<Rightarrow> node option \<Rightarrow> bool" where
  "begun fs left =
     (left = None \<or> (\<exists>n. left = Some (DirNode (file_nodes (take n fs)))) \<or>
      (\<exists>n k. n < length fs \<and>
         left = Some (DirNode (file_nodes (take n fs @ [(fst (fs ! n), take k (snd (fs ! n)))])))))"

lemma update_twice: "AList.update x b (AList.update x a es) = AList.update x b es"
  by (induction es) auto

lemma update_new: "map_of es x = None \<Longrightarrow> AList.update x n es = es @ [(x, n)]"
  by (induction es) (auto split: if_splits)

lemma file_nodes_None: "map_of (file_nodes fs) x = None \<longleftrightarrow> x \<notin> fst ` set fs"
  by (auto simp: file_nodes_def map_of_eq_None_iff image_iff split: prod.splits)

lemma file_nodes_snoc: "file_nodes (fs @ [(x, s)]) = file_nodes fs @ [(x, FileNode s)]"
  by (simp add: file_nodes_def)

text \<open>Only the entry \<open>v\<close> of a directory, or of one that is not there yet, differs.\<close>

definition changes_only :: "string \<Rightarrow> node option \<Rightarrow> node option \<Rightarrow> bool" where
  "changes_only v root root' =
     (dir_entries root' \<noteq> None \<and> (\<forall>x. x \<noteq> v \<longrightarrow> entry root' x = entry root x))"

lemma write_files_run:
  assumes "map_of es v = Some (DirNode (file_nodes dn))" and "distinct (map fst (dn @ rest))"
  shows "\<exists>left err. write_files dk dir [v] rest (Some (DirNode es)) =
      (Some (DirNode (AList.update v (DirNode left) es)), err) \<and>
    (err = None \<longleftrightarrow> (\<forall>x \<in> fst ` set rest. dk_write dk [v, x] = None)) \<and>
    (err = None \<longrightarrow> left = file_nodes (dn @ rest)) \<and> begun (dn @ rest) (Some (DirNode left))"
  using assms
proof (induction rest arbitrary: dn es)
  case Nil
  then have "AList.update v (DirNode (file_nodes dn)) es = es" by (simp add: update_triv)
  moreover have "begun dn (Some (DirNode (file_nodes dn)))"
    unfolding begun_def by (metis take_all order_refl)
  ultimately show ?case by (intro exI [of _ "file_nodes dn"]) simp
next
  case (Cons r rest)
  obtain x s where r: "r = (x, s)" by (cases r)
  have new: "map_of (file_nodes dn) x = None" using Cons.prems(2) by (auto simp: file_nodes_None r)
  have wr: "WriteFile (Some (DirNode es)) [v, x] t =
      Inr (DirNode (AList.update v (DirNode (file_nodes (dn @ [(x, t)]))) es))" for t
    by (simp add: WriteFile_def Cons.prems(1) new update_new [OF new] file_nodes_snoc)
  show ?case
  proof (cases "dk_write dk [v, x]")
    case None
    let ?es = "AList.update v (DirNode (file_nodes (dn @ [(x, s)]))) es"
    have "map_of ?es v = Some (DirNode (file_nodes (dn @ [(x, s)])))" by (simp add: update_conv')
    from Cons.IH [OF this] Cons.prems(2) r obtain left err where
      l: "write_files dk dir [v] rest (Some (DirNode ?es)) = (Some (DirNode (AList.update v (DirNode left) ?es)), err)"
        "err = None \<longleftrightarrow> (\<forall>x \<in> fst ` set rest. dk_write dk [v, x] = None)"
        "err = None \<longrightarrow> left = file_nodes (dn @ r # rest)" "begun (dn @ r # rest) (Some (DirNode left))"
      by auto
    from l show ?thesis
      by (intro exI [of _ left] exI [of _ err]) (simp add: r write_file_def wr None update_twice)
  next
    case (Some q)
    obtain k err where q: "q = (k, err)" by (cases q)
    have part: "begun (dn @ r # rest) (Some (DirNode (file_nodes dn)))"
      unfolding begun_def by (intro disjI2 disjI1 exI [of _ "length dn"]) simp
    have cut: "begun (dn @ r # rest) (Some (DirNode (file_nodes (dn @ [(x, take j s)]))))" for j
      unfolding begun_def by (intro disjI2 exI [of _ "length dn"] exI [of _ j]) (simp add: r)
    show ?thesis
    proof (cases k)
      case None
      have "AList.update v (DirNode (file_nodes dn)) es = es" using Cons.prems(1) by (simp add: update_triv)
      with part show ?thesis
        by (intro exI [of _ "file_nodes dn"] exI [of _ "Some (GenError err)"])
          (simp add: r write_file_def wr Some q None)
    next
      case (Some j)
      with cut [of j] show ?thesis
        by (intro exI [of _ "file_nodes (dn @ [(x, take j s)])"] exI [of _ "Some (GenError err)"])
          (simp add: r write_file_def wr \<open>dk_write dk _ = _\<close> q)
    qed
  qed
qed

definition fill_ok :: "disk \<Rightarrow> string \<Rightarrow> bool" where
  "fill_ok dk v =
     (dk_mkdir dk [v] = None \<and>
      list_all (\<lambda>x. dk_write dk [v, x] = None) [''descriptors.binpb'', ''openapi.json'', ''versions.yaml''])"

lemma fill_layer_run:
  assumes es: "dir_entries root = Some es" and v: "map_of es v = None"
  shows "\<exists>root' err. fill_layer dk dir [v] lf root = (root', err) \<and> (err = None \<longleftrightarrow> fill_ok dk v) \<and>
    (err = None \<longrightarrow> root' = Some (DirNode (AList.update v (layer_node lf) es))) \<and>
    changes_only v root root' \<and> begun (written_files lf) (entry root' v)"
proof -
  have mk: "MkdirAll root [v] = Inr (DirNode (AList.update v (DirNode []) es))"
    using es v by (cases root) (auto simp: dir_entries_def split: node.splits)
  have mk0: "MkdirAll root [] = Inr (DirNode es)"
    using es by (cases root) (auto simp: dir_entries_def split: node.splits)
  have e: "entry root x = map_of es x" for x using es by (simp add: entry_def)
  show ?thesis
  proof (cases "dk_mkdir dk [v]")
    case None
    let ?es = "AList.update v (DirNode []) es"
    have "map_of ?es v = Some (DirNode (file_nodes []))" by (simp add: update_conv' file_nodes_def)
    from write_files_run [OF this, of "written_files lf" dk dir] obtain left err where
      l: "write_files dk dir [v] (written_files lf) (Some (DirNode ?es)) = (Some (DirNode (AList.update v (DirNode left) ?es)), err)"
        "err = None \<longleftrightarrow> (\<forall>x \<in> fst ` set (written_files lf). dk_write dk [v, x] = None)"
        "err = None \<longrightarrow> left = file_nodes (written_files lf)" "begun (written_files lf) (Some (DirNode left))"
      by (auto simp: written_files_def)
    have "fill_layer dk dir [v] lf root = (Some (DirNode (AList.update v (DirNode left) es)), err)"
      using l(1) by (simp add: fill_layer_def make_dirs_def mk None written_files_def update_twice)
    moreover have "err = None \<longleftrightarrow> fill_ok dk v" using l(2) by (simp add: fill_ok_def None written_files_def)
    ultimately show ?thesis
      using l(3,4)
      by (auto simp: layer_node_files changes_only_def dir_entries_def update_conv' e)
  next
    case (Some q)
    obtain n err where q: "q = (n, err)" by (cases q)
    have "made_dirs n root [v] \<in> {root, Some (DirNode es), Some (DirNode (AList.update v (DirNode []) es))}"
    proof (cases n)
      case (Suc k)
      then show ?thesis by (cases k) (simp_all add: made_dirs_def mk mk0)
    qed (simp add: made_dirs_def)
    moreover have "begun (written_files lf) None" "begun (written_files lf) (Some (DirNode []))"
      by (auto simp: begun_def file_nodes_def intro: exI [of _ 0])
    ultimately have "changes_only v root (made_dirs n root [v])" "begun (written_files lf) (entry (made_dirs n root [v]) v)"
      using es v by (auto simp: changes_only_def e update_conv' dir_entries_def)
    then show ?thesis by (simp add: fill_layer_def make_dirs_def mk Some q fill_ok_def)
  qed
qed

lemma fill_layer_file: "\<exists>e. fill_layer dk dir [v] lf (Some (FileNode s)) = (Some (FileNode s), Some e)"
  by (simp add: fill_layer_def make_dirs_def)

lemma delete_none: "map_of es v = None \<Longrightarrow> AList.delete v es = es"
  by (induction es) (auto split: if_splits)

text \<open>When a layer may be written over what is there.\<close>

definition writable :: "bool \<Rightarrow> node option \<Rightarrow> bool" where
  "writable force old = (case old of None \<Rightarrow> True | Some n \<Rightarrow> force \<and> is_dir n)"

text \<open>The guard on the place of the layer, which a generated layer passes.\<close>

definition placeable :: "string \<Rightarrow> string \<Rightarrow> bool \<Rightarrow> node option \<Rightarrow> bool" where
  "placeable dir v force old = (writable force old \<and> (old = None \<or> direct_child dir [v]))"

lemma generated_placeable: "generate env src = Some (Inr lf) \<Longrightarrow>
    placeable dir (lf_version lf) force old = writable force old"
  using safe_layer_direct [of "lf_version lf" dir]
  by (auto simp: placeable_def generate_def loadAndPrevalidate_def Let_def result_simps
      split: sum.splits option.splits if_splits)

text \<open>A machine that fails none of the calls that write the layer, after removing an old one.\<close>

definition machine_ok :: "disk \<Rightarrow> string \<Rightarrow> node option \<Rightarrow> bool" where
  "machine_ok dk v old = (fill_ok dk v \<and> (old = None \<or> dk_remove dk [v] = None))"

text \<open>What an add the machine failed leaves in the place of the layer: a part of the old layer, or a
  beginning of the new one.\<close>

definition torn :: "layer_files \<Rightarrow> node option \<Rightarrow> node option \<Rightarrow> bool" where
  "torn lf old left = ((\<exists>keep. left = map_option (pruned keep) old) \<or> begun (written_files lf) left)"

definition layer_written :: "disk \<Rightarrow> string \<Rightarrow> layer_files \<Rightarrow> node option \<Rightarrow> (string \<times> node) list \<Rightarrow> outcome \<Rightarrow> bool" where
  "layer_written dk v lf root es r =
     ((snd r = None \<longleftrightarrow> machine_ok dk v (map_of es v)) \<and>
      (snd r = None \<longrightarrow> fst r = Some (DirNode (AList.update v (layer_node lf) (AList.delete v es)))) \<and>
      changes_only v root (fst r) \<and> torn lf (map_of es v) (entry (fst r) v))"

lemma writeLayer_exact:
  "case dir_entries root of
      None \<Rightarrow> (\<exists>e. writeLayer dk dir [v] lf force root = (root, Some e))
    | Some es \<Rightarrow>
        if placeable dir v force (map_of es v) then layer_written dk v lf root es (writeLayer dk dir [v] lf force root)
        else (\<exists>e. writeLayer dk dir [v] lf force root = (root, Some e))"
proof (cases "dir_entries root")
  case None
  then obtain s where "root = Some (FileNode s)" by (auto simp: dir_entries_def split: option.splits node.splits)
  then show ?thesis by (simp add: writeLayer_def dir_entries_def)
next
  case es: (Some es)
  then have at: "node_at root [v] = (case map_of es v of None \<Rightarrow> Inl NotExist | Some n \<Rightarrow> Inr n)"
    by (cases root) (auto simp: dir_entries_def split: node.splits option.splits)
  show ?thesis
  proof (cases "map_of es v")
    case None
    then have "writeLayer dk dir [v] lf force root = fill_layer dk dir [v] lf root" by (simp add: writeLayer_def at)
    with fill_layer_run [OF es None, of dk dir lf] show ?thesis
      by (auto simp: es None placeable_def writable_def layer_written_def machine_ok_def torn_def delete_none)
  next
    case (Some n)
    then have root: "root = Some (DirNode es)"
      using es by (auto simp: dir_entries_def split: option.splits node.splits)
    show ?thesis
    proof (cases "placeable dir v force (map_of es v)")
      case False
      then show ?thesis by (auto simp: es writeLayer_def at Some placeable_def writable_def)
    next
      case True
      then have w: "writeLayer dk dir [v] lf force root =
          (case remove_all dk root v of
             (root, Some err) \<Rightarrow> (root, Some (GenError (''remove existing layer '' @ path_text dir [v] @ '': '' @ err)))
           | (root, None) \<Rightarrow> fill_layer dk dir [v] lf root)"
        by (simp add: writeLayer_def at Some placeable_def writable_def split: prod.split option.split)
      have "layer_written dk v lf root es (writeLayer dk dir [v] lf force root)"
      proof (cases "dk_remove dk [v]")
        case None
        let ?root = "Some (DirNode (AList.delete v es))"
        have "dir_entries ?root = Some (AList.delete v es)" "map_of (AList.delete v es) v = None"
          by (simp_all add: dir_entries_def delete_conv')
        from fill_layer_run [OF this, of dk dir lf] obtain root' err where
          f: "fill_layer dk dir [v] lf ?root = (root', err)" "err = None \<longleftrightarrow> fill_ok dk v"
            "err = None \<longrightarrow> root' = Some (DirNode (AList.update v (layer_node lf) (AList.delete v es)))"
            "changes_only v ?root root'" "begun (written_files lf) (entry root' v)"
          by blast
        have "writeLayer dk dir [v] lf force root = (root', err)"
          unfolding w by (simp add: root remove_all_def None RemoveAll_def f(1))
        moreover have "changes_only v root root'" using f(4) by (simp add: changes_only_def root delete_conv')
        ultimately show ?thesis
          using f(2,3,5) by (simp add: layer_written_def machine_ok_def torn_def None)
      next
        case (Some q)
        obtain keep err where q: "q = (keep, err)" by (cases q)
        have r: "\<exists>e. writeLayer dk dir [v] lf force root = (Some (DirNode (AList.update v (pruned keep n) es)), Some e)"
          unfolding w by (simp add: root remove_all_def Some q left_over_def \<open>map_of es v = _\<close>)
        then have "fst (writeLayer dk dir [v] lf force root) = Some (DirNode (AList.update v (pruned keep n) es))"
          "snd (writeLayer dk dir [v] lf force root) \<noteq> None"
          by auto
        then show ?thesis
          using \<open>map_of es v = _\<close> Some
          by (auto simp: layer_written_def machine_ok_def torn_def changes_only_def update_conv' dir_entries_def root)
      qed
      with True show ?thesis by (simp add: es)
    qed
  qed
qed

lemma writeLayer_cases:
  "(\<exists>e. writeLayer dk dir [v] lf force root = (root, Some e)) \<or>
   (\<exists>es. dir_entries root = Some es \<and> placeable dir v force (map_of es v) \<and>
      layer_written dk v lf root es (writeLayer dk dir [v] lf force root))"
  using writeLayer_exact [of dk dir v lf force root] by (auto split: option.splits if_splits)

lemma writeLayer_entry: "x \<noteq> v \<Longrightarrow> entry (fst (writeLayer dk dir [v] lf force root)) x = entry root x"
  using writeLayer_cases [of dk dir v lf force root] by (auto simp: layer_written_def changes_only_def)

lemma writeLayer_frozen: "entry root v \<noteq> None \<Longrightarrow> fst (writeLayer dk dir [v] lf False root) = root"
  using writeLayer_exact [of dk dir v lf False root]
  by (auto simp: entry_def placeable_def writable_def split: option.splits)

lemma writeLayer_shape:
  "fst (writeLayer dk dir [v] lf force (Some (FileNode s))) = Some (FileNode s)"
  "root \<noteq> Some (FileNode s) \<Longrightarrow> fst (writeLayer dk dir [v] lf force root) \<noteq> Some (FileNode s)"
  using writeLayer_cases [of dk dir v lf force "Some (FileNode s)"] writeLayer_cases [of dk dir v lf force root]
  by (auto simp: layer_written_def changes_only_def dir_entries_def)

interpretation write_layer: bundle_command "writeLayer dk dir [v] lf force" "{v}"
  by unfold_locales (auto simp: writeLayer_entry writeLayer_shape)

section \<open>Removing and retiring\<close>

lemma Remove_cases:
  "Remove dk dir v root = (RemoveAll root v, None) \<or>
   (\<exists>keep err. Remove dk dir v root = (left_over keep root v, Some (GenError err)) \<and> dk_remove dk [v] = Some (keep, err)) \<or>
   (\<exists>e. Remove dk dir v root = (root, Some e))"
  by (auto simp: Remove_def Let_def remove_all_def split: sum.split option.split)

lemma left_over_entry:
  "entry (left_over keep root v) x = (if x = v then map_option (pruned keep) (entry root v) else entry root x)"
  by (auto simp: left_over_def update_conv' entry_def dir_entries_def split: option.split node.split)

lemma left_over_shape [simp]: "left_over keep root v = Some (FileNode s) \<longleftrightarrow> root = Some (FileNode s)"
  by (auto simp: left_over_def split: option.splits node.splits)

lemma RemoveAll_entry: "entry (RemoveAll root v) x = (if x = v then None else entry root x)"
  by (auto simp: RemoveAll_def delete_conv' entry_def dir_entries_def split: option.split node.split)

lemma RemoveAll_shape [simp]: "RemoveAll root v = Some (FileNode s) \<longleftrightarrow> root = Some (FileNode s)"
  by (auto simp: RemoveAll_def split: option.splits node.splits)

interpretation remove_layer: bundle_command "Remove dk dir v" "{v}"
proof unfold_locales
  show "entry (fst (Remove dk dir v root)) x = entry root x" if "x \<notin> {v}" for x root
    using Remove_cases [of dk dir v root] that by (auto simp: RemoveAll_entry left_over_entry)
  show "fst (Remove dk dir v (Some (FileNode s))) = Some (FileNode s)" for s
    by (simp add: Remove_def ReadDir_def)
  show "fst (Remove dk dir v root) \<noteq> Some (FileNode s)" if "root \<noteq> Some (FileNode s)" for root s
    using Remove_cases [of dk dir v root] that by auto
qed

text \<open>\<open>Retire\<close> writes \<open>resolution.yaml\<close>, or a beginning of it when the machine fails, or nothing.\<close>

lemma WriteFile_top:
  "WriteFile root [x] s = Inr n \<Longrightarrow> \<exists>es. root = Some (DirNode es) \<and> n = DirNode (AList.update x (FileNode s) es)"
  by (cases root; cases "the root") (auto simp: WriteFile_def split: sum.splits node.splits)

lemma Retire_cases:
  "(\<exists>es out err. root = Some (DirNode es) \<and> (\<forall>ns. entry root fileResolution \<noteq> Some (DirNode ns)) \<and>
      Retire dk ry dir v root = (Some (DirNode (AList.update fileResolution (FileNode out) es)), err) \<and>
      (err = None \<or> dk_write dk [fileResolution] \<noteq> None)) \<or>
   (\<exists>e. Retire dk ry dir v root = (root, Some e))"
proof (cases "fst (Retire dk ry dir v root) = root \<and> snd (Retire dk ry dir v root) \<noteq> None")
  case True
  then show ?thesis by (metis option.exhaust prod.collapse)
next
  case False
  then obtain out where
    w: "Retire dk ry dir v root =
      (case write_file dk root [fileResolution] out of (root, err) \<Rightarrow>
         (root, map_option (\<lambda>e. GenError (failure_text (path_error ''open'' dir [fileResolution]) e)) err))"
    and r: "\<exists>rf. read_retire_file ry dir root = Inr rf" "\<exists>entries. ReadDir root [] = Inr entries"
    by (auto simp: Retire_def Let_def split: sum.splits option.splits if_splits)
  from r(2) obtain es where es: "root = Some (DirNode es)"
    by (cases root) (auto simp: ReadDir_def split: node.splits)
  with r(1) have dir: "entry root fileResolution \<noteq> Some (DirNode ns)" for ns
    by (auto simp: read_retire_file_def ReadFile_def)
  show ?thesis
  proof (cases rule: write_file_cases [of dk root "[fileResolution]" out])
    case (written n)
    then have "Retire dk ry dir v root = (Some n, None)" by (simp add: w)
    with WriteFile_top [OF written(2)] es dir show ?thesis by (intro disjI1) auto
  next
    case (truncated k n err)
    then have "fst (Retire dk ry dir v root) = Some n" by (simp add: w)
    with WriteFile_top [OF truncated(2)] es dir truncated(3) show ?thesis
      by (cases "Retire dk ry dir v root") (intro disjI1, auto)
  next
    case (unopened f)
    then show ?thesis by (intro disjI2) (simp add: w)
  qed
qed

interpretation retire_layer: bundle_command "Retire dk ry dir v" "{fileResolution}"
proof unfold_locales
  show "entry (fst (Retire dk ry dir v root)) x = entry root x" if "x \<notin> {fileResolution}" for x root
    using Retire_cases [of root dk ry dir v] that by (auto simp: update_conv')
  show "fst (Retire dk ry dir v (Some (FileNode s))) = Some (FileNode s)" for s
    by (simp add: Retire_def ReadDir_def)
  show "fst (Retire dk ry dir v root) \<noteq> Some (FileNode s)" if "root \<noteq> Some (FileNode s)" for root s
    using Retire_cases [of root dk ry dir v] that by auto
qed

section \<open>Histories\<close>

datatype command = CAdd string bool | CRemove string | CRetire string

text \<open>Each command runs on a machine that may fail it in its own way.\<close>

fun exec :: "gen_env \<Rightarrow> 'y retire_yaml \<Rightarrow> string \<Rightarrow> node option \<Rightarrow> disk \<times> command \<Rightarrow> node option" where
  "exec env ry dir root (dk, CAdd src force) =
     (case Add dk env src dir force root of None \<Rightarrow> root | Some (root', _) \<Rightarrow> root')"
| "exec env ry dir root (dk, CRemove v) = fst (Remove dk dir v root)"
| "exec env ry dir root (dk, CRetire v) = fst (Retire dk ry dir v root)"

definition adds :: "gen_env \<Rightarrow> string \<Rightarrow> string \<Rightarrow> bool" where
  "adds env src v = (case generate env src of Some (Inr lf) \<Rightarrow> lf_version lf = v | _ \<Rightarrow> False)"

text \<open>The commands meant to change the layer \<open>v\<close>: removing it, and adding it by force.\<close>

fun spares :: "gen_env \<Rightarrow> string \<Rightarrow> command \<Rightarrow> bool" where
  "spares env v (CAdd src force) = (\<not> (force \<and> adds env src v))"
| "spares env v (CRemove w) = (w \<noteq> v)"
| "spares env v (CRetire w) = True"

lemma exec_spares:
  assumes "entry root v = Some (DirNode es)" and "spares env v c"
  shows "entry (exec env ry dir root (dk, c)) v = Some (DirNode es)"
proof (cases c)
  case (CAdd src force)
  show ?thesis
  proof (cases "generate env src")
    case (Some r)
    show ?thesis
    proof (cases r)
      case (Inr lf)
      show ?thesis
      proof (cases "lf_version lf = v")
        case True
        then have "\<not> force" using assms(2) by (simp add: CAdd adds_def Some Inr)
        then show ?thesis
          using assms(1) writeLayer_frozen [of root v dk dir lf] True by (auto simp: CAdd Add_def Some Inr split: prod.split)
      next
        case False
        then show ?thesis
          using assms(1) write_layer.frame [of v "lf_version lf" dk dir lf force root]
          by (auto simp: CAdd Add_def Some Inr split: prod.split)
      qed
    qed (simp add: CAdd Add_def Some assms(1))
  qed (simp add: CAdd Add_def assms(1))
next
  case (CRemove w)
  then show ?thesis using assms remove_layer.frame [of v w dk dir root] by simp
next
  case (CRetire w)
  show ?thesis
  proof (cases "v = fileResolution")
    case True
    then show ?thesis using assms(1) Retire_cases [of root dk ry dir w] by (auto simp: CRetire)
  qed (use assms(1) retire_layer.frame [of v dk ry dir w root] in \<open>simp add: CRetire\<close>)
qed

text \<open>C34. A layer is frozen: whatever sequence of commands runs on the bundle directory, and whichever of
  their calls the machine fails half way, as long as none of them removes this layer or adds it by force,
  its files stay what they were, and so does what loading it gives.\<close>

theorem frozen_layer:
  assumes "entry root v = Some (DirNode es)" and "list_all (\<lambda>(dk, c). spares env v c) cmds"
  shows "entry (foldl (exec env ry dir) root cmds) v = Some (DirNode es) \<and>
    load_layer L (foldl (exec env ry dir) root cmds) v = load_layer L root v"
proof -
  have kept: "entry (foldl (exec env ry dir) root cmds) v = Some (DirNode es)"
    using assms by (induction cmds arbitrary: root) (auto simp: exec_spares)
  have no_file: "\<nexists>s. root' = Some (FileNode s)" if "entry root' v = Some (DirNode es)" for root'
    using that by auto
  have "ReadFile (foldl (exec env ry dir) root cmds) (v # p) = ReadFile root (v # p)" for p
    using kept assms(1) by (simp add: ReadFile_def node_at_entry no_file)
  with kept show ?thesis
    by (simp add: load_layer_def loadLayerDescriptors_def validateOpenAPI_def loadVersions_def)
qed

text \<open>C32. \<open>Add\<close> succeeds exactly when the document generates a layer, the place of its version is free,
  or holds a directory and the add is forced, and the machine fails none of its calls; then the bundle
  differs in that layer alone, which is the three files and nothing else.  A failing \<open>Add\<close> leaves the bundle
  as it was, unless the machine failed it: then all other entries are as they were, and the layer is a part
  of the old one or a beginning of the new one.\<close>

theorem Add_exact:
  "(Add dk env src dir force root = Some (root', None) \<longleftrightarrow>
     (\<exists>lf es. generate env src = Some (Inr lf) \<and> dir_entries root = Some es \<and>
        writable force (map_of es (lf_version lf)) \<and> machine_ok dk (lf_version lf) (map_of es (lf_version lf)) \<and>
        root' = Some (DirNode (AList.update (lf_version lf) (layer_node lf) (AList.delete (lf_version lf) es))))) \<and>
   (Add dk env src dir force root = Some (root', Some e) \<longrightarrow>
     root' = root \<or>
     (\<exists>lf es. generate env src = Some (Inr lf) \<and> dir_entries root = Some es \<and>
        writable force (map_of es (lf_version lf)) \<and> \<not> machine_ok dk (lf_version lf) (map_of es (lf_version lf)) \<and>
        changes_only (lf_version lf) root root' \<and> torn lf (map_of es (lf_version lf)) (entry root' (lf_version lf))))"
proof (cases "\<exists>lf. generate env src = Some (Inr lf)")
  case True
  then obtain lf where lf: "generate env src = Some (Inr lf)" by blast
  obtain left err where wl: "writeLayer dk dir [lf_version lf] lf force root = (left, err)" by fastforce
  with lf have add: "Add dk env src dir force root = Some (left, err)"
    by (simp add: Add_def)
  show ?thesis
    using writeLayer_exact [of dk dir "lf_version lf" lf force root]
    by (auto simp: add lf wl generated_placeable [OF lf] layer_written_def split: option.splits if_splits)
next
  case False
  then show ?thesis by (auto simp: Add_def split: option.splits sum.splits)
qed

section \<open>Retiring a version and then removing it\<close>

lemma load_override_keys:
  assumes "load_override m ov = Inr m'"
  shows "set (map fst m') = insert (trim_space (yr_version ov)) (set (map fst m))"
proof -
  have "m' = multi_add (trim_space (yr_version ov)) ov m"
    using assms by (auto simp: load_override_def Let_def result_simps split: if_splits)
  then show ?thesis by (simp only: keys_multi_add)
qed

lemma resolution_keys:
  "sfold load_override m ovs = Inr m' \<Longrightarrow>
   set (map fst m') = set (map fst m) \<union> (trim_space \<circ> yr_version) ` set ovs"
proof (induction ovs arbitrary: m)
  case (Cons ov ovs)
  then obtain m1 where m1: "load_override m ov = Inr m1" "sfold load_override m1 ovs = Inr m'"
    by (auto simp: result_simps)
  show ?case
    unfolding Cons.IH [OF m1(2)] load_override_keys [OF m1(1)] by simp
qed simp

text \<open>A layer whose \<open>versions.yaml\<close> has a contract of version \<open>v\<close>.\<close>

definition declares :: "('x, 'm) codecs \<Rightarrow> node option \<Rightarrow> string \<Rightarrow> string \<Rightarrow> bool" where
  "declares L root x v =
     (case loadVersions L root x of
        Inl e \<Rightarrow> False
      | Inr yb \<Rightarrow> list_ex (\<lambda>yc. trim_space (yk_version yc) = v) (yb_contracts yb))"

lemma add_contract_version:
  "add_contract reg cs yc = Inr cs' \<Longrightarrow> c_version ` set cs' \<subseteq> insert (trim_space (yk_version yc)) (c_version ` set cs)"
  by (auto simp: add_contract_def validateContract_def Let_def result_simps split: if_splits)

lemma add_layer_versions:
  assumes "add_layer reg cs l = Inr cs'"
  shows "c_version ` set cs' \<subseteq> (trim_space \<circ> yk_version) ` set (yb_contracts (la_yb l)) \<union> c_version ` set cs"
proof -
  have "sfold (add_contract reg) cs (yb_contracts (la_yb l)) = Inr cs'"
    using assms by (simp add: add_layer_def split: if_splits)
  then show ?thesis
  proof (rule sfold_invariant)
    fix cs1 yc cs2
    assume "yc \<in> set (yb_contracts (la_yb l))" "add_contract reg cs1 yc = Inr cs2"
      "c_version ` set cs1 \<subseteq> (trim_space \<circ> yk_version) ` set (yb_contracts (la_yb l)) \<union> c_version ` set cs"
    with add_contract_version [of reg cs1 yc cs2]
    show "c_version ` set cs2 \<subseteq> (trim_space \<circ> yk_version) ` set (yb_contracts (la_yb l)) \<union> c_version ` set cs"
      by (auto simp: subset_iff)
  qed simp
qed

lemma loaded_versions:
  assumes "smap (load_layer L root) names = Inr loaded" and "sfold (add_layer reg) [] loaded = Inr cs"
    and "c \<in> set cs"
  shows "\<exists>x \<in> set names. declares L root x (c_version c)"
proof -
  have "c_version ` set cs \<subseteq> {v. \<exists>x \<in> set names. declares L root x v}"
    using assms(2)
  proof (rule sfold_invariant)
    fix cs l cs'
    assume l: "l \<in> set loaded" and sub: "c_version ` set cs \<subseteq> {v. \<exists>x \<in> set names. declares L root x v}"
      and add: "add_layer reg cs l = Inr cs'"
    obtain x where "x \<in> set names" "load_layer L root x = Inr l"
      using smap_Inr_mem [OF assms(1) l] by blast
    then have "loadVersions L root x = Inr (la_yb l)" "x \<in> set names"
      by (auto simp: load_layer_def result_simps split: if_splits)
    with add_layer_versions [OF add] sub
    show "c_version ` set cs' \<subseteq> {v. \<exists>x \<in> set names. declares L root x v}"
      by (fastforce simp: declares_def list_ex_iff)
  qed simp
  with assms(3) show ?thesis by blast
qed

text \<open>Every override of a bundle that loads names a version some layer declares.\<close>

lemma Load_overrides_declared:
  assumes "Load L dir root = Inr b" and "loadResolution L root = Inr rmap" and "v \<in> set (map fst rmap)"
  shows "\<exists>x. declares L root x v"
proof -
  obtain names loaded reg cs where n: "smap (load_layer L root) names = Inr loaded"
    "sfold (add_layer reg) [] loaded = Inr cs" "resolve_bundle L reg rmap cs = Inr b"
    using assms(1,2) by (auto simp: Load_def result_simps)
  then have "unknown_override rmap (index_by_version cs) = None"
    by (auto simp: resolve_bundle_def split: option.splits)
  then have "\<forall>x \<in> set (map fst rmap). \<exists>c \<in> set cs. c_version c = x"
    by (auto simp: unknown_override_def find_None_iff map_of_index split: if_splits)
  with assms(3) obtain c where "c \<in> set cs" "c_version c = v" by blast
  with loaded_versions [OF n(1,2)] show ?thesis by auto
qed

text \<open>What the loader reads back of a file \<open>Retire\<close> marshals: an override for each of its entries.\<close>

definition reads_back :: "('x, 'm) codecs \<Rightarrow> 'y retire_yaml \<Rightarrow> bool" where
  "reads_back L ry =
     (\<forall>rf out. ry_marshal ry rf = Inr out \<longrightarrow>
        (\<exists>yf. decode_resolution L out = Inr yf \<and> map yr_version (yf_overrides yf) = map re_version (rf_overrides rf)))"

lemma Retire_writes:
  assumes "Retire dk ry dir v root = (root', None)"
  shows "\<exists>rf out neighbour. ry_marshal ry (rf\<lparr>rf_overrides := rf_overrides rf @ [scaffold ry v neighbour]\<rparr>) = Inr out \<and>
    ReadFile root' [fileResolution] = Inr out"
  using assms
  by (fastforce simp: Retire_def Let_def write_file_def ReadFile_WriteFile split: sum.splits option.splits if_splits prod.splits)

text \<open>C35. Retiring a version and then removing its layer leaves a bundle that does not load: the override
  \<open>Retire\<close> wrote still names the version, and \<open>Remove\<close> neither refuses nor takes it away.\<close>

theorem retired_then_removed:
  assumes "reads_back L ry" and "v \<noteq> fileResolution"
    and "Retire dk ry dir v root = (root1, None)" and "Remove dk' dir v root1 = (root2, None)"
    and "\<nexists>x. declares L root2 x (trim_space v)"
  shows "\<exists>e. Load L dir root2 = Inl e"
proof (cases "Load L dir root2")
  case (Inr b)
  obtain rf out neighbour where "ry_marshal ry (rf\<lparr>rf_overrides := rf_overrides rf @ [scaffold ry v neighbour]\<rparr>) = Inr out"
    and out: "ReadFile root1 [fileResolution] = Inr out"
    using Retire_writes [OF assms(3)] by blast
  with assms(1) obtain yf where yf: "decode_resolution L out = Inr yf"
    "map yr_version (yf_overrides yf) = map re_version (rf_overrides rf @ [scaffold ry v neighbour])"
    unfolding reads_back_def by fastforce
  from yf(2) have v: "v \<in> yr_version ` set (yf_overrides yf)"
    by (metis image_set in_set_conv_decomp list.simps(9) map_append retire_entry.select_convs(1) scaffold_def)
  obtain rmap where rmap: "loadResolution L root2 = Inr rmap"
    using Inr by (auto simp: Load_def result_simps)
  have "loadResolution L root2 = loadResolution L root1"
    using remove_layer.resolution_kept [of v L dk' dir root1] assms(2,4) by simp
  with rmap have "sfold load_override [] (yf_overrides yf) = Inr rmap"
    by (auto simp: loadResolution_def out yf(1) split: if_splits)
  from resolution_keys [OF this] v have "trim_space v \<in> set (map fst rmap)" by auto
  from Load_overrides_declared [OF Inr rmap this] assms(5) show ?thesis by blast
qed simp

section \<open>A document, a bundle and its history\<close>

text \<open>One operation without bodies, in a document of version v3.\<close>

definition demo_operation :: operation where
  "demo_operation = \<lparr>op_id = ''list'', op_request = None, op_responses = [(''204'', [])]\<rparr>"

definition demo_env :: gen_env where
  "demo_env =
     \<lparr>env_get = (\<lambda>url. Inl ''offline''),
      env_read = (\<lambda>path. if path = ''api.json'' then Inr ''doc'' else Inl ''no such file''),
      env_document = (\<lambda>raw. Inr \<lparr>oa_version = '' v3'', oa_paths = [(''/orders'', [(''GET'', ''op'')])], oa_schemas = []\<rparr>),
      env_operation = (\<lambda>raw. Inr demo_operation),
      env_schema = no_json,
      env_proto = \<lparr>pl_new_files = (\<lambda>uses fd. None), pl_marshal = (\<lambda>uses fd. Inr (fdesc_package fd))\<rparr>\<rparr>"

definition demo_v3 :: layer_files where
  "demo_v3 =
     \<lparr>lf_version = ''v3'', lf_descriptors = ''wavefront.gen.vv3'', lf_openapi = ''doc'',
      lf_versions = renderVersionsYAML ''v3''
        [\<lparr>ce_route = ''/orders'', ce_method = ''GET'', ce_request = ''wavefront.gen.vv3.Empty'',
          ce_response = ''wavefront.gen.vv3.Empty'', ce_errors = []\<rparr>]\<rparr>"

lemma demo_generates: "generate demo_env ''api.json'' = Some (Inr demo_v3)"
  by code_simp

lemma Add_exact_witness:
  "Add healthy demo_env ''api.json'' ''/bundle'' False demo_root =
     Some (Some (DirNode (AList.update ''v3'' (layer_node demo_v3) (AList.delete ''v3'' (the (dir_entries demo_root))))), None)"
proof -
  have "dir_entries demo_root = Some (the (dir_entries demo_root))" "lf_version demo_v3 = ''v3''"
    "writable False (map_of (the (dir_entries demo_root)) ''v3'')"
    "machine_ok healthy ''v3'' (map_of (the (dir_entries demo_root)) ''v3'')"
    by code_simp+
  then show ?thesis
    using Add_exact [of healthy demo_env "''api.json''" "''/bundle''" False demo_root
        "Some (DirNode (AList.update ''v3'' (layer_node demo_v3) (AList.delete ''v3'' (the (dir_entries demo_root)))))"]
      demo_generates by auto
qed

definition demo_retire :: "unit retire_yaml" where
  "demo_retire =
     \<lparr>ry_decode = (\<lambda>raw. Inl ''not YAML''),
      ry_marshal = (\<lambda>rf. if map re_version (rf_overrides rf) = [''v1''] then Inr ''rules'' else Inl ''too many''),
      ry_empty = ()\<rparr>"

text \<open>A machine whose disk is full: files are made and stay empty.\<close>

definition full_disk :: disk where
  "full_disk = healthy\<lparr>dk_write := \<lambda>p. Some (Some 0, ''no space left on device'')\<rparr>"

definition demo_commands :: "(disk \<times> command) list" where
  "demo_commands =
     [(healthy, CAdd ''api.json'' True), (healthy, CRetire ''v1''), (full_disk, CRemove ''v1''),
      (full_disk, CAdd ''api.json'' True), (healthy, CAdd ''missing.json'' False)]"

lemma demo_spares: "list_all (\<lambda>(dk, c). spares demo_env ''v2'' c) demo_commands"
  by code_simp

text \<open>Adding a layer by force on that machine has destroyed the layer when it fails.\<close>

definition three_layers :: "node option" where
  "three_layers = Some (DirNode [(''v2'', demo_layer ''v2''), (''v3'', demo_layer ''v3'')])"

lemma failing_add_destroys:
  "(case Add full_disk demo_env ''api.json'' ''/bundle'' True three_layers of
      None \<Rightarrow> (None, None) | Some (root, fault) \<Rightarrow> (entry root ''v3'', fault)) =
   (Some (DirNode [(''descriptors.binpb'', FileNode '''')]), Some (GenError ''no space left on device''))"
  by code_simp

lemma frozen_layer_witness:
  "entry (foldl (exec demo_env demo_retire ''/bundle'') demo_root demo_commands) ''v2'' = Some (demo_layer ''v2'') \<and>
   load_layer demo_codecs (foldl (exec demo_env demo_retire ''/bundle'') demo_root demo_commands) ''v2'' =
     load_layer demo_codecs demo_root ''v2''"
proof -
  have "entry demo_root ''v2'' = Some (DirNode [(''descriptors.binpb'', FileNode ''v2.proto''),
     (''openapi.json'', FileNode ''{}''), (''versions.yaml'', FileNode ''v2'')])"
    by code_simp
  from frozen_layer [OF this demo_spares, of demo_retire "''/bundle''" demo_codecs] show ?thesis
    by (simp add: demo_layer_def)
qed

definition two_layers :: "node option" where
  "two_layers = Some (DirNode [(''v2'', demo_layer ''v2''), (''v1'', demo_layer ''v1'')])"

definition one_rule :: "(unit, string) codecs" where
  "one_rule = demo_codecs\<lparr>decode_resolution := \<lambda>s. Inr \<lparr>yf_version = 1, yf_overrides = [hd demo_rules]\<rparr>\<rparr>"

definition retired :: "node option" where
  "retired = Some (DirNode [(''v2'', demo_layer ''v2''), (''v1'', demo_layer ''v1''), (''resolution.yaml'', FileNode ''rules'')])"

definition removed :: "node option" where
  "removed = Some (DirNode [(''v2'', demo_layer ''v2''), (''resolution.yaml'', FileNode ''rules'')])"

lemma removed_declares: "declares one_rule removed x v \<longrightarrow> v = ''v2''"
proof (cases "x = ''v2''")
  case True
  have "loadVersions one_rule removed ''v2'' = Inr \<lparr>yb_version = 1, yb_contracts = [demo_contract ''v2'']\<rparr>"
    "trim_space (yk_version (demo_contract ''v2'')) = ''v2''"
    by code_simp+
  then show ?thesis by (simp add: declares_def True)
next
  case False
  then have "node_at removed [x, fileVersions] = Inl NotDir \<or> node_at removed [x, fileVersions] = Inl NotExist"
    by (auto simp: removed_def)
  then show ?thesis by (auto simp: declares_def loadVersions_def ReadFile_def)
qed

lemma retired_then_removed_witness: "\<exists>e. Load one_rule ''/bundle'' removed = Inl e"
proof (rule retired_then_removed)
  show "reads_back one_rule demo_retire"
    by (auto simp: reads_back_def demo_retire_def one_rule_def demo_rules_def)
  show "Retire healthy demo_retire ''/bundle'' ''v1'' two_layers = (retired, None)" by code_simp
  show "Remove healthy ''/bundle'' ''v1'' retired = (removed, None)" by code_simp
  show "(''v1'' :: string) \<noteq> fileResolution" by code_simp
  have "trim_space ''v1'' = ''v1''" by code_simp
  then show "\<nexists>x. declares one_rule removed x (trim_space ''v1'')"
    using removed_declares by fastforce
qed

end
