(* ===== verification/Cli.thy ===== *)
theory Cli
  imports Go_Flag Gen_History Drift
begin

text \<open>
  The command \<open>wavefront-bundle\<close>: \<open>cmd/wavefront-bundle/main.go\<close>.

  A run is a function from the state of the machine (the file tree below \<open>/\<close>, what has been written
  to the two output streams) to the state it leaves and how it ends.  A path is resolved by its
  cleaned elements; there are no symbolic links.  The machine may fail any call that changes the tree.  A subcommand that works on a bundle directory
  (\<open>bundlegen\<close>) gets the subtree at its path, and what it leaves is put back in that place.
\<close>

section \<open>The machine\<close>

record ('x, 'm, 'y) cli_env =
  ce_gen :: gen_env                   \<comment> \<open>\<open>env_read\<close> is replaced by the file tree\<close>
  ce_codecs :: "('x, 'm) codecs"
  ce_retire :: "'y retire_yaml"
  ce_cwd :: string
  ce_today :: string
  ce_disk :: disk                     \<comment> \<open>by the elements of the paths from \<open>/\<close>\<close>
  ce_print :: "string \<Rightarrow> string \<times> string option"   \<comment> \<open>what standard output took, and the error\<close>

record machine =
  mc_files :: "node option"
  mc_err :: string
  mc_out :: string

text \<open>How a run ends: \<open>os.Exit\<close>, a panic nobody recovers, or never.\<close>

datatype ending = Exit int | Crash string | NoReturn

type_synonym action = "machine \<Rightarrow> machine \<times> ending"

definition locate :: "('x, 'm, 'y) cli_env \<Rightarrow> string \<Rightarrow> string list" where
  "locate E p = clean_elems (if is_rooted p then p else ce_cwd E @ ''/'' @ p)"

text \<open>What is at a path: below a file, that file stands in the way.\<close>

fun place :: "node option \<Rightarrow> string list \<Rightarrow> node option" where
  "place None p = None"
| "place (Some n) [] = Some n"
| "place (Some (FileNode s)) (x # xs) = Some (FileNode s)"
| "place (Some (DirNode es)) (x # xs) = place (map_of es x) xs"

text \<open>Putting a subtree in its place, with the directories that lead to it.\<close>

fun graft :: "node option \<Rightarrow> string list \<Rightarrow> node \<Rightarrow> node" where
  "graft root [] n = n"
| "graft None (x # xs) n = DirNode [(x, graft None xs n)]"
| "graft (Some (FileNode s)) (x # xs) n = FileNode s"
| "graft (Some (DirNode es)) (x # xs) n = DirNode (AList.update x (graft (map_of es x) xs n) es)"

definition put :: "string list \<Rightarrow> node option \<Rightarrow> machine \<Rightarrow> machine" where
  "put p sub w =
     (case sub of None \<Rightarrow> w | Some n \<Rightarrow> w\<lparr>mc_files := Some (graft (mc_files w) p n)\<rparr>)"

definition read_path :: "('x, 'm, 'y) cli_env \<Rightarrow> machine \<Rightarrow> string \<Rightarrow> string + string" where
  "read_path E w p =
     (case ReadFile (mc_files w) (locate E p) of
        Inl e \<Rightarrow> Inl (read_operation e @ '' '' @ p @ '': '' @ io_error_text e)
      | Inr s \<Rightarrow> Inr s)"

definition gen_of :: "('x, 'm, 'y) cli_env \<Rightarrow> machine \<Rightarrow> gen_env" where
  "gen_of E w = (ce_gen E)\<lparr>env_read := read_path E w\<rparr>"

definition disk_at :: "('x, 'm, 'y) cli_env \<Rightarrow> string \<Rightarrow> disk" where
  "disk_at E dir = below (locate E dir) (ce_disk E)"

definition eprintln :: "string \<Rightarrow> machine \<Rightarrow> machine" where
  "eprintln msg w = w\<lparr>mc_err := mc_err w @ msg @ newline\<rparr>"

section \<open>Subcommands\<close>

text \<open>Parsing the flags of a subcommand, with the two ways to end there.\<close>

definition with_flags :: "flag_set \<Rightarrow> string list \<Rightarrow> (flag_values \<Rightarrow> action) \<Rightarrow> action" where
  "with_flags fs args command w =
     (case Parse fs args of
        Inl e \<Rightarrow> (w\<lparr>mc_err := mc_err w @ flag_output fs e\<rparr>, Exit (if e = ErrHelp then 0 else 2))
      | Inr (vals, _) \<Rightarrow> command vals w)"

definition usage :: "string \<Rightarrow> action" where
  "usage msg w = (eprintln (''usage: wavefront-bundle '' @ msg) w, Exit 2)"

definition failed :: "string \<Rightarrow> string \<Rightarrow> action" where
  "failed sub err w = (eprintln (''wavefront-bundle '' @ sub @ '': '' @ err) w, Exit 1)"

definition ended :: "string \<Rightarrow> gen_fault option \<Rightarrow> action" where
  "ended sub fault w =
     (case fault of
        None \<Rightarrow> (w, Exit 0)
      | Some (GenError err) \<Rightarrow> failed sub err w
      | Some (GenPanic m) \<Rightarrow> (w, Crash m))"

definition string_def :: "string \<Rightarrow> string \<Rightarrow> flag_def" where
  "string_def name text = \<lparr>fl_name = name, fl_kind = StringFlag, fl_usage = text\<rparr>"

definition bool_def :: "string \<Rightarrow> string \<Rightarrow> flag_def" where
  "bool_def name text = \<lparr>fl_name = name, fl_kind = BoolFlag, fl_usage = text\<rparr>"

definition add_flags :: flag_set where
  "add_flags = \<lparr>fs_name = ''add'', fs_flags =
     [string_def ''openapi'' ''source OpenAPI JSON: a file path or an http(s):// URL'',
      string_def ''bundle'' ''bundle directory to add the layer into'',
      bool_def ''force'' (''overwrite an existing same-info.version layer dir (pre-commit iteration escape hatch; '' @
        ''default refuses for frozen-layer safety)'')]\<rparr>"

definition add_command :: "('x, 'm, 'y) cli_env \<Rightarrow> flag_values \<Rightarrow> action" where
  "add_command E vals w =
     (let openapi = string_flag vals ''openapi''; dir = string_flag vals ''bundle'' in
        if openapi = '''' \<or> dir = '''' then usage ''add --openapi <file|url> --bundle <dir> [--force]'' w
        else
          (case Add (disk_at E dir) (gen_of E w) openapi dir (bool_flag vals ''force'') (place (mc_files w) (locate E dir)) of
             None \<Rightarrow> (w, NoReturn)
           | Some (sub, fault) \<Rightarrow> ended ''add'' fault (put (locate E dir) sub w)))"

definition runAdd :: "('x, 'm, 'y) cli_env \<Rightarrow> string list \<Rightarrow> action" where
  "runAdd E args = with_flags add_flags args (add_command E)"

definition remove_flags :: flag_set where
  "remove_flags = \<lparr>fs_name = ''remove'', fs_flags =
     [string_def ''version'' ''the contract version (layer) to remove'',
      string_def ''bundle'' ''bundle directory to remove the layer from'']\<rparr>"

definition remove_command :: "('x, 'm, 'y) cli_env \<Rightarrow> flag_values \<Rightarrow> action" where
  "remove_command E vals w =
     (let version = string_flag vals ''version''; dir = string_flag vals ''bundle'' in
        if version = '''' \<or> dir = '''' then usage ''remove --version <id> --bundle <dir>'' w
        else
          (case Remove (disk_at E dir) dir version (place (mc_files w) (locate E dir)) of
             (sub, fault) \<Rightarrow> ended ''remove'' fault (put (locate E dir) sub w)))"

definition runRemove :: "('x, 'm, 'y) cli_env \<Rightarrow> string list \<Rightarrow> action" where
  "runRemove E args = with_flags remove_flags args (remove_command E)"

definition retire_flags :: flag_set where
  "retire_flags = \<lparr>fs_name = ''retire'', fs_flags =
     [string_def ''version'' ''the contract version (layer) to retire'',
      string_def ''bundle'' ''bundle directory containing the layer'']\<rparr>"

definition retire_command :: "('x, 'm, 'y) cli_env \<Rightarrow> flag_values \<Rightarrow> action" where
  "retire_command E vals w =
     (let version = string_flag vals ''version''; dir = string_flag vals ''bundle'' in
        if version = '''' \<or> dir = '''' then usage ''retire --version <id> --bundle <dir>'' w
        else
          (case Retire (disk_at E dir) (ce_retire E) dir version (place (mc_files w) (locate E dir)) of
             (sub, fault) \<Rightarrow> ended ''retire'' fault (put (locate E dir) sub w)))"

definition runRetire :: "('x, 'm, 'y) cli_env \<Rightarrow> string list \<Rightarrow> action" where
  "runRetire E args = with_flags retire_flags args (retire_command E)"

definition verify_flags :: flag_set where
  "verify_flags = \<lparr>fs_name = ''verify'', fs_flags = [string_def ''bundle'' ''bundle directory to verify'']\<rparr>"

definition verify_command :: "('x, 'm, 'y) cli_env \<Rightarrow> flag_values \<Rightarrow> action" where
  "verify_command E vals w =
     (let dir = string_flag vals ''bundle'' in
        if dir = '''' then usage ''verify --bundle <dir>'' w
        else
          (case Verify (ce_codecs E) dir (place (mc_files w) (locate E dir)) of
             Inl err \<Rightarrow> failed ''verify'' err w
           | Inr _ \<Rightarrow> (w, Exit 0)))"

definition runVerify :: "('x, 'm, 'y) cli_env \<Rightarrow> string list \<Rightarrow> action" where
  "runVerify E args = with_flags verify_flags args (verify_command E)"

section \<open>draft-shim\<close>

definition draft_flags :: flag_set where
  "draft_flags = \<lparr>fs_name = ''draft-shim'', fs_flags =
     [string_def ''bundle'' ''bundle directory containing the two layers'',
      string_def ''from'' ''the old contract version (layer subdir) to bridge from'',
      string_def ''to'' ''the new contract version (layer subdir) to bridge to'',
      string_def ''out'' ''write the drafted override to this file; default stdout'',
      bool_def ''strict'' (''suppress confident case-rename matches; surface every removed/added pair as '' @
        ''a candidate'')]\<rparr>"

definition write_draft :: "('x, 'm, 'y) cli_env \<Rightarrow> string \<Rightarrow> string \<Rightarrow> action" where
  "write_draft E out text w =
     (if out \<noteq> '''' then
        (case write_file (ce_disk E) (mc_files w) (locate E out) text of
           (root, Some e) \<Rightarrow>
             failed ''draft-shim'' (failure_text (\<lambda>e. ''open '' @ out @ '': '' @ io_error_text e) e)
               (w\<lparr>mc_files := root\<rparr>)
         | (root, None) \<Rightarrow> (w\<lparr>mc_files := root\<rparr>, Exit 0))
      else
        (case ce_print E text of
           (taken, None) \<Rightarrow> (w\<lparr>mc_out := mc_out w @ taken\<rparr>, Exit 0)
         | (taken, Some err) \<Rightarrow> failed ''draft-shim'' err (w\<lparr>mc_out := mc_out w @ taken\<rparr>)))"

definition draft_command :: "('x, 'm, 'y) cli_env \<Rightarrow> flag_values \<Rightarrow> action" where
  "draft_command E vals w =
     (let dir = string_flag vals ''bundle''; old = string_flag vals ''from''; new = string_flag vals ''to'' in
        if dir = '''' \<or> old = '''' \<or> new = '''' then
          usage ''draft-shim --bundle <dir> --from <version> --to <version> [--out <file>] [--strict]'' w
        else
          (case read_path E w (Join [dir, old, ''openapi.json'']) of
             Inl err \<Rightarrow> failed ''draft-shim'' err w
           | Inr from_bytes \<Rightarrow>
               (case read_path E w (Join [dir, new, ''openapi.json'']) of
                  Inl err \<Rightarrow> failed ''draft-shim'' err w
                | Inr to_bytes \<Rightarrow>
                    (case (if bool_flag vals ''strict'' then DraftShimStrict (gen_of E w) from_bytes to_bytes
                           else DraftShim (gen_of E w) from_bytes to_bytes) of
                       None \<Rightarrow> (w, NoReturn)
                     | Some (Inl (GenError err)) \<Rightarrow> failed ''draft-shim'' err w
                     | Some (Inl (GenPanic m)) \<Rightarrow> (w, Crash m)
                     | Some (Inr proposal) \<Rightarrow>
                         write_draft E (string_flag vals ''out'') (RenderYAML (ce_today E) proposal '''') w))))"

definition runDraftShim :: "('x, 'm, 'y) cli_env \<Rightarrow> string list \<Rightarrow> action" where
  "runDraftShim E args = with_flags draft_flags args (draft_command E)"

section \<open>Dispatch\<close>

definition run :: "('x, 'm, 'y) cli_env \<Rightarrow> string list \<Rightarrow> action" where
  "run E args w =
     (case args of
        [] \<Rightarrow> usage ''<add|remove|retire|verify|draft-shim> [flags]'' w
      | sub # rest \<Rightarrow>
          if sub = ''add'' then runAdd E rest w
          else if sub = ''remove'' then runRemove E rest w
          else if sub = ''retire'' then runRetire E rest w
          else if sub = ''verify'' then runVerify E rest w
          else if sub = ''draft-shim'' then runDraftShim E rest w
          else (eprintln (''wavefront-bundle: unknown subcommand '' @ go_quote sub) w, Exit 2))"

end
