(* ===== verification/Cli_Facts.thy ===== *)
theory Cli_Facts
  imports Cli
begin

text \<open>
  What a run of \<open>wavefront-bundle\<close> does to the file tree and how it ends: the exit status as a function
  of the command line, the paths a command owns, and reading flags in any order and spelling.
\<close>

section \<open>Places\<close>

text \<open>Two paths neither of which leads to the other.\<close>

definition apart :: "'a list \<Rightarrow> 'a list \<Rightarrow> bool" where
  "apart p q = (\<not> prefix p q \<and> \<not> prefix q p)"

lemma apart_simps [simp]:
  "\<not> apart [] q" "\<not> apart p []" "apart (x # p) (y # q) \<longleftrightarrow> (x = y \<longrightarrow> apart p q)"
  by (auto simp: apart_def)

lemma place_None [simp]: "place None p = None"
  by (cases p) auto

lemma graft_place: "place root p = Some n \<Longrightarrow> root = Some (graft root p n)"
proof (induction root p rule: place.induct)
  case (4 es x xs)
  then obtain m where "map_of es x = Some m" by (cases "map_of es x") auto
  with 4 show ?case by (simp add: update_triv)
qed auto

lemma put_same [simp]: "put p (place (mc_files w) p) w = w"
  using graft_place [of "mc_files w" p] by (cases "place (mc_files w) p") (simp_all add: put_def)

lemma graft_apart: "apart p q \<Longrightarrow> node_at (Some (graft root p n)) q = node_at root q"
proof (induction root p n arbitrary: q rule: graft.induct)
  case (2 x xs n)
  then show ?case by (cases q) auto
next
  case (3 s x xs n)
  then show ?case by (cases q) auto
next
  case (4 es x xs n)
  then show ?case by (cases q) (auto simp: update_conv')
qed simp

lemma node_at_place: "q \<noteq> [] \<Longrightarrow> node_at root (p @ q) = node_at (place root p) q"
proof (induction root p rule: place.induct)
  case (3 s x xs)
  then show ?case by (cases q) auto
qed auto

lemma node_at_graft:
  "q \<noteq> [] \<Longrightarrow> (\<And>s. place root p = Some (FileNode s) \<Longrightarrow> n = FileNode s) \<Longrightarrow>
   node_at (Some (graft root p n)) (p @ q) = node_at (Some n) q"
proof (induction root p n rule: graft.induct)
  case (3 s x xs n)
  then show ?case by (cases q) auto
qed (auto simp: update_conv')

lemma put_node_apart:
  "put_node root p n = Inr root' \<Longrightarrow> apart p q \<Longrightarrow> node_at (Some root') q = node_at root q"
proof (induction root p n arbitrary: q root' rule: put_node.induct)
  case (4 es x xs n)
  then show ?case by (cases q) (auto simp: result_simps update_conv')
qed auto

section \<open>What a command may change\<close>

text \<open>The tree is unchanged apart from the paths in \<open>S\<close>, and unchanged altogether when the command does
  not end with status 0 and the machine failed none of its calls at these paths or below them.\<close>

definition sound_at :: "disk \<Rightarrow> string list \<Rightarrow> bool" where
  "sound_at dk p =
     (\<forall>q. prefix p q \<longrightarrow> dk_remove dk q = None \<and> dk_mkdir dk q = None \<and> dk_write dk q = None)"

definition keeps :: "disk \<Rightarrow> string list list \<Rightarrow> machine \<Rightarrow> machine \<times> ending \<Rightarrow> bool" where
  "keeps dk S w r =
     ((snd r \<noteq> Exit 0 \<and> list_all (sound_at dk) S \<longrightarrow> mc_files (fst r) = mc_files w) \<and>
      (\<forall>q. list_all (\<lambda>p. apart p q) S \<longrightarrow> node_at (mc_files (fst r)) q = node_at (mc_files w) q))"

lemma sound_below:
  "sound_at dk (p @ q) \<Longrightarrow>
   dk_remove (below p dk) q = None \<and> dk_mkdir (below p dk) q = None \<and> dk_write (below p dk) (q @ r) = None"
  by (simp add: sound_at_def below_def)

named_theorems keeping

lemma keeps_refl [keeping]: "keeps dk S w (w, out)"
  by (simp add: keeps_def)

lemma keeps_usage [keeping]: "keeps dk S w (usage msg w)"
  by (simp add: keeps_def usage_def eprintln_def)

lemma keeps_failed [keeping]: "keeps dk S w (failed sub err w)"
  by (simp add: keeps_def failed_def eprintln_def)

lemma keeps_streams [keeping]:
  "keeps dk S w (w\<lparr>mc_err := e\<rparr>, out)" "keeps dk S w (w\<lparr>mc_out := t\<rparr>, out)"
  "keeps dk S w (failed sub err (w\<lparr>mc_out := t\<rparr>))"
  by (simp_all add: keeps_def failed_def eprintln_def)

lemma ended_files: "mc_files (fst (ended sub fault w)) = mc_files w"
  by (simp add: ended_def failed_def eprintln_def split: option.split gen_fault.split)

lemma ended_ok: "snd (ended sub fault w) = Exit 0 \<longleftrightarrow> fault = None"
  by (simp add: ended_def failed_def split: option.split gen_fault.split)

context bundle_command
begin

lemma placed_frame:
  assumes "x \<in> touches" and "\<And>x. x \<in> touches \<Longrightarrow> apart (p @ [x]) q"
  shows "node_at (mc_files (put p (fst (run (place (mc_files w) p))) w)) q = node_at (mc_files w) q"
proof (cases "fst (run (place (mc_files w) p))")
  case None
  then show ?thesis by (simp add: put_def)
next
  case (Some n)
  show ?thesis
  proof (cases "apart p q")
    case True
    then show ?thesis by (simp add: put_def Some graft_apart)
  next
    case False
    moreover have "\<not> prefix q p" using assms(2) [OF assms(1)] by (auto simp: apart_def)
    ultimately obtain r where q: "q = p @ r" by (auto simp: apart_def prefix_def)
    with assms obtain y ys where r: "r = y # ys" by (cases r) (auto simp: apart_def)
    with assms q have y: "y \<notin> touches" by (auto simp: apart_def)
    have "n = FileNode s" if "place (mc_files w) p = Some (FileNode s)" for s
      using stays_file [of s] Some that by simp
    then have "node_at (Some (graft (mc_files w) p n)) q = node_at (Some n) r"
      unfolding q r by (intro node_at_graft) auto
    also have "\<dots> = node_at (mc_files w) q"
      using node_kept [OF y, of "place (mc_files w) p" ys] node_at_place [of r "mc_files w" p] by (simp add: Some q r)
    finally show ?thesis by (simp add: put_def Some)
  qed
qed

lemma keeps_ended:
  assumes "run (place (mc_files w) p) = (sub, fault)" and "touches = {x}"
    and "fault \<noteq> None \<Longrightarrow> sound_at dk (p @ [x]) \<Longrightarrow> sub = place (mc_files w) p"
  shows "keeps dk [p @ [x]] w (ended name fault (put p sub w))"
  using placed_frame [of x p _ w] assms by (auto simp: keeps_def ended_files ended_ok)

end

section \<open>The paths a command owns\<close>

definition owned :: "('x, 'm, 'y) cli_env \<Rightarrow> machine \<Rightarrow> string \<Rightarrow> flag_values \<Rightarrow> string list list" where
  "owned E w sub vals =
     (let dir = locate E (string_flag vals ''bundle'') in
        if sub = ''add'' then
          (case generate (gen_of E w) (string_flag vals ''openapi'') of
             Some (Inr lf) \<Rightarrow> [dir @ [lf_version lf]] | _ \<Rightarrow> [])
        else if sub = ''remove'' then [dir @ [string_flag vals ''version'']]
        else if sub = ''retire'' then [dir @ [fileResolution]]
        else if sub = ''draft-shim'' \<and> string_flag vals ''out'' \<noteq> '''' then [locate E (string_flag vals ''out'')]
        else [])"

definition flags_of :: "string \<Rightarrow> flag_set option" where
  "flags_of sub =
     map_of [(''add'', add_flags), (''remove'', remove_flags), (''retire'', retire_flags),
             (''verify'', verify_flags), (''draft-shim'', draft_flags)] sub"

definition command_of :: "('x, 'm, 'y) cli_env \<Rightarrow> string \<Rightarrow> flag_values \<Rightarrow> action" where
  "command_of E sub =
     (if sub = ''add'' then add_command E else if sub = ''remove'' then remove_command E
      else if sub = ''retire'' then retire_command E else if sub = ''verify'' then verify_command E
      else draft_command E)"

lemma run_eq: "run E args w =
    (case args of
       [] \<Rightarrow> usage ''<add|remove|retire|verify|draft-shim> [flags]'' w
     | sub # rest \<Rightarrow>
         (case flags_of sub of
            None \<Rightarrow> (eprintln (''wavefront-bundle: unknown subcommand '' @ go_quote sub) w, Exit 2)
          | Some fs \<Rightarrow> with_flags fs rest (command_of E sub) w))"
  by (auto simp: run_def flags_of_def command_of_def runAdd_def runRemove_def runRetire_def runVerify_def
      runDraftShim_def split: list.split)

lemma Add_keeps:
  assumes "Add dk env src dir force root = Some (sub, fault)"
  shows "sub = root \<and> fault \<noteq> None \<or>
    (\<exists>lf. generate env src = Some (Inr lf) \<and> writeLayer dk dir [lf_version lf] lf force root = (sub, fault))"
  using assms by (auto simp: Add_def split: option.splits sum.splits)

lemma writeLayer_failed:
  assumes "writeLayer (below p dk) dir [v] lf force root = (sub, Some e)" and "sound_at dk (p @ [v])"
  shows "sub = root"
proof -
  have "machine_ok (below p dk) v old" for old
    using sound_below [OF assms(2)] sound_below [OF assms(2), of "[x]" for x]
    by (simp add: machine_ok_def fill_ok_def)
  with writeLayer_cases [of "below p dk" dir v lf force root] assms(1) show ?thesis
    by (auto simp: layer_written_def)
qed

lemma add_keeps: "keeps (ce_disk E) (owned E w ''add'' vals) w (add_command E vals w)"
proof -
  let ?dir = "string_flag vals ''bundle''"
  let ?p = "locate E ?dir"
  have "keeps (ce_disk E) (owned E w ''add'' vals) w (ended ''add'' fault (put ?p sub w))"
    if add: "Add (disk_at E ?dir) (gen_of E w) (string_flag vals ''openapi'') ?dir force (place (mc_files w) ?p)
               = Some (sub, fault)" for force sub fault
    using Add_keeps [OF add]
  proof (elim disjE exE conjE)
    assume "sub = place (mc_files w) ?p" "fault \<noteq> None"
    then show ?thesis by (auto simp: keeps_def ended_files)
  next
    fix lf
    assume lf: "generate (gen_of E w) (string_flag vals ''openapi'') = Some (Inr lf)"
      "writeLayer (disk_at E ?dir) ?dir [lf_version lf] lf force (place (mc_files w) ?p) = (sub, fault)"
    have "fault \<noteq> None \<Longrightarrow> sound_at (ce_disk E) (?p @ [lf_version lf]) \<Longrightarrow> sub = place (mc_files w) ?p"
      using lf(2) by (auto simp: disk_at_def dest: writeLayer_failed)
    from write_layer.keeps_ended [OF lf(2) refl this] show ?thesis
      by (simp add: owned_def Let_def lf(1))
  qed
  then show ?thesis
    by (auto simp: add_command_def Let_def intro: keeping split: option.split)
qed

lemma remove_keeps: "keeps (ce_disk E) (owned E w ''remove'' vals) w (remove_command E vals w)"
proof -
  let ?dir = "string_flag vals ''bundle''" and ?v = "string_flag vals ''version''"
  let ?p = "locate E ?dir"
  have "keeps (ce_disk E) (owned E w ''remove'' vals) w (ended ''remove'' fault (put ?p sub w))"
    if r: "Remove (disk_at E ?dir) ?dir ?v (place (mc_files w) ?p) = (sub, fault)" for sub fault
  proof -
    have "fault \<noteq> None \<Longrightarrow> sound_at (ce_disk E) (?p @ [?v]) \<Longrightarrow> sub = place (mc_files w) ?p"
      using Remove_cases [of "disk_at E ?dir" ?dir ?v "place (mc_files w) ?p"] sound_below [of "ce_disk E" ?p "[?v]"] r
      by (auto simp: disk_at_def)
    from remove_layer.keeps_ended [OF r refl this] show ?thesis by (simp add: owned_def Let_def)
  qed
  then show ?thesis
    by (auto simp: remove_command_def Let_def intro: keeping split: prod.split)
qed

lemma retire_keeps: "keeps (ce_disk E) (owned E w ''retire'' vals) w (retire_command E vals w)"
proof -
  let ?dir = "string_flag vals ''bundle''" and ?v = "string_flag vals ''version''"
  let ?p = "locate E ?dir"
  have "keeps (ce_disk E) (owned E w ''retire'' vals) w (ended ''retire'' fault (put ?p sub w))"
    if r: "Retire (disk_at E ?dir) (ce_retire E) ?dir ?v (place (mc_files w) ?p) = (sub, fault)" for sub fault
  proof -
    have "fault \<noteq> None \<Longrightarrow> sound_at (ce_disk E) (?p @ [fileResolution]) \<Longrightarrow> sub = place (mc_files w) ?p"
      using Retire_cases [of "place (mc_files w) ?p" "disk_at E ?dir" "ce_retire E" ?dir ?v] r
        sound_below [of "ce_disk E" ?p "[fileResolution]" "[]"]
      by (auto simp: disk_at_def)
    from retire_layer.keeps_ended [OF r refl this] show ?thesis by (simp add: owned_def Let_def)
  qed
  then show ?thesis
    by (auto simp: retire_command_def Let_def intro: keeping split: prod.split)
qed

lemma verify_keeps: "keeps dk S w (verify_command E vals w)"
  by (auto simp: verify_command_def Let_def intro: keeping split: sum.split)

lemma WriteFile_apart: "WriteFile root p s = Inr n \<Longrightarrow> apart p q \<Longrightarrow> node_at (Some n) q = node_at root q"
  by (auto simp: WriteFile_def split: sum.splits node.splits dest: put_node_apart)

lemma failed_files: "mc_files (fst (failed sub err w)) = mc_files w"
  by (simp add: failed_def eprintln_def)

lemma write_draft_keeps:
  "keeps (ce_disk E) (if out = '''' then [] else [locate E out]) w (write_draft E out text w)"
proof (cases "out = ''''")
  case True
  then show ?thesis by (auto simp: write_draft_def intro: keeping split: prod.split option.split)
next
  case False
  show ?thesis
  proof (cases rule: write_file_cases [of "ce_disk E" "mc_files w" "locate E out" "text"])
    case (written n)
    with False show ?thesis by (simp add: write_draft_def keeps_def WriteFile_apart)
  next
    case (truncated k n err)
    then have "\<not> sound_at (ce_disk E) (locate E out)" by (auto simp: sound_at_def)
    with truncated False show ?thesis by (simp add: write_draft_def keeps_def failed_files WriteFile_apart)
  next
    case (unopened f)
    with False show ?thesis by (simp add: write_draft_def keeps_def failed_files)
  qed
qed

lemma draft_keeps: "keeps (ce_disk E) (owned E w ''draft-shim'' vals) w (draft_command E vals w)"
proof -
  define S where "S = owned E w ''draft-shim'' vals"
  have S: "S = (if string_flag vals ''out'' = '''' then [] else [locate E (string_flag vals ''out'')])"
    by (simp add: S_def owned_def)
  have drafted: "keeps (ce_disk E) S w (write_draft E (string_flag vals ''out'') t w)" for t
    unfolding S by (rule write_draft_keeps)
  have "keeps (ce_disk E) S w (draft_command E vals w)"
    unfolding draft_command_def Let_def
    by (simp only: split: if_split sum.split option.split gen_fault.split)
      (intro conjI allI impI keeping drafted)
  then show ?thesis by (simp only: S_def)
qed

lemma command_keeps: "flags_of sub = Some fs \<Longrightarrow> keeps (ce_disk E) (owned E w sub vals) w (command_of E sub vals w)"
  using add_keeps remove_keeps retire_keeps verify_keeps draft_keeps
  by (auto simp: command_of_def flags_of_def split: if_splits)

section \<open>Exit statuses\<close>

text \<open>The flags a subcommand insists on, and the command lines that get past the usage checks.\<close>

definition required_flags :: "string \<Rightarrow> string list" where
  "required_flags sub =
     (if sub = ''add'' then [''openapi'', ''bundle'']
      else if sub = ''remove'' \<or> sub = ''retire'' then [''version'', ''bundle'']
      else if sub = ''verify'' then [''bundle'']
      else [''bundle'', ''from'', ''to''])"

definition understood :: "string list \<Rightarrow> bool" where
  "understood args =
     (case args of
        [] \<Rightarrow> False
      | sub # rest \<Rightarrow>
          (case flags_of sub of
             None \<Rightarrow> False
           | Some fs \<Rightarrow>
               (case Parse fs rest of
                  Inl e \<Rightarrow> e = ErrHelp
                | Inr (vals, _) \<Rightarrow> list_all (\<lambda>n. string_flag vals n \<noteq> '''') (required_flags sub))))"

lemma failed_status [simp]: "snd (failed sub err w) = Exit 1"
  by (simp add: failed_def)

lemma ended_status: "snd (ended sub fault w) \<in> {Exit 0, Exit 1} \<union> range Crash"
  by (simp add: ended_def split: option.split gen_fault.split)

lemma write_draft_status: "snd (write_draft E out t w) \<in> {Exit 0, Exit 1}"
  by (auto simp: write_draft_def split: prod.split option.split)

lemma command_status:
  assumes "flags_of sub = Some fs" and "list_all (\<lambda>n. string_flag vals n \<noteq> '''') (required_flags sub)"
  shows "snd (command_of E sub vals w) \<in> {Exit 0, Exit 1, NoReturn} \<union> range Crash"
proof -
  consider "sub = ''add''" | "sub = ''remove''" | "sub = ''retire''" | "sub = ''verify''" | "sub = ''draft-shim''"
    using assms(1) by (auto simp: flags_of_def split: if_splits)
  then show ?thesis
  proof cases
    case 1
    then show ?thesis using assms(2) ended_status
      by (auto simp: command_of_def required_flags_def add_command_def Let_def split: option.split)
  next
    case 2
    then show ?thesis using assms(2) ended_status
      by (auto simp: command_of_def required_flags_def remove_command_def Let_def split: prod.split)
  next
    case 3
    then show ?thesis using assms(2) ended_status
      by (auto simp: command_of_def required_flags_def retire_command_def Let_def split: prod.split)
  next
    case 4
    then show ?thesis using assms(2)
      by (auto simp: command_of_def required_flags_def verify_command_def Let_def split: sum.split)
  next
    case 5
    then show ?thesis using assms(2) write_draft_status
      by (auto simp: command_of_def required_flags_def draft_command_def Let_def
          split: sum.split option.split gen_fault.split)
  qed
qed

lemma command_refuses:
  assumes "flags_of sub = Some fs" and "\<not> list_all (\<lambda>n. string_flag vals n \<noteq> '''') (required_flags sub)"
  shows "\<exists>msg. command_of E sub vals w = usage msg w"
proof -
  consider "sub = ''add''" | "sub = ''remove''" | "sub = ''retire''" | "sub = ''verify''" | "sub = ''draft-shim''"
    using assms(1) by (auto simp: flags_of_def split: if_splits)
  then show ?thesis
    using assms(2)
    by cases
      (auto simp: command_of_def required_flags_def add_command_def remove_command_def retire_command_def
        verify_command_def draft_command_def Let_def)
qed

lemma flag_output_nonempty [simp]: "flag_output fs e \<noteq> ''''"
  by (cases e) (simp_all add: usage_text_def)

lemma eprintln_text: "\<exists>msg. msg \<noteq> '''' \<and> eprintln m w = w\<lparr>mc_err := mc_err w @ msg\<rparr>"
  by (rule exI [of _ "m @ newline"]) (simp add: eprintln_def)

lemma usage_ends: "\<exists>msg. msg \<noteq> '''' \<and> usage m w = (w\<lparr>mc_err := mc_err w @ msg\<rparr>, Exit 2)"
  using eprintln_text by (simp add: usage_def)

section \<open>Properties\<close>

definition scope :: "('x, 'm, 'y) cli_env \<Rightarrow> machine \<Rightarrow> string list \<Rightarrow> string list list" where
  "scope E w args =
     (case args of
        [] \<Rightarrow> []
      | sub # rest \<Rightarrow>
          (case flags_of sub of
             None \<Rightarrow> []
           | Some fs \<Rightarrow> (case Parse fs rest of Inl e \<Rightarrow> [] | Inr (vals, _) \<Rightarrow> owned E w sub vals)))"

text \<open>C37. A run of \<open>wavefront-bundle\<close>, however it ends and whichever of its calls the machine fails,
  changes the file tree only at the path its command line names: the layer of the added or removed
  version, \<open>resolution.yaml\<close> of the bundle for \<open>retire\<close>, the \<open>--out\<close> file for \<open>draft-shim\<close>.  Every path that
  neither leads to that path nor lies below it holds what it held.  When the machine fails no call there,
  a run that does not end with status 0 changes nothing at all.\<close>

theorem run_touches_its_own:
  "(\<forall>q. list_all (\<lambda>p. apart p q) (scope E w args) \<longrightarrow>
      node_at (mc_files (fst (run E args w))) q = node_at (mc_files w) q) \<and>
   (snd (run E args w) \<noteq> Exit 0 \<and> list_all (sound_at (ce_disk E)) (scope E w args) \<longrightarrow>
      mc_files (fst (run E args w)) = mc_files w)"
proof -
  have "keeps (ce_disk E) (scope E w args) w (run E args w)"
  proof (cases args)
    case Nil
    then show ?thesis by (simp add: run_eq keeping)
  next
    case (Cons sub rest)
    show ?thesis
    proof (cases "flags_of sub")
      case None
      then show ?thesis by (simp add: Cons run_eq eprintln_def keeping)
    next
      case (Some fs)
      then show ?thesis
        using command_keeps [OF Some]
        by (auto simp: Cons run_eq with_flags_def scope_def intro: keeping split: sum.split prod.split)
    qed
  qed
  then show ?thesis by (simp add: keeps_def)
qed

text \<open>The exit status follows the convention of the command: 2 exactly when the command line is not
  understood (no or an unknown subcommand, a bad flag, a required flag that is missing or empty), and
  then nothing happens but a message on standard error.  A command line that is understood ends with
  status 0 or 1, panics, or does not return.\<close>

theorem exit_status:
  "(\<not> understood args \<longrightarrow>
      (\<exists>msg. msg \<noteq> '''' \<and> run E args w = (w\<lparr>mc_err := mc_err w @ msg\<rparr>, Exit 2))) \<and>
   (understood args \<longrightarrow> snd (run E args w) \<in> {Exit 0, Exit 1, NoReturn} \<union> range Crash)"
proof (cases args)
  case Nil
  then show ?thesis using usage_ends by (simp add: understood_def run_eq)
next
  case (Cons sub rest)
  show ?thesis
  proof (cases "flags_of sub")
    case None
    then show ?thesis using eprintln_text by (simp add: Cons understood_def run_eq)
  next
    case (Some fs)
    show ?thesis
    proof (cases "Parse fs rest")
      case (Inl e)
      then show ?thesis
        using flag_output_nonempty [of fs e] by (cases e) (simp_all add: Cons Some understood_def run_eq with_flags_def, blast)
    next
      case (Inr r)
      obtain vals left where r: "r = (vals, left)" by (cases r)
      have run: "run E args w = command_of E sub vals w" by (simp add: Cons Some Inr r run_eq with_flags_def)
      have ok: "understood args = list_all (\<lambda>n. string_flag vals n \<noteq> '''') (required_flags sub)"
        by (simp add: Cons Some Inr r understood_def)
      show ?thesis
        using command_status [OF Some, of vals E w] command_refuses [OF Some, of vals E w]
        unfolding run ok using usage_ends by fastforce
    qed
  qed
qed

text \<open>Whatever the order and spelling of the flags (one dash or two, the value after an equals sign
  or as the next argument, even one that starts with a dash), a subcommand runs with the last value
  given to each flag and the zero value of the others.  The flags end at the first argument that is
  not one or at \<open>--\<close>, and what follows is ignored.\<close>

theorem command_line_exact:
  assumes "flags_of sub = Some fs" and "list_all (setting_ok fs) ss"
  shows "run E (sub # concat (map render ss) @ ''--'' # rest) w
       = command_of E sub (fold apply_setting ss Map.empty) w \<and>
     (positional rest \<longrightarrow>
        run E (sub # concat (map render ss) @ rest) w = command_of E sub (fold apply_setting ss Map.empty) w)"
  using assms(1)
  by (simp add: run_eq with_flags_def Parse_def parse_flags_settings [OF assms(2)] parse_flags_terminator
      parse_flags_positional)

theorem command_line_exact_witness:
  "\<forall>E w. run E [''verify'', ''-bundle=a'', ''--bundle'', ''b'', ''c'', ''--bundle'', ''d''] w
     = verify_command E [''bundle'' \<mapsto> FString ''b''] w"
proof (intro allI)
  fix E :: "('x, 'm, 'y) cli_env" and w :: machine
  let ?ss = "[Joined False ''bundle'' ''a'', Separate True ''bundle'' ''b'']"
  have "flags_of ''verify'' = Some verify_flags" by (simp add: flags_of_def)
  moreover have "list_all (setting_ok verify_flags) ?ss"
    by (simp add: has_flag_def plain_name_def lookup_flag_def verify_flags_def string_def_def)
  ultimately have "run E (''verify'' # concat (map render ?ss) @ [''c'', ''--bundle'', ''d'']) w
      = command_of E ''verify'' (fold apply_setting ?ss Map.empty) w"
    using command_line_exact [of "''verify''" verify_flags ?ss E "[''c'', ''--bundle'', ''d'']" w]
    by (simp add: positional_def)
  then show "run E [''verify'', ''-bundle=a'', ''--bundle'', ''b'', ''c'', ''--bundle'', ''d''] w
     = verify_command E [''bundle'' \<mapsto> FString ''b''] w"
    by (simp add: dashes_def command_of_def)
qed

text \<open>A machine with a bundle of two layers.\<close>

definition demo_machine :: machine where
  "demo_machine = \<lparr>mc_files = Some (DirNode
      [(''b'', DirNode [(''v1'', DirNode []), (''v2'', DirNode [])]), (''x'', FileNode ''t'')]),
     mc_err = '''', mc_out = ''''\<rparr>"

lemma demo_flags:
  "Parse remove_flags [''--version'', ''v1'', ''--bundle'', ''/b'']
     = Inr ([''version'' \<mapsto> FString ''v1'', ''bundle'' \<mapsto> FString ''/b''], [])"
proof -
  let ?ss = "[Separate True ''version'' ''v1'', Separate True ''bundle'' ''/b'']"
  have "list_all (setting_ok remove_flags) ?ss"
    by (simp add: has_flag_def plain_name_def lookup_flag_def remove_flags_def string_def_def)
  from parse_flags_settings [OF this, of "[]" Map.empty] show ?thesis
    by (simp add: Parse_def dashes_def parse_flags_positional positional_def)
qed

lemma demo_locate: "locate E ''/b'' = [''b'']"
  by (simp add: locate_def clean_elems_def is_rooted_def clean_step_def)

theorem run_touches_its_own_witness:
  "\<forall>E :: (unit, unit, unit) cli_env.
     node_at (mc_files (fst (run E [''remove'', ''--version'', ''v1'', ''--bundle'', ''/b''] demo_machine))) [''b'', ''v2'']
       = Inr (DirNode [])"
proof
  fix E :: "(unit, unit, unit) cli_env"
  let ?args = "[''remove'', ''--version'', ''v1'', ''--bundle'', ''/b'']"
  have "scope E demo_machine ?args = [[''b'', ''v1'']]"
    by (simp add: scope_def flags_of_def demo_flags owned_def Let_def string_flag_def demo_locate)
  then have "list_all (\<lambda>p. apart p [''b'', ''v2'']) (scope E demo_machine ?args)" by simp
  with run_touches_its_own [of E demo_machine ?args]
  have "node_at (mc_files (fst (run E ?args demo_machine))) [''b'', ''v2''] = node_at (mc_files demo_machine) [''b'', ''v2'']"
    by blast
  then show "node_at (mc_files (fst (run E ?args demo_machine))) [''b'', ''v2''] = Inr (DirNode [])"
    by (simp add: demo_machine_def)
qed

theorem exit_status_witness:
  "\<forall>E :: (unit, unit, unit) cli_env. \<forall>w.
     snd (run E [''remove'', ''--version'', ''v1'', ''--bundle'', ''/b''] w) \<in> {Exit 0, Exit 1, NoReturn} \<union> range Crash \<and>
     (\<exists>msg. msg \<noteq> '''' \<and> run E [''bogus''] w = (w\<lparr>mc_err := mc_err w @ msg\<rparr>, Exit 2))"
proof (intro allI conjI)
  fix E :: "(unit, unit, unit) cli_env" and w
  have "understood [''remove'', ''--version'', ''v1'', ''--bundle'', ''/b'']"
    by (simp add: understood_def flags_of_def demo_flags required_flags_def string_flag_def)
  with exit_status [of _ E w]
  show "snd (run E [''remove'', ''--version'', ''v1'', ''--bundle'', ''/b''] w) \<in> {Exit 0, Exit 1, NoReturn} \<union> range Crash"
    by blast
  have "\<not> understood [''bogus'']" by (simp add: understood_def flags_of_def)
  with exit_status [of "[''bogus'']" E w]
  show "\<exists>msg. msg \<noteq> '''' \<and> run E [''bogus''] w = (w\<lparr>mc_err := mc_err w @ msg\<rparr>, Exit 2)" by blast
qed

end
