(* ===== verification/Gen_Yaml.thy ===== *)
theory Gen_Yaml
  imports Gen_Openapi Bundle_Load
begin

text \<open>
  The YAML of \<open>versions.yaml\<close>, as the YAML specification has it for documents of the generator's shape: a
  reader of the text, apart from the code that renders it.  It is partial: of the scalars it takes the
  double-quoted ones without escapes and the plain ones of printable ASCII that cannot be anything but a
  string, and of the keys the ones of this document in this order.  On what it takes, a YAML decoder
  decodes the same; the decoder itself stays a parameter.
\<close>

section \<open>Scalars\<close>

definition yaml_char :: "char \<Rightarrow> bool" where
  "yaml_char c = (32 \<le> (of_char c :: nat) \<and> (of_char c :: nat) \<le> 126)"

text \<open>Characters that stand for themselves between double quotes.\<close>

definition quotable :: "char \<Rightarrow> bool" where
  "quotable c = (yaml_char c \<and> c \<noteq> CHR 0x22 \<and> c \<noteq> CHR 0x5C)"

text \<open>First characters of a plain scalar that is a string: no indicator, no digit or sign.\<close>

definition plain_start :: "char \<Rightarrow> bool" where
  "plain_start c =
     (c \<in> {CHR ''/'', CHR ''_''} \<or> 65 \<le> (of_char c :: nat) \<and> (of_char c :: nat) \<le> 90 \<or>
      97 \<le> (of_char c :: nat) \<and> (of_char c :: nat) \<le> 122)"

definition null_words :: "string list" where
  "null_words = [''null'', ''Null'', ''NULL'']"

text \<open>A comment starts at a hash behind a space; blanks at the end do not belong to the scalar; a colon
  before a space or the end would make the line a mapping.\<close>

fun cut_comment :: "string \<Rightarrow> string" where
  "cut_comment (c # d # s) = (if c = CHR '' '' \<and> d = CHR ''#'' then [] else c # cut_comment (d # s))"
| "cut_comment s = s"

definition plain_scalar :: "string \<Rightarrow> string option" where
  "plain_scalar s =
     (let t = rev (dropWhile (\<lambda>c. c = CHR '' '') (rev (cut_comment s))) in
        if list_all yaml_char s \<and> t \<noteq> '''' \<and> plain_start (hd t) \<and> \<not> str_contains (t @ '' '') '': '' \<and>
           t \<notin> set null_words
        then Some t else None)"

text \<open>What stands between double quotes at the start, and what follows.\<close>

definition quoted :: "string \<Rightarrow> (string \<times> string) option" where
  "quoted s =
     (case s of
        [] \<Rightarrow> None
      | c # s \<Rightarrow>
          let body = takeWhile (\<lambda>c. c \<noteq> CHR 0x22) s; rest = drop (length body) s in
            if c = CHR 0x22 \<and> list_all quotable body \<and> rest \<noteq> '''' then Some (body, tl rest) else None)"

definition scalar_text :: "string \<Rightarrow> string option" where
  "scalar_text s = (case quoted s of Some (body, '''') \<Rightarrow> Some body | Some _ \<Rightarrow> None | None \<Rightarrow> plain_scalar s)"

section \<open>The document\<close>

fun lines_from :: "string \<Rightarrow> string \<Rightarrow> string list" where
  "lines_from cur [] = (if cur = '''' then [] else [cur])"
| "lines_from cur (c # s) = (if c = CHR 0x0A then cur # lines_from [] s else lines_from (cur @ [c]) s)"

text \<open>The value of a line with this key and indentation.\<close>

definition keyed :: "string \<Rightarrow> string \<Rightarrow> string option" where
  "keyed key line =
     (if prefix (key @ '': '') line then scalar_text (drop (length key + 2) line) else None)"

definition read_error :: "string \<Rightarrow> (string \<times> string) option" where
  "read_error line =
     (case quoted (drop 6 line) of
        None \<Rightarrow> None
      | Some (code, rest) \<Rightarrow> if prefix '': '' rest then map_option (Pair code) (scalar_text (drop 2 rest)) else None)"

text \<open>The lines of the error messages of a contract, when it has any; a key that occurs twice is an error.\<close>

definition error_line :: "string \<Rightarrow> bool" where "error_line = prefix ''      ''"

definition read_errors :: "string list \<Rightarrow> ((string \<times> string) list \<times> string list) option" where
  "read_errors lines =
     (if lines \<noteq> [] \<and> hd lines = ''    error_messages:'' then
        (case those (map read_error (takeWhile error_line (tl lines))) of
           None \<Rightarrow> None
         | Some errs \<Rightarrow>
             if distinct (map fst errs) then Some (errs, dropWhile error_line (tl lines)) else None)
      else Some ([], lines))"

lemma read_errors_shorter: "read_errors lines = Some (errs, rest) \<Longrightarrow> length rest \<le> length lines"
  using length_dropWhile_le [of error_line "tl lines"]
  by (auto simp: read_errors_def split: if_splits option.splits)

function (sequential) read_contracts :: "string list \<Rightarrow> yaml_contract list option" where
  "read_contracts [] = Some []"
| "read_contracts (l1 # l2 # l3 # l4 # l5 # rest) =
     (case (keyed ''  - contract_version'' l1, keyed ''    route'' l2, keyed ''    method'' l3,
            keyed ''    request_message'' l4, keyed ''    response_message'' l5, read_errors rest) of
        (Some v, Some ro, Some me, Some rq, Some rs, Some (errs, rest')) \<Rightarrow>
          (case read_contracts rest' of
             None \<Rightarrow> None
           | Some ycs \<Rightarrow>
               Some (\<lparr>yk_version = v, yk_route = ro, yk_method = me, yk_request = rq, yk_response = rs,
                      yk_errors = errs, yk_strict = False\<rparr> # ycs))
      | _ \<Rightarrow> None)"
| "read_contracts _ = None"
  by pat_completeness auto
termination
  by (relation "measure length") (auto dest!: sym [of "Some _"] read_errors_shorter)

definition read_versions :: "string \<Rightarrow> yaml_contract list option" where
  "read_versions s =
     (case lines_from [] s of
        l1 # l2 # rest \<Rightarrow> if l1 = ''version: 1'' \<and> l2 = ''contracts:'' then read_contracts rest else None
      | _ \<Rightarrow> None)"

section \<open>What is rendered is read\<close>

text \<open>Text that reads as itself unquoted.\<close>

definition yaml_plain :: "string \<Rightarrow> bool" where
  "yaml_plain s =
     (s \<noteq> '''' \<and> plain_start (hd s) \<and> list_all (\<lambda>c. yaml_char c \<and> c \<noteq> CHR '' '') s \<and> last s \<noteq> CHR '':'' \<and>
      s \<notin> set null_words)"

definition yaml_sound :: "contract_entry \<Rightarrow> bool" where
  "yaml_sound e =
     (list_all yaml_plain ([ce_route e, ce_method e, ce_request e, ce_response e] @ map snd (ce_errors e)) \<and>
      list_all (\<lambda>(code, n). list_all quotable code) (ce_errors e) \<and> distinct (map fst (ce_errors e)))"

text \<open>What the strict YAML decoder makes of an entry.\<close>

definition yaml_entry :: "string \<Rightarrow> contract_entry \<Rightarrow> yaml_contract" where
  "yaml_entry version e =
     \<lparr>yk_version = version, yk_route = ce_route e, yk_method = ce_method e,
      yk_request = ce_request e, yk_response = ce_response e,
      yk_errors = sort_key (\<lambda>x. code_number (fst x)) (ce_errors e), yk_strict = False\<rparr>"

lemma quotable_escapes:
  assumes "quotable c"
  shows "c \<notin> {CHR 0x22, CHR 0x5C, CHR 0x07, CHR 0x08, CHR 0x0C, CHR 0x0A, CHR 0x0D, CHR 0x09, CHR 0x0B, CHR 0x7F}"
    and "\<not> (of_char c :: nat) < 0x20"
proof -
  have "32 \<le> (of_char c :: nat)" "(of_char c :: nat) \<le> 126" using assms by (simp_all add: quotable_def yaml_char_def)
  then have "c \<noteq> d" if "(of_char d :: nat) < 32 \<or> 126 < (of_char d :: nat)" for d using that by auto
  then show "c \<notin> {CHR 0x22, CHR 0x5C, CHR 0x07, CHR 0x08, CHR 0x0C, CHR 0x0A, CHR 0x0D, CHR 0x09, CHR 0x0B, CHR 0x7F}"
    using assms by (simp add: quotable_def)
  show "\<not> (of_char c :: nat) < 0x20" using \<open>32 \<le> _\<close> by simp
qed

lemma quote_quotable: "list_all quotable s \<Longrightarrow> go_quote s = CHR 0x22 # s @ [CHR 0x22]"
proof -
  have "list_all quotable s \<Longrightarrow> quote_runes s = s"
  proof (induction s)
    case (Cons c s)
    then have "rune1 c" by (auto simp: quotable_def yaml_char_def rune1_def cont_byte_def)
    then have "rune_len (c # s) \<noteq> 0" by (simp add: rune_len_1)
    moreover have "quote_ascii c = [c]" using Cons.prems quotable_escapes [of c] by (simp add: quote_ascii_def)
    moreover have "quote_runes s = s" using Cons by simp
    ultimately show ?case using \<open>rune1 c\<close> unfolding quote_runes.simps(2) by (simp only: simp_thms if_False if_True append.simps)
  qed (simp add: quote_runes.simps)
  then show "list_all quotable s \<Longrightarrow> go_quote s = CHR 0x22 # s @ [CHR 0x22]" by (simp add: go_quote_def)
qed

lemma takeWhile_quotable: "list_all quotable s \<Longrightarrow> takeWhile (\<lambda>c. c \<noteq> CHR 0x22) (s @ CHR 0x22 # r) = s"
  by (induction s) (auto simp: quotable_def)

lemma quoted_quote: "list_all quotable s \<Longrightarrow> quoted (go_quote s @ r) = Some (s, r)"
  by (simp add: quoted_def quote_quotable takeWhile_quotable)

lemma cut_comment_id: "CHR '' '' \<notin> set s \<Longrightarrow> cut_comment s = s"
  by (induction s rule: cut_comment.induct) auto

lemma no_colon: "CHR '' '' \<notin> set s \<Longrightarrow> last s \<noteq> CHR '':'' \<Longrightarrow> \<not> str_contains (s @ '' '') '': ''"
proof (induction s)
  case (Cons c s)
  then have "\<not> prefix '': '' ((c # s) @ '' '')" by (cases s) auto
  with Cons show ?case by (cases s) auto
qed auto

lemma start_no_quote: "plain_start c \<Longrightarrow> c \<noteq> CHR 0x22"
  by (auto simp: plain_start_def)

lemma scalar_plain: "yaml_plain s \<Longrightarrow> scalar_text s = Some s"
proof -
  assume s: "yaml_plain s"
  then have sp: "CHR '' '' \<notin> set s" by (auto simp: yaml_plain_def list_all_iff)
  then have "dropWhile (\<lambda>c. c = CHR '' '') (rev s) = rev s" by (cases "rev s") (auto simp: rev_eq_Cons_iff)
  then have "plain_scalar s = Some s"
    using s sp no_colon [OF sp] by (auto simp: plain_scalar_def yaml_plain_def cut_comment_id list_all_iff)
  moreover have "quoted s = None"
    using s by (cases s) (auto simp: quoted_def yaml_plain_def Let_def dest: start_no_quote)
  ultimately show ?thesis by (simp add: scalar_text_def)
qed

lemma scalar_quoted: "list_all quotable s \<Longrightarrow> scalar_text (go_quote s) = Some s"
  using quoted_quote [of s "[]"] by (simp add: scalar_text_def)

lemma keyed_line: "scalar_text s = Some t \<Longrightarrow> keyed key (key @ '': '' @ s) = Some t"
  by (simp add: keyed_def)

text \<open>The lines of an entry.\<close>

definition error_lines :: "(string \<times> string) list \<Rightarrow> string list" where
  "error_lines errs =
     (if errs = [] then [] else ''    error_messages:'' #
        map (\<lambda>(code, m). ''      '' @ go_quote code @ '': '' @ m) errs)"

definition entry_lines :: "string \<Rightarrow> contract_entry \<Rightarrow> string list" where
  "entry_lines version e =
     [''  - contract_version'' @ '': '' @ go_quote version, ''    route'' @ '': '' @ ce_route e,
      ''    method'' @ '': '' @ ce_method e, ''    request_message'' @ '': '' @ ce_request e,
      ''    response_message'' @ '': '' @ ce_response e] @
     error_lines (sort_key (\<lambda>x. code_number (fst x)) (ce_errors e))"

lemma sort_key_Nil [simp]: "sort_key f xs = [] \<longleftrightarrow> xs = []"
  by (metis length_0_conv length_sort)

lemma render_lines: "render_entry version e = concat (map (\<lambda>l. l @ newline) (entry_lines version e))"
  by (simp add: render_entry_def render_errors_def entry_lines_def error_lines_def comp_def case_prod_unfold)

lemma lines_step: "list_all (\<lambda>c. c \<noteq> CHR 0x0A) l \<Longrightarrow> lines_from cur (l @ newline @ s) = (cur @ l) # lines_from [] s"
  by (induction l arbitrary: cur) auto

lemma lines_concat:
  "list_all (list_all (\<lambda>c. c \<noteq> CHR 0x0A)) ls \<Longrightarrow>
   lines_from [] (concat (map (\<lambda>l. l @ newline) ls) @ s) = ls @ lines_from [] s"
proof (induction ls)
  case (Cons l ls)
  then show ?case using lines_step [of l "[]" "concat (map (\<lambda>l. l @ newline) ls) @ s"] by simp
qed simp

lemma no_break: "yaml_char c \<Longrightarrow> c \<noteq> CHR 0x0A"
  by (auto simp: yaml_char_def)

lemma plain_line: "yaml_plain s \<Longrightarrow> list_all (\<lambda>c. c \<noteq> CHR 0x0A) s"
  using no_break by (auto simp: yaml_plain_def list_all_iff)

lemma quoted_line: "list_all quotable s \<Longrightarrow> list_all (\<lambda>c. c \<noteq> CHR 0x0A) (go_quote s)"
  using no_break by (auto simp: quote_quotable quotable_def list_all_iff)

text \<open>The error messages of a sound entry, in the order they are written.\<close>

definition plain_errors :: "(string \<times> string) list \<Rightarrow> bool" where
  "plain_errors errs =
     (list_all (\<lambda>x. list_all quotable (fst x) \<and> yaml_plain (snd x)) errs \<and> distinct (map fst errs))"

lemma sound_errors: "yaml_sound e \<Longrightarrow> plain_errors (sort_key (\<lambda>x. code_number (fst x)) (ce_errors e))"
  by (simp add: yaml_sound_def plain_errors_def list.pred_set distinct_map inj_on_def case_prod_unfold)

abbreviation error_text :: "string \<times> string \<Rightarrow> string" where
  "error_text x \<equiv> ''      '' @ go_quote (fst x) @ '': '' @ snd x"

lemma error_breaks:
  assumes "plain_errors errs"
  shows "list_all (list_all (\<lambda>c. c \<noteq> CHR 0x0A)) (error_lines errs)"
proof -
  have "list_all (list_all (\<lambda>c. c \<noteq> CHR 0x0A)) (map error_text errs)"
    unfolding list.pred_map
    using assms [unfolded plain_errors_def, THEN conjunct1]
    by (rule list.pred_mono_strong) (simp add: plain_line quoted_line)
  then show ?thesis by (simp add: error_lines_def case_prod_unfold)
qed

lemma entry_breaks:
  assumes "list_all quotable version" and "yaml_sound e"
  shows "list_all (list_all (\<lambda>c. c \<noteq> CHR 0x0A)) (entry_lines version e)"
  using assms plain_line quoted_line error_breaks [OF sound_errors [OF assms(2)]]
  by (simp add: entry_lines_def yaml_sound_def)

lemma read_error_line:
  "list_all quotable code \<Longrightarrow> yaml_plain m \<Longrightarrow> read_error (''      '' @ go_quote code @ '': '' @ m) = Some (code, m)"
  by (simp add: read_error_def quoted_quote scalar_plain)

lemma those_map: "list_all (\<lambda>x. f x = Some (g x)) xs \<Longrightarrow> those (map f xs) = Some (map g xs)"
  by (induction xs) auto

lemma read_error_lines:
  assumes "plain_errors errs" and "rest = [] \<or> \<not> error_line (hd rest) \<and> hd rest \<noteq> ''    error_messages:''"
  shows "read_errors (error_lines errs @ rest) = Some (errs, rest)"
proof (cases "errs = []")
  case True
  with assms(2) show ?thesis by (auto simp: read_errors_def error_lines_def)
next
  case False
  have l: "\<forall>x \<in> set (map error_text errs). error_line x" by (auto simp: error_line_def)
  have r: "takeWhile error_line rest = []" "dropWhile error_line rest = rest"
    using assms(2) by (cases rest; auto)+
  have "list_all (\<lambda>x. read_error (error_text x) = Some x) errs"
    using assms(1) [unfolded plain_errors_def, THEN conjunct1]
    by (rule list.pred_mono_strong) (simp add: read_error_line [simplified])
  from those_map [OF this] have "those (map read_error (map error_text errs)) = Some errs"
    by (simp add: comp_def)
  moreover have "takeWhile error_line (map error_text errs @ rest) = map error_text errs"
    "dropWhile error_line (map error_text errs @ rest) = rest"
    using l r takeWhile_append2 [of "map error_text errs" error_line rest]
      dropWhile_append2 [of "map error_text errs" error_line rest]
    by (simp_all only: append_Nil2 simp_thms)
  moreover have "error_lines errs = ''    error_messages:'' # map error_text errs"
    using False by (simp add: error_lines_def case_prod_unfold)
  ultimately show ?thesis
    using assms(1) by (simp only: read_errors_def plain_errors_def) simp
qed

lemma entry_lines_head:
  "hd (entry_lines version e @ ls) \<noteq> ''    error_messages:'' \<and> \<not> error_line (hd (entry_lines version e @ ls)) \<and>
   entry_lines version e \<noteq> []"
  by (simp add: entry_lines_def error_line_def)

lemma read_entry:
  assumes "keyed ''  - contract_version'' l1 = Some v" "keyed ''    route'' l2 = Some ro" "keyed ''    method'' l3 = Some me"
    "keyed ''    request_message'' l4 = Some rq" "keyed ''    response_message'' l5 = Some rs"
    and "read_errors rest = Some (errs, rest')" "read_contracts rest' = Some ycs"
  shows "read_contracts ([l1, l2, l3, l4, l5] @ rest) =
    Some (\<lparr>yk_version = v, yk_route = ro, yk_method = me, yk_request = rq, yk_response = rs,
            yk_errors = errs, yk_strict = False\<rparr> # ycs)"
  by (simp add: assms)

lemma read_rendered:
  assumes v: "list_all quotable version" and "list_all yaml_sound es"
  shows "read_contracts (concat (map (entry_lines version) es)) = Some (map (yaml_entry version) es)"
  using assms(2)
proof (induction es)
  case (Cons e es)
  then have e: "yaml_sound e" and es: "list_all yaml_sound es" by simp_all
  define rest where "rest = concat (map (entry_lines version) es)"
  have "rest = [] \<or> \<not> error_line (hd rest) \<and> hd rest \<noteq> ''    error_messages:''"
    using entry_lines_head [of version "hd es" "concat (map (entry_lines version) (tl es))"]
    by (cases es) (simp_all add: rest_def del: hd_append2)
  with sound_errors [OF e] have errs: "read_errors (error_lines (sort_key (\<lambda>x. code_number (fst x)) (ce_errors e)) @ rest) =
      Some (sort_key (\<lambda>x. code_number (fst x)) (ce_errors e), rest)"
    by (rule read_error_lines)
  have plain: "yaml_plain (ce_route e)" "yaml_plain (ce_method e)" "yaml_plain (ce_request e)" "yaml_plain (ce_response e)"
    using e by (simp_all add: yaml_sound_def)
  note keys = keyed_line [OF scalar_plain [OF plain(1)]] keyed_line [OF scalar_plain [OF plain(2)]]
    keyed_line [OF scalar_plain [OF plain(3)]] keyed_line [OF scalar_plain [OF plain(4)]]
  have "read_contracts rest = Some (map (yaml_entry version) es)" using Cons.IH [OF es] by (simp only: rest_def)
  from read_entry [OF keyed_line [OF scalar_quoted [OF v]] keys errs this]
  have "read_contracts (entry_lines version e @ rest) = Some (yaml_entry version e # map (yaml_entry version) es)"
    by (simp only: entry_lines_def yaml_entry_def append_assoc)
  then show ?case by (simp add: rest_def)
qed simp

theorem versions_read_back:
  assumes "list_all quotable version" and "list_all yaml_sound es"
  shows "read_versions (renderVersionsYAML version es) = Some (map (yaml_entry version) es)"
proof -
  let ?ls = "[''version: 1'', ''contracts:''] @ concat (map (entry_lines version) es)"
  have "concat (map (render_entry version) es) = concat (map (\<lambda>l. l @ newline) (concat (map (entry_lines version) es)))"
    by (induction es) (simp_all add: render_lines)
  then have "renderVersionsYAML version es = concat (map (\<lambda>l. l @ newline) ?ls) @ ''''"
    by (simp add: renderVersionsYAML_def)
  moreover have "list_all (list_all (\<lambda>c. c \<noteq> CHR 0x0A)) ?ls"
    using entry_breaks [OF assms(1)] assms(2) by (auto simp: list_all_iff)
  ultimately have "lines_from [] (renderVersionsYAML version es) = ?ls"
    using lines_concat [of ?ls "''''"] by simp
  then show ?thesis using read_rendered [OF assms] by (simp add: read_versions_def)
qed

text \<open>The route is not quoted: one with a blank and a hash loses what follows, and one with a colon and a
  blank makes the document unreadable.\<close>

definition odd_entry :: "string \<Rightarrow> contract_entry" where
  "odd_entry route = \<lparr>ce_route = route, ce_method = ''GET'', ce_request = ''p.Empty'', ce_response = ''p.Empty'', ce_errors = []\<rparr>"

lemma hash_in_route:
  "map_option (map yk_route) (read_versions (renderVersionsYAML ''v1'' [odd_entry ''/a #b''])) = Some [''/a'']"
  by code_simp

lemma colon_in_route: "read_versions (renderVersionsYAML ''v1'' [odd_entry ''/a: b'']) = None"
  by code_simp

end
