(* ===== verification/Bundle_Single.thy ===== *)
theory Bundle_Single
  imports Bundle_Facts
begin

text \<open>
  Loading a bundle of one layer and no \<open>resolution.yaml\<close>: what remains of \<open>Load\<close> when no package
  can collide, no file is merged and no override applies.
\<close>

section \<open>Descriptors of one layer\<close>

definition marshals :: "('x, 'm) codecs \<Rightarrow> 'x fdp list \<Rightarrow> bool" where
  "marshals L fdps = list_all (\<lambda>f. \<exists>b. marshal_fd L f = Inr b) fdps"

lemma file_contributions_one:
  assumes "marshals L fdps" and "list_all (\<lambda>e. co_layers (snd e) = [v]) m"
  shows "\<exists>m'. sfold (add_contribution L v) m fdps = Inr m' \<and> list_all (\<lambda>e. co_layers (snd e) = [v]) m'"
  using assms
proof (induction fdps arbitrary: m)
  case (Cons f fdps)
  then obtain b where b: "marshal_fd L f = Inr b" by (auto simp: marshals_def)
  define c where "c = (case map_of m (fdp_name f) of None \<Rightarrow> \<lparr>co_layers = [], co_bytes = []\<rparr> | Some c \<Rightarrow> c)"
  have "set (co_layers c) \<subseteq> {v} \<and> (co_layers c = [] \<or> co_layers c = [v])"
    using Cons.prems(2) unfolding c_def by (auto simp: list_all_iff split: option.split dest!: map_of_SomeD)
  then have one: "List.insert v (co_layers c) = [v]" by auto
  have "list_all (\<lambda>e. co_layers (snd e) = [v])
      (AList.update (fdp_name f) \<lparr>co_layers = [v], co_bytes = List.insert b (co_bytes c)\<rparr> m)"
    using Cons.prems(2) set_AList_update by (fastforce simp: list_all_iff)
  with Cons.IH [OF _ this] Cons.prems(1) show ?case
    by (simp add: marshals_def add_contribution_def b one c_def [symmetric] Let_def)
qed simp

lemma owners_one:
  assumes "list_all (\<lambda>e. co_layers (snd e) = [v]) contribs" and "list_all (\<lambda>e. snd e = [v]) owners"
  shows "list_all (\<lambda>e. snd e = [v]) (fold (attribute_package layers) contribs owners)"
  using assms
proof (induction contribs arbitrary: owners)
  case (Cons e contribs)
  have "multi_get owners pkg = [] \<or> multi_get owners pkg = [v]" for pkg
    using Cons.prems(2) by (auto simp: multi_get_def list_all_iff split: option.split dest!: map_of_SomeD)
  then have "List.insert v (multi_get owners pkg) = [v]" for pkg
    by (metis insert_Nil in_set_insert list.set_intros(1))
  then have "list_all (\<lambda>e. snd e = [v]) (AList.update pkg (List.insert v (multi_get owners pkg)) owners)" for pkg
    using Cons.prems(2) set_AList_update [of pkg "[v]" owners] by (auto simp: list_all_iff)
  then have "list_all (\<lambda>e. snd e = [v]) (attribute_package layers e owners)"
    using Cons.prems by (simp add: attribute_package_def Let_def)
  with Cons show ?case by simp
qed simp

lemma no_collision: "marshals L fdps \<Longrightarrow> checkPackageCollisions L [v] [fdps] = Inr ()"
proof -
  assume "marshals L fdps"
  then obtain m where m: "sfold (add_contribution L v) [] fdps = Inr m" "list_all (\<lambda>e. co_layers (snd e) = [v]) m"
    using file_contributions_one [of L fdps v "[]"] by auto
  have "list_all (\<lambda>e. snd e = [v]) (fold (attribute_package [(v, fdps)]) m [])"
    by (rule owners_one [OF m(2)]) simp
  then have "filter (\<lambda>e. length (snd e) > 1) (fold (attribute_package [(v, fdps)]) m []) = []"
    by (auto simp: filter_empty_conv list_all_iff)
  then show ?thesis
    by (simp add: checkPackageCollisions_def file_contributions_def m(1) Let_def)
qed

lemma merge_one:
  assumes "marshals L fdps" and "distinct (map fdp_name fdps)" and "map fst seen = map fdp_name merged"
    and "set (map fdp_name fdps) \<inter> set (map fdp_name merged) = {}"
  shows "\<exists>seen'. sfold (merge_file L) (seen, merged) fdps = Inr (seen', merged @ fdps)"
  using assms
proof (induction fdps arbitrary: seen merged)
  case (Cons f fdps)
  then obtain b where b: "marshal_fd L f = Inr b" by (auto simp: marshals_def)
  have new: "fdp_name f \<notin> set (map fst seen)" using Cons.prems(3,4) by auto
  then have "map_of seen (fdp_name f) = None" by (simp add: map_of_eq_None_iff)
  moreover have "map fst (AList.update (fdp_name f) b seen) = map fdp_name (merged @ [f])"
    using Cons.prems(3) new by (simp add: update_keys)
  ultimately show ?case
    using Cons.IH [of "AList.update (fdp_name f) b seen" "merged @ [f]"] Cons.prems
    by (auto simp: merge_file_def b marshals_def)
qed simp

lemma merged_one: "marshals L fdps \<Longrightarrow> distinct (map fdp_name fdps) \<Longrightarrow> new_files L fdps = Inr reg \<Longrightarrow>
    mergeDescriptors L [fdps] = Inr reg"
  using merge_one [of L fdps "[]" "[]"] by (auto simp: mergeDescriptors_def)

section \<open>No overrides\<close>

definition plain_bound :: "contract \<Rightarrow> bound" where
  "plain_bound c = contract.extend c (bound.fields [c])"

lemma materialize_plain: "sfold (materialize L reg []) (done, vs) cs = Inr (done @ cs, vs)"
  by (induction cs arbitrary: "done") (simp_all add: materialize_def)

lemma chain_plain: "transform_target c = '''' \<Longrightarrow> bind_chain bv c = Inr (plain_bound c)"
  by (simp add: bind_chain_def walk_chain.simps plain_bound_def)

lemma chains_plain: "list_all (\<lambda>c. transform_target c = '''') cs \<Longrightarrow> resolveChains bv cs = Inr (map plain_bound cs)"
  unfolding resolveChains_def by (induction cs) (simp_all add: chain_plain)

lemma resolve_plain:
  assumes "list_all (\<lambda>c. transform_target c = '''') cs"
  shows "\<exists>b. resolve_bundle L reg [] cs = Inr b \<and> contracts b = map plain_bound cs"
proof -
  have "resolveChains bv [] = Inr []" for bv by (simp add: resolveChains_def)
  then show ?thesis
    using assms by (simp add: resolve_bundle_def unknown_override_def materialize_plain chains_plain Let_def)
qed

section \<open>The layer\<close>

definition one_layer :: "string \<Rightarrow> string \<Rightarrow> string \<Rightarrow> string \<Rightarrow> node option" where
  "one_layer v descriptors openapi versions =
     Some (DirNode [(v, DirNode [(fileDescriptors, FileNode descriptors), (fileOpenAPI, FileNode openapi),
                                 (fileVersions, FileNode versions)])])"

lemmas layer_file_names = fileDescriptors_def fileOpenAPI_def fileVersions_def fileResolution_def

text \<open>What the decoders make of the three files.\<close>

definition layer_decodes ::
  "('x, 'm) codecs \<Rightarrow> string \<Rightarrow> string \<Rightarrow> string \<Rightarrow> 'x fdp list \<Rightarrow> 'm registry \<Rightarrow> yaml_contract list \<Rightarrow> bool" where
  "layer_decodes L descriptors openapi versions fdps reg ycs =
     (unmarshal_fds L descriptors = Inr fdps \<and> marshals L fdps \<and> distinct (map fdp_name fdps) \<and>
      new_files L fdps = Inr reg \<and> (\<exists>doc. json_unmarshal (text_codec L) openapi = Some (JObj doc)) \<and>
      decode_versions L versions = Inr \<lparr>yb_version = 1, yb_contracts = ycs\<rparr>)"

lemma Load_one_layer:
  assumes "layer_decodes L descriptors openapi versions fdps reg ycs" and "v \<noteq> fileResolution"
  shows "Load L dir (one_layer v descriptors openapi versions) =
     (if ycs = [] then Inl (ValidationError '''' '''' ''layer has no contracts'')
      else sbind (sfold (add_contract reg) [] ycs) (resolve_bundle L reg []))"
proof -
  let ?root = "one_layer v descriptors openapi versions"
  note d = assms(1) [unfolded layer_decodes_def]
  have "layerDirs dir ?root = Inr [v]"
    by (simp add: layerDirs_def one_layer_def ReadDir_def subdirs_def)
  moreover have "loadResolution L ?root = Inr []"
    using assms(2) by (simp add: loadResolution_def one_layer_def ReadFile_def)
  moreover have "load_layer L ?root v = Inr \<lparr>la_name = v, la_fdps = fdps, la_yb = \<lparr>yb_version = 1, yb_contracts = ycs\<rparr>\<rparr>"
    using d by (auto simp: load_layer_def loadLayerDescriptors_def validateOpenAPI_def loadVersions_def
        one_layer_def ReadFile_def layer_file_names)
  ultimately show ?thesis
    using d by (simp add: Load_def no_collision merged_one add_layer_def)
qed

text \<open>With a directory called \<open>resolution.yaml\<close> nothing loads.\<close>

lemma Load_resolution_layer: "\<exists>e. Load L dir (one_layer fileResolution d o1 t) = Inl e"
  by (simp add: Load_def layerDirs_def loadResolution_def one_layer_def ReadDir_def ReadFile_def subdirs_def)

section \<open>Adding contracts\<close>

text \<open>When every contract of the layer validates and its messages resolve, loading succeeds exactly when
  no two have the same key.\<close>

lemma add_contracts:
  assumes "list_all2 (\<lambda>yc c. validateContract yc = Inr c \<and> resolve_messages reg c = Inr ()) ycs cs"
  shows "sfold (add_contract reg) base ycs = Inr cs' \<longleftrightarrow>
    cs' = base @ cs \<and> distinct (map contract_key_of cs) \<and>
    set (map contract_key_of base) \<inter> set (map contract_key_of cs) = {}"
  using assms
proof (induction arbitrary: base rule: list_all2_induct)
  case (Cons yc ycs c cs)
  then show ?case by (auto simp: add_contract_def result_simps)
qed auto

end
