(* ===== verification/Gen_Roundtrip.thy ===== *)
theory Gen_Roundtrip
  imports Gen_History Gen_Yaml Bundle_Single
begin

text \<open>
  From an OpenAPI document to a bundle the proxy serves: \<open>Add\<close> on an empty bundle directory, then
  \<open>Load\<close> of what it wrote.
\<close>

section \<open>Text without white space\<close>

definition graphic :: "char \<Rightarrow> bool" where
  "graphic c = (33 \<le> (of_char c :: nat) \<and> (of_char c :: nat) \<le> 126)"

lemma strip_one_none: "list_all (\<lambda>r. r \<noteq> [] \<and> \<not> graphic (hd r)) rs \<Longrightarrow> list_all graphic s \<Longrightarrow> strip_one rs s = None"
  by (induction rs) (auto simp: prefix_def neq_Nil_conv)

lemma trim_graphic: "list_all graphic s \<Longrightarrow> trim_space s = s"
proof -
  assume s: "list_all graphic s"
  have "list_all (\<lambda>r. r \<noteq> [] \<and> \<not> graphic (hd r)) space_runes"
    "list_all (\<lambda>r. r \<noteq> [] \<and> \<not> graphic (hd r)) (map rev space_runes)"
    by code_simp+
  with s show ?thesis by (simp add: trim_space_def trim_left_runes_id strip_one_none)
qed

lemma graphic_simps: "ident_char c \<Longrightarrow> graphic c" "is_digit c \<Longrightarrow> graphic c" "graphic CHR ''.''"
  "graphic CHR ''-''" "graphic CHR ''+''"
  by (auto simp: ident_char_def is_digit_def graphic_def)

lemma graphic_package: "list_all graphic (protoPackage version)"
proof -
  have "list_all graphic ''wavefront.gen.v''" "list_all graphic ''x''" by code_simp+
  then show ?thesis
    using replace_idents [of version]
    by (auto simp: protoPackage_def sanitize_def Let_def list_all_iff graphic_simps)
qed

lemma graphic_message: "legal_ident n \<Longrightarrow> list_all graphic (protoPackage version @ ''.'' @ n)"
  using graphic_package [of version] by (auto simp: legal_ident_def list_all_iff graphic_simps)

lemma atoi_graphic: "atoi s = Some n \<Longrightarrow> list_all graphic s"
  by (cases s) (auto simp: unsigned_digits_def list_all_iff graphic_simps split: if_splits option.splits)

section \<open>The contracts of a document\<close>

definition layer_parts ::
  "gen_env \<Rightarrow> string \<Rightarrow> (string \<times> raw_binding list \<times> (string \<Rightarrow> string)) option" where
  "layer_parts env src =
     (case loadAndPrevalidate env src of
        Inl e \<Rightarrow> None
      | Inr (raw, doc, version) \<Rightarrow>
          (case sbind (allOperations env doc) (smap bind_operation) of
             Inl e \<Rightarrow> None
           | Inr raws \<Rightarrow>
               (case buildDescriptors (env_proto env) (env_schema env) (oa_schemas doc)
                       (concat (map binding_roots raws)) (protoPackage version) version of
                  Some (Inr (desc, names)) \<Rightarrow> Some (version, raws, names)
                | _ \<Rightarrow> None)))"

definition layer_entries :: "gen_env \<Rightarrow> string \<Rightarrow> contract_entry list" where
  "layer_entries env src =
     (case layer_parts env src of
        None \<Rightarrow> []
      | Some (version, raws, names) \<Rightarrow> map (entry_of_binding (protoPackage version) names) raws)"

text \<open>The contract the loader makes of a decoded entry.\<close>

definition entry_contract :: "string \<Rightarrow> contract_entry \<Rightarrow> contract" where
  "entry_contract version e =
     \<lparr>c_version = version, c_route = trim_space (ce_route e), c_method = ce_method e,
      request_message = ce_request e, response_message = ce_response e,
      request_ops = [], response_ops = [], target = '''', transform_target = '''',
      error_messages = fold (\<lambda>(code, m). AList.update (code_number code) m)
                         (sort_key (\<lambda>x. code_number (fst x)) (ce_errors e)) [],
      error_response_ops = [], strict = False\<rparr>"

section \<open>What the generator guarantees of an entry\<close>

definition entry_sound :: "contract_entry \<Rightarrow> bool" where
  "entry_sound e =
     (ce_method e \<in> set allowedMethods \<and>
      list_all (\<lambda>n. n \<noteq> '''' \<and> list_all graphic n) ([ce_request e, ce_response e] @ map snd (ce_errors e)) \<and>
      list_all (\<lambda>x. error_code (fst x)) (ce_errors e))"

lemma error_entry_added:
  assumes "error_code code" and "n \<noteq> ''''" and "list_all graphic n"
  shows "add_error_message cv m (code, n) = Inr (AList.update (code_number code) n m)"
  using assms
  by (auto simp: add_error_message_def error_code_def code_number_def trim_graphic atoi_graphic split: option.splits)

lemma error_entries_added:
  "list_all (\<lambda>x. error_code (fst x) \<and> snd x \<noteq> '''' \<and> list_all graphic (snd x)) xs \<Longrightarrow>
   sfold (add_error_message cv) m xs = Inr (fold (\<lambda>(code, n). AList.update (code_number code) n) xs m)"
  by (induction xs arbitrary: m) (auto simp: error_entry_added)

lemma allowed_upper: "m \<in> set allowedMethods \<Longrightarrow> to_upper (trim_space m) = m \<and> m \<noteq> ''''"
proof -
  have "list_all (\<lambda>m. to_upper (trim_space m) = m \<and> m \<noteq> '''') allowedMethods" by code_simp
  then show "m \<in> set allowedMethods \<Longrightarrow> to_upper (trim_space m) = m \<and> m \<noteq> ''''"
    unfolding list_all_iff by blast
qed

lemma entry_validates:
  assumes "entry_sound e" and "trim_space version = version" and "version \<noteq> ''''"
  shows "validateContract (yaml_entry version e) =
     (if prefix ''/'' (trim_space (ce_route e)) then Inr (entry_contract version e)
      else Inl (ValidationError version ''route'' ''must be a path beginning with /''))"
proof -
  have m: "to_upper (trim_space (ce_method e)) = ce_method e" "ce_method e \<noteq> ''''" "ce_method e \<in> set allowedMethods"
    using assms(1) allowed_upper [of "ce_method e"] by (simp_all add: entry_sound_def)
  have n: "trim_space (ce_request e) = ce_request e" "ce_request e \<noteq> ''''"
    "trim_space (ce_response e) = ce_response e" "ce_response e \<noteq> ''''"
    using assms(1) by (simp_all add: entry_sound_def trim_graphic)
  have "list_all (\<lambda>x. error_code (fst x) \<and> snd x \<noteq> '''' \<and> list_all graphic (snd x))
      (sort_key (\<lambda>x. code_number (fst x)) (ce_errors e))"
    using assms(1) by (auto simp: entry_sound_def list_all_iff)
  from error_entries_added [OF this, of version "[]"] m n assms(2,3) show ?thesis
    by (auto simp: validateContract_def yaml_entry_def entry_contract_def Let_def)
qed

section \<open>Every entry is sound\<close>

lemma sound_operations:
  assumes "allOperations env doc = Inr ops"
  shows "list_all (\<lambda>f. to_upper (fo_method f) \<in> set allowedMethods) ops"
proof -
  have up: "list_all (\<lambda>m. to_upper m \<in> set allowedMethods) httpMethods" by code_simp
  have item: "list_all (\<lambda>f. to_upper (fo_method f) \<in> set allowedMethods) b"
    if "sfold (add_operation env p) a es = Inr b" "list_all (\<lambda>f. to_upper (fo_method f) \<in> set allowedMethods) a"
    for p a b es
    using that
  proof (rule sfold_invariant)
    fix s x s'
    assume "add_operation env p s x = Inr s'" "list_all (\<lambda>f. to_upper (fo_method f) \<in> set allowedMethods) s"
    then show "list_all (\<lambda>f. to_upper (fo_method f) \<in> set allowedMethods) s'"
      using up by (auto simp: add_operation_def list_all_iff split: prod.splits sum.splits if_splits)
  qed
  from assms obtain ops0 where
    ops0: "sfold (\<lambda>ops (p, item). sfold (add_operation env p) ops item) [] (oa_paths doc) = Inr ops0"
    and ops: "ops = sort_key fo_key ops0"
    by (auto simp: allOperations_def result_simps)
  from ops0 have "list_all (\<lambda>f. to_upper (fo_method f) \<in> set allowedMethods) ops0"
    by (rule sfold_invariant) (auto intro: item)
  then show ?thesis by (simp add: ops list_all_iff)
qed

lemma error_names_sound:
  "errorSchemaNames rs = Inr out \<Longrightarrow> list_all (\<lambda>x. error_code (fst x)) out"
  by (induction rs arbitrary: out) (auto simp: result_simps split: if_splits)

lemma bound_sound:
  assumes "bind_operation f = Inr r" and "to_upper (fo_method f) \<in> set allowedMethods"
  shows "rb_method r \<in> set allowedMethods \<and> list_all (\<lambda>x. error_code (fst x)) (rb_errors r)"
proof -
  obtain errs where "wrap_err (to_upper (fo_method f) @ '' '' @ fo_route f) (errorSchemaNames (op_responses (fo_op f))) = Inr errs"
    "rb_errors r = errs" "rb_method r = to_upper (fo_method f)"
    using assms(1) by (auto simp: bind_operation_def Let_def result_simps)
  then have "errorSchemaNames (op_responses (fo_op f)) = Inr (rb_errors r)"
    by (cases "errorSchemaNames (op_responses (fo_op f))") auto
  then show ?thesis using error_names_sound assms(2) \<open>rb_method r = _\<close> by auto
qed

section \<open>Every message an entry names is generated\<close>

lemma built_names:
  "build_messages cx needed ns = Some (Inr ms) \<Longrightarrow> map md_name ms = map (cx_names cx) ns"
proof (induction ns arbitrary: ms)
  case (Cons n ns)
  from Cons.prems obtain m ms' where m: "ms = m # ms'" "build_messages cx needed ns = Some (Inr ms')"
    "(case map_of needed n of None \<Rightarrow> Some (Inr (message_desc.Message (cx_names cx n) [] [] [] False))
      | Some sc \<Rightarrow> buildMessage cx (cx_names cx n) sc) = Some (Inr m)"
    by (auto split: option.splits sum.splits)
  have "md_name m = cx_names cx n"
  proof (cases "map_of needed n")
    case (Some sc)
    with m(3) have "buildMessage cx (cx_names cx n) sc = Some (Inr m)" by simp
    then have "message_ok cx (cx_names cx n) ([] @ map fst (sort_key fst (props_of sc))) m"
      unfolding buildMessage_def
      by (intro build_fields_ok [where ks = "[]" and used = "[]" and fs = "[]" and ns = "[]" and os = "[]"])
        (simp_all add: loop_start)
    then show ?thesis by (simp add: message_ok_def)
  qed (use m(3) in auto)
  with m Cons.IH show ?case by simp
qed simp

lemma message_names_mem:
  "set (message_names needed needEmpty) =
     fst ` set needed \<union> (if needEmpty then {emptyMessageName} else {})"
  by (auto simp: message_names_def Let_def map_of_eq_None_iff)

text \<open>A successful \<open>buildDescriptors\<close>: every root gets a legal name, and a message of that name.\<close>

lemma descriptors_roots:
  assumes "buildDescriptors lib um schemas roots pkg version = Some (Inr (bytes, names))"
  obtains uses msgs where "pl_new_files lib uses (file_of pkg version msgs) = None"
    "pl_marshal lib uses (file_of pkg version msgs) = Inr bytes"
    "\<forall>r \<in> set roots. legal_ident (names r) \<and> names r \<in> md_name ` set msgs"
proof -
  obtain real needEmpty where pe: "partitionEmpty roots = (real, needEmpty)" by fastforce
  with assms obtain needed where coll: "collectSchemas um schemas real = Some (Inr needed)"
    by (auto simp: buildDescriptors_def split: option.splits sum.splits)
  with assms pe have c: "find (\<lambda>r. map_of needed r = None) real = None"
    by (auto simp: buildDescriptors_def split: option.splits)
  define cx where "cx = \<lparr>cx_unmarshal = um, cx_package = pkg,
    cx_names = name_of (sanitizeMessageNames (message_names needed needEmpty)), cx_components = component schemas\<rparr>"
  from assms obtain msgs uses where b:
    "build_messages cx needed (message_names needed needEmpty) = Some (Inr msgs)"
    "pl_new_files lib uses (file_of pkg version msgs) = None"
    "pl_marshal lib uses (file_of pkg version msgs) = Inr bytes"
    and names: "names = name_of (sanitizeMessageNames (message_names needed needEmpty))"
    by (auto simp: buildDescriptors_def pe coll c Let_def cx_def split: option.splits sum.splits)
  then have cx: "cx_names cx = names" by (simp add: cx_def)
  note ok = assign_idents_ok [of "[]" "message_names needed needEmpty"]
  have "legal_ident (names r) \<and> names r \<in> md_name ` set msgs" if r: "r \<in> set roots" for r
  proof -
    have "r \<in> set (message_names needed needEmpty)"
    proof (cases "r = emptyMessageName")
      case True
      with pe r show ?thesis by (auto simp: partitionEmpty_def message_names_mem)
    next
      case False
      with pe r have "r \<in> set real" by (auto simp: partitionEmpty_def)
      with c have "map_of needed r \<noteq> None" by (auto simp: find_None_iff)
      then show ?thesis by (auto simp: message_names_mem map_of_eq_None_iff)
    qed
    moreover have "names r \<in> md_name ` set msgs" if "r \<in> set (message_names needed needEmpty)"
      using built_names [OF b(1)] that cx by (metis image_eqI image_set)
    moreover have "legal_ident (names r)" if "r \<in> set (message_names needed needEmpty)"
    proof -
      have "r \<in> set (map fst (sanitizeMessageNames (message_names needed needEmpty)))"
        using ok that by (simp add: sanitizeMessageNames_def)
      then obtain i where i: "map_of (sanitizeMessageNames (message_names needed needEmpty)) r = Some i"
        by (cases "map_of (sanitizeMessageNames (message_names needed needEmpty)) r")
          (auto simp: map_of_eq_None_iff)
      then have "i \<in> set (map snd (sanitizeMessageNames (message_names needed needEmpty)))"
        by (force dest: map_of_SomeD)
      then show ?thesis using ok i by (auto simp: names name_of_def sanitizeMessageNames_def list_all_iff)
    qed
    ultimately show ?thesis by blast
  qed
  with b(2,3) show thesis by (intro that) auto
qed

lemma generate_parts:
  assumes "generate env src = Some (Inr lf)"
  obtains raws names um schemas where "layer_parts env src = Some (lf_version lf, raws, names)"
    "raws \<noteq> []" "lf_version lf \<noteq> ''''" "trim_space (lf_version lf) = lf_version lf"
    "list_all (\<lambda>r. rb_method r \<in> set allowedMethods \<and> list_all (\<lambda>x. error_code (fst x)) (rb_errors r)) raws"
    "buildDescriptors (env_proto env) um schemas (concat (map binding_roots raws)) (protoPackage (lf_version lf))
       (lf_version lf) = Some (Inr (lf_descriptors lf, names))"
    "lf_versions lf = renderVersionsYAML (lf_version lf) (layer_entries env src)"
proof -
  obtain raw doc version where ld: "loadAndPrevalidate env src = Inr (raw, doc, version)"
    using assms by (cases "loadAndPrevalidate env src") (auto simp: generate_def)
  obtain ops where ops: "allOperations env doc = Inr ops" "ops \<noteq> []"
    using assms by (cases "allOperations env doc") (auto simp: generate_def ld split: if_splits)
  obtain raws where raws: "smap bind_operation ops = Inr raws"
    using assms ops by (cases "smap bind_operation ops") (auto simp: generate_def ld)
  obtain desc names where bd: "buildDescriptors (env_proto env) (env_schema env) (oa_schemas doc)
      (concat (map binding_roots raws)) (protoPackage version) version = Some (Inr (desc, names))"
    using assms ops raws by (auto simp: generate_def ld Let_def split: option.splits sum.splits)
  have lf: "lf = \<lparr>lf_version = version, lf_descriptors = desc, lf_openapi = raw,
      lf_versions = renderVersionsYAML version (map (entry_of_binding (protoPackage version) names) raws)\<rparr>"
    using assms ops raws bd by (simp add: generate_def ld Let_def)
  have v: "version \<noteq> ''''" "trim_space version = version"
    using ld by (auto simp: loadAndPrevalidate_def Let_def result_simps trim_space_idem split: sum.splits if_splits)
  have parts: "layer_parts env src = Some (version, raws, names)"
    using ld ops raws bd by (simp add: layer_parts_def)
  have "list_all (\<lambda>r. rb_method r \<in> set allowedMethods \<and> list_all (\<lambda>x. error_code (fst x)) (rb_errors r)) raws"
    using sound_operations [OF ops(1)] smap_Inr_mem [OF raws] bound_sound by (fastforce simp: list_all_iff)
  moreover have "raws \<noteq> []" using smap_Inr_length [OF raws] ops(2) by auto
  ultimately show thesis
    using that [of raws names "env_schema env" "oa_schemas doc"] v parts bd
    by (simp add: lf layer_entries_def)
qed

lemma entries_sound:
  assumes "list_all (\<lambda>r. rb_method r \<in> set allowedMethods \<and> list_all (\<lambda>x. error_code (fst x)) (rb_errors r)) raws"
    and "\<forall>n \<in> set (concat (map binding_roots raws)). legal_ident (names n)"
  shows "list_all (\<lambda>e. entry_sound (entry_of_binding (protoPackage version) names e)) raws"
proof -
  have "entry_sound (entry_of_binding (protoPackage version) names r)" if "r \<in> set raws" for r
  proof -
    have "\<forall>n \<in> set (binding_roots r). list_all graphic (protoPackage version @ ''.'' @ names n)"
      using assms(2) that graphic_message by auto
    then show ?thesis
      using assms(1) that by (fastforce simp: entry_sound_def entry_of_binding_def binding_roots_def list_all_iff)
  qed
  then show ?thesis by (simp add: list_all_iff)
qed

section \<open>A layer that was added loads\<close>

text \<open>What the loader's protobuf library makes of descriptors the generator's library accepted and
  marshalled: the message of every descriptor resolves under its full name.\<close>

definition descriptors_read_back :: "proto_lib \<Rightarrow> ('x, 'm) codecs \<Rightarrow> bool" where
  "descriptors_read_back lib L =
     (\<forall>uses fdp bytes. pl_new_files lib uses fdp = None \<longrightarrow> pl_marshal lib uses fdp = Inr bytes \<longrightarrow>
        (\<exists>fdps reg. unmarshal_fds L bytes = Inr fdps \<and> marshals L fdps \<and> distinct (map fdp_name fdps) \<and>
           new_files L fdps = Inr reg \<and>
           (\<forall>m \<in> set (fdesc_messages fdp). resolvable reg (fdesc_package fdp @ ''.'' @ md_name m))))"

text \<open>The entries whose routes the loader accepts, each bound once.\<close>

definition routable :: "contract_entry list \<Rightarrow> bool" where
  "routable es =
     (list_all (\<lambda>e. prefix ''/'' (trim_space (ce_route e))) es \<and>
      distinct (map (\<lambda>e. (trim_space (ce_route e), ce_method e)) es))"

lemma values_update: "snd ` set (AList.update k v m) \<subseteq> insert v (snd ` set m)"
  using set_AList_update [of k v m] by force

lemma values_fold: "snd ` set (fold (\<lambda>(c, n). AList.update (f c) n) xs m) \<subseteq> snd ` set xs \<union> snd ` set m"
proof (induction xs arbitrary: m)
  case (Cons x xs)
  obtain c n where x: "x = (c, n)" by (cases x)
  show ?case using Cons.IH [of "AList.update (f c) n m"] values_update [of "f c" n m] by (auto simp: x)
qed simp

lemma entry_resolves:
  assumes "\<forall>n \<in> set ([ce_request e, ce_response e] @ map snd (ce_errors e)). resolvable reg n"
  shows "resolve_messages reg (entry_contract version e) = Inr ()"
  using assms values_fold [of code_number "sort_key (\<lambda>x. code_number (fst x)) (ce_errors e)" "[]"]
  by (simp add: resolve_messages_iff entry_contract_def list_all_iff) (force simp: subset_iff)

lemma added_all_validate:
  "sfold (add_contract reg) base ycs = Inr cs \<Longrightarrow> yc \<in> set ycs \<Longrightarrow> \<exists>c. validateContract yc = Inr c"
  by (induction ycs arbitrary: base) (auto simp: add_contract_def result_simps)

text \<open>Adding the contracts of sound entries whose messages resolve.\<close>

lemma entries_added:
  assumes "list_all entry_sound es" and v: "trim_space version = version" "version \<noteq> ''''"
    and "list_all (\<lambda>e. \<forall>n \<in> set ([ce_request e, ce_response e] @ map snd (ce_errors e)). resolvable reg n) es"
  shows "sfold (add_contract reg) [] (map (yaml_entry version) es) = Inr cs \<longleftrightarrow>
    routable es \<and> cs = map (entry_contract version) es"
proof (cases "list_all (\<lambda>e. prefix ''/'' (trim_space (ce_route e))) es")
  case True
  have "list_all2 (\<lambda>yc c. validateContract yc = Inr c \<and> resolve_messages reg c = Inr ())
      (map (yaml_entry version) es) (map (entry_contract version) es)"
    using assms True by (simp add: list_all2_conv_all_nth list_all_length entry_validates entry_resolves)
  from add_contracts [OF this, of "[]" cs] show ?thesis
    using True
    by (auto simp: routable_def contract_key_of_def entry_contract_def comp_def distinct_map inj_on_def)
next
  case False
  then obtain e where e: "e \<in> set es" "\<not> prefix ''/'' (trim_space (ce_route e))" by (auto simp: list_all_iff)
  then have "entry_sound e" using assms(1) by (simp add: list_all_iff)
  then have "\<nexists>c. validateContract (yaml_entry version e) = Inr c"
    using e(2) by (simp add: entry_validates v)
  then have "\<nexists>cs. sfold (add_contract reg) [] (map (yaml_entry version) es) = Inr cs"
    using added_all_validate [of reg "[]" "map (yaml_entry version) es" _ "yaml_entry version e"] e(1) by auto
  with False show ?thesis by (auto simp: routable_def)
qed

text \<open>Loading the layer of such entries.\<close>

lemma entries_load:
  assumes "layer_decodes L d o1 t fdps reg (map (yaml_entry version) es)" and "es \<noteq> []"
    and "list_all entry_sound es" and "trim_space version = version" "version \<noteq> ''''"
    and "list_all (\<lambda>e. \<forall>n \<in> set ([ce_request e, ce_response e] @ map snd (ce_errors e)). resolvable reg n) es"
  shows "case Load L dir (one_layer version d o1 t) of
      Inl e \<Rightarrow> version = fileResolution \<or> \<not> routable es
    | Inr b \<Rightarrow> version \<noteq> fileResolution \<and> routable es \<and> contracts b = map (plain_bound \<circ> entry_contract version) es"
proof (cases "version = fileResolution")
  case True
  obtain e where "Load L dir (one_layer fileResolution d o1 t) = Inl e" using Load_resolution_layer by blast
  then show ?thesis by (simp add: True)
next
  case False
  note added = entries_added [OF assms(3-6)]
  have load: "Load L dir (one_layer version d o1 t) =
      sbind (sfold (add_contract reg) [] (map (yaml_entry version) es)) (resolve_bundle L reg [])"
    using assms(2) by (simp add: Load_one_layer [OF assms(1) False])
  show ?thesis
  proof (cases "sfold (add_contract reg) [] (map (yaml_entry version) es)")
    case (Inl e)
    then have "\<not> routable es" using added by fastforce
    then show ?thesis by (simp add: load Inl)
  next
    case (Inr cs)
    then have cs: "routable es" "cs = map (entry_contract version) es" using added by simp_all
    obtain b where "resolve_bundle L reg [] cs = Inr b" "contracts b = map plain_bound cs"
      using resolve_plain [of cs L reg] by (auto simp: cs(2) entry_contract_def list_all_iff)
    then show ?thesis using cs False by (simp add: load Inr)
  qed
qed

lemma Add_empty:
  "generate env src = Some (Inr lf) \<Longrightarrow>
   machine_ok dk (lf_version lf) None \<Longrightarrow>
   Add dk env src dir force None =
     Some (one_layer (lf_version lf) (lf_descriptors lf) (lf_openapi lf) (lf_versions lf), None)"
  using writeLayer_exact [of dk dir "lf_version lf" lf force None]
  by (cases "writeLayer dk dir [lf_version lf] lf force None")
    (simp add: Add_def dir_entries_def layer_node_def one_layer_def layer_file_names placeable_def writable_def
      layer_written_def)

text \<open>Texts of the generator that are YAML as they stand.\<close>

lemma ident_start: "ident_char c \<Longrightarrow> yaml_char c \<and> c \<noteq> CHR '' '' \<and> c \<noteq> CHR '':''"
  by (auto simp: ident_char_def is_digit_def yaml_char_def)

lemma yaml_prefixed:
  "list_all (\<lambda>c. yaml_char c \<and> c \<noteq> CHR '' '') s \<Longrightarrow> s \<noteq> '''' \<Longrightarrow> last s \<noteq> CHR '':'' \<Longrightarrow>
   yaml_plain (''wavefront.gen.v'' @ s)"
  by (simp add: yaml_plain_def null_words_def plain_start_def yaml_char_def)

lemma yaml_message: "legal_ident n \<Longrightarrow> yaml_plain (protoPackage version @ ''.'' @ n)"
proof -
  assume n: "legal_ident n"
  have "list_all (\<lambda>c. yaml_char c \<and> c \<noteq> CHR '' '') ''x''" "list_all (\<lambda>c. yaml_char c \<and> c \<noteq> CHR '' '') ''.''"
    by code_simp+
  then have "list_all (\<lambda>c. yaml_char c \<and> c \<noteq> CHR '' '') (sanitize version @ ''.'' @ n)"
    using replace_idents [of version] n ident_start by (auto simp: sanitize_def Let_def legal_ident_def list_all_iff)
  moreover have "last n \<noteq> CHR '':''" "n \<noteq> ''''" using n ident_start by (auto simp: legal_ident_def list_all_iff)
  ultimately have "yaml_plain (''wavefront.gen.v'' @ sanitize version @ ''.'' @ n)" by (intro yaml_prefixed) simp_all
  then show "yaml_plain (protoPackage version @ ''.'' @ n)" by (simp only: protoPackage_def append_assoc)
qed

lemma yaml_method: "m \<in> set allowedMethods \<Longrightarrow> yaml_plain m"
proof -
  have "list_all yaml_plain allowedMethods" by code_simp
  then show "m \<in> set allowedMethods \<Longrightarrow> yaml_plain m" by (auto simp: list.pred_set)
qed

lemma quotable_code: "error_code code \<Longrightarrow> list_all quotable code"
proof -
  have digits: "is_digit c \<Longrightarrow> quotable c" for c by (auto simp: is_digit_def quotable_def yaml_char_def)
  have signs: "quotable CHR ''+''" "quotable CHR ''-''" by code_simp+
  have "atoi code = Some n \<Longrightarrow> list_all quotable code" for n
    using digits signs by (cases code) (auto simp: unsigned_digits_def list_all_iff split: if_splits option.splits)
  then show "error_code code \<Longrightarrow> list_all quotable code" by (auto simp: error_code_def split: option.splits)
qed

text \<open>What the documentation of YAML says of the decoder: it decodes a text of the reader's grammar as the
  reader reads it.\<close>

definition reads_yaml :: "('x, 'm) codecs \<Rightarrow> bool" where
  "reads_yaml L =
     (\<forall>s ycs. read_versions s = Some ycs \<longrightarrow> decode_versions L s = Inr \<lparr>yb_version = 1, yb_contracts = ycs\<rparr>)"

text \<open>A document whose version is printable ASCII without quotes and backslashes, whose paths are strings to
  YAML as they stand, and whose operations have one response for a status.\<close>

definition plain_document :: "string \<Rightarrow> contract_entry list \<Rightarrow> bool" where
  "plain_document version es =
     (list_all quotable version \<and>
      list_all (\<lambda>e. yaml_plain (ce_route e) \<and> distinct (map fst (ce_errors e))) es)"

text \<open>C33. What \<open>Add\<close> writes into an empty bundle directory for a document whose version and paths need no
  quoting loads exactly when the version is not the name of \<open>resolution.yaml\<close>, every path of the document
  begins with a slash, and no two operations have the same path and method; the bundle then has one
  contract for each operation, in order.  \<open>Add\<close> itself checks none of these.  The text of \<open>versions.yaml\<close> is
  read back by the grammar of YAML, not by the code that writes it.\<close>

theorem added_layer_loads:
  assumes "generate env src = Some (Inr lf)" and "descriptors_read_back (env_proto env) L"
    and "json_unmarshal (text_codec L) (lf_openapi lf) = Some (JObj doc)"
    and "reads_yaml L" and "plain_document (lf_version lf) (layer_entries env src)"
    and "machine_ok dk (lf_version lf) None"
  shows "\<exists>root. Add dk env src dir force None = Some (root, None) \<and>
    (case Load L dir root of
       Inl e \<Rightarrow> lf_version lf = fileResolution \<or> \<not> routable (layer_entries env src)
     | Inr b \<Rightarrow> lf_version lf \<noteq> fileResolution \<and> routable (layer_entries env src) \<and>
         contracts b = map (plain_bound \<circ> entry_contract (lf_version lf)) (layer_entries env src))"
proof -
  let ?v = "lf_version lf" and ?es = "layer_entries env src"
  let ?root = "one_layer ?v (lf_descriptors lf) (lf_openapi lf) (lf_versions lf)"
  obtain raws names um schemas where parts: "layer_parts env src = Some (?v, raws, names)" "raws \<noteq> []"
    and v: "?v \<noteq> ''''" "trim_space ?v = ?v"
    and raws: "list_all (\<lambda>r. rb_method r \<in> set allowedMethods \<and> list_all (\<lambda>x. error_code (fst x)) (rb_errors r)) raws"
    and bd: "buildDescriptors (env_proto env) um schemas (concat (map binding_roots raws)) (protoPackage ?v) ?v =
       Some (Inr (lf_descriptors lf, names))"
    and rendered: "lf_versions lf = renderVersionsYAML ?v ?es"
    by (rule generate_parts [OF assms(1)])
  have es: "?es = map (entry_of_binding (protoPackage ?v) names) raws" by (simp add: layer_entries_def parts(1))
  obtain uses msgs where lib: "pl_new_files (env_proto env) uses (file_of (protoPackage ?v) ?v msgs) = None"
      "pl_marshal (env_proto env) uses (file_of (protoPackage ?v) ?v msgs) = Inr (lf_descriptors lf)"
    and roots: "\<forall>r \<in> set (concat (map binding_roots raws)). legal_ident (names r) \<and> names r \<in> md_name ` set msgs"
    by (rule descriptors_roots [OF bd])
  obtain fdps reg where reg: "unmarshal_fds L (lf_descriptors lf) = Inr fdps" "marshals L fdps"
      "distinct (map fdp_name fdps)" "new_files L fdps = Inr reg"
    and names: "\<forall>m \<in> set msgs. resolvable reg (protoPackage ?v @ ''.'' @ md_name m)"
    using assms(2) [unfolded descriptors_read_back_def, rule_format, OF lib] by (auto simp: file_of_def)
  have "yaml_sound e" if "e \<in> set ?es" for e
  proof -
    from that obtain r where r: "e = entry_of_binding (protoPackage ?v) names r" "r \<in> set raws" by (auto simp: es)
    then have n: "\<forall>n \<in> set (binding_roots r). yaml_plain (protoPackage ?v @ ''.'' @ names n)"
      using roots yaml_message by auto
    have "rb_method r \<in> set allowedMethods" "\<forall>x \<in> set (rb_errors r). error_code (fst x)"
      using raws r(2) by (auto simp: list.pred_set)
    moreover have "yaml_plain (ce_route e)" "distinct (map fst (ce_errors e))"
      using assms(5) that by (auto simp: plain_document_def list.pred_set)
    ultimately show ?thesis
      using n r(1) yaml_method quotable_code
      by (auto simp: yaml_sound_def entry_of_binding_def binding_roots_def list.pred_set [of yaml_plain]
          list.pred_set [of "\<lambda>(code, n). list_all quotable code"])
  qed
  then have "list_all yaml_sound ?es" by (simp add: list.pred_set)
  from versions_read_back [OF _ this, of ?v] assms(4,5)
  have "decode_versions L (lf_versions lf) = Inr \<lparr>yb_version = 1, yb_contracts = map (yaml_entry ?v) ?es\<rparr>"
    by (simp add: reads_yaml_def plain_document_def rendered)
  then have decodes: "layer_decodes L (lf_descriptors lf) (lf_openapi lf) (lf_versions lf) fdps reg (map (yaml_entry ?v) ?es)"
    using reg assms(3) by (simp add: layer_decodes_def)
  have sound: "list_all entry_sound ?es"
    using entries_sound [OF raws, of names ?v] roots by (simp add: es list_all_iff)
  have "resolvable reg n" if "e \<in> set ?es" "n \<in> set ([ce_request e, ce_response e] @ map snd (ce_errors e))" for e n
    using that roots names by (fastforce simp: es entry_of_binding_def binding_roots_def)
  then have resolves: "list_all (\<lambda>e. \<forall>n \<in> set ([ce_request e, ce_response e] @ map snd (ce_errors e)). resolvable reg n) ?es"
    by (auto simp: list_all_iff)
  have "?es \<noteq> []" using parts(2) by (simp add: es)
  from entries_load [OF decodes this sound v(2,1) resolves] Add_empty [OF assms(1,6)]
  show ?thesis by blast
qed

text \<open>The document of the last section, read back by libraries that keep what they need: the registry of
  a file knows the names of its package.\<close>

definition demo_readers :: "(unit, string) codecs" where
  "demo_readers = demo_codecs
     \<lparr>decode_versions := \<lambda>s. (case read_versions s of
        Some ycs \<Rightarrow> Inr \<lparr>yb_version = 1, yb_contracts = ycs\<rparr> | None \<Rightarrow> Inl ''not YAML''),
      new_files := \<lambda>fdps. Inr (\<lambda>n. if list_ex (\<lambda>f. prefix (fdp_name f @ ''.'') n) fdps
                                    then Some (MessageDescriptor n) else None)\<rparr>"

lemma demo_read_back: "descriptors_read_back (env_proto demo_env) demo_readers"
  by (simp add: descriptors_read_back_def demo_env_def demo_readers_def demo_codecs_def marshals_def resolvable_def)

lemma demo_entries: "routable (layer_entries demo_env ''api.json'')"
  "plain_document (lf_version demo_v3) (layer_entries demo_env ''api.json'')"
  "lf_version demo_v3 = ''v3''" "''v3'' \<noteq> fileResolution"
  "map ce_request (layer_entries demo_env ''api.json'') = [''wavefront.gen.vv3.Empty'']"
  by code_simp+

lemma added_layer_loads_witness:
  "\<exists>root b. Add healthy demo_env ''api.json'' ''/bundle'' False None = Some (root, None) \<and>
     Load demo_readers ''/bundle'' root = Inr b \<and> map request_message (contracts b) = [''wavefront.gen.vv3.Empty'']"
proof -
  have "json_unmarshal (text_codec demo_readers) (lf_openapi demo_v3) = Some (JObj fmempty)"
    by (simp add: demo_readers_def demo_codecs_def)
  moreover have "reads_yaml demo_readers" by (simp add: reads_yaml_def demo_readers_def)
  moreover have "machine_ok healthy (lf_version demo_v3) None" by (simp add: machine_ok_def fill_ok_def)
  ultimately obtain root where root: "Add healthy demo_env ''api.json'' ''/bundle'' False None = Some (root, None)"
    and load: "case Load demo_readers ''/bundle'' root of
       Inl e \<Rightarrow> lf_version demo_v3 = fileResolution \<or> \<not> routable (layer_entries demo_env ''api.json'')
     | Inr b \<Rightarrow> lf_version demo_v3 \<noteq> fileResolution \<and> routable (layer_entries demo_env ''api.json'') \<and>
         contracts b = map (plain_bound \<circ> entry_contract (lf_version demo_v3)) (layer_entries demo_env ''api.json'')"
    using added_layer_loads [OF demo_generates demo_read_back _ _ demo_entries(2)] by blast
  then obtain b where "Load demo_readers ''/bundle'' root = Inr b"
    "contracts b = map (plain_bound \<circ> entry_contract (lf_version demo_v3)) (layer_entries demo_env ''api.json'')"
    using demo_entries(1,3,4) by (auto split: sum.splits)
  moreover have "request_message (plain_bound (entry_contract v e)) = ce_request e" for v e
    by (simp add: plain_bound_def entry_contract_def contract.defs bound.defs)
  ultimately show ?thesis using root demo_entries(5) by (auto simp: comp_def)
qed

end
