(* ===== verification/Wire_Descriptor.thy ===== *)
theory Wire_Descriptor
  imports Gen_Messages
begin

text \<open>
  The descriptor \<open>internal/wireerror/errorproto.go\<close> builds in code for \<open>wavefront.v0.Error\<close>, in the
  descriptor types of the generator.  \<open>protodesc.NewFile\<close> is the parameter the generator has too.
\<close>

definition error_message :: message_desc where
  "error_message = Message ''Error''
     [plain_field ''code'' 1 LOptional (Some TString) '''' ''code'',
      plain_field ''message'' 2 LOptional (Some TString) '''' ''message''] [] [] False"

definition error_file :: file_desc where
  "error_file =
     \<lparr>fdesc_name = ''wavefront/v0/error.proto'', fdesc_package = ''wavefront.v0'', fdesc_dependency = [],
      fdesc_messages = [error_message]\<rparr>"

text \<open>The package initialisation: \<open>Inl\<close> is its panic, before \<open>main\<close> runs.\<close>

definition wireerror_init :: "proto_lib \<Rightarrow> string + message_desc" where
  "wireerror_init lib =
     (case pl_new_files lib False error_file of
        Some err \<Rightarrow> Inl (''wireerror: building wavefront.v0.Error descriptor: '' @ err)
      | None \<Rightarrow> Inr (hd (fdesc_messages error_file)))"

text \<open>The envelope is a message of the kind the generator makes: the properties \<open>code\<close> and \<open>message\<close> of a
  component would be lowered to it.\<close>

lemma error_message_ok: "message_ok cx ''Error'' [''code'', ''message''] error_message"
proof -
  have "list_all legal_ident [''code'', ''message'']" by code_simp
  then show ?thesis
    by (simp add: message_ok_def error_message_def plain_field_def field_typed_def optional_fields_def)
qed

definition error_component :: schema where
  "error_component = Schema '''' ''object'' '''' False
     (Some [(''message'', Some (typed_schema ''string'')), (''code'', Some (typed_schema ''string''))])
     None [] [] [] None None"

lemma error_message_generated: "buildMessage demo_context ''Error'' error_component = Some (Inr error_message)"
  by code_simp

end
