(* ===== verification/Spec2Isabelle.thy ===== *)
theory Spec2Isabelle
  imports Server_Life Tracing Drift_Effect Cli_Facts Gen_Roundtrip Wire_Descriptor
begin

text \<open>
  A verification development for wavefront, an HTTP edge proxy that serves frozen API contract
  versions over protobuf and translates them to the one live JSON upstream.

  \<^bold>\<open>The program.\<close>  An operator keeps a \<^emph>\<open>bundle\<close>: a directory with one layer for each contract version
  (\<open>descriptors.binpb\<close>, \<open>openapi.json\<close>, \<open>versions.yaml\<close>) and a \<open>resolution.yaml\<close> with the transforms
  that carry an old version to the current one.  \<open>wavefront-bundle\<close> adds, removes and retires layers
  and drafts transforms; \<open>wavefront\<close> loads the bundle at boot and on SIGHUP, negotiates a contract for
  each request, decodes protobuf, transforms and encodes JSON, calls the upstream, and brings the reply
  back the same way; every failure is a \<open>wavefront.v0.Error\<close> envelope with a code.

  \<^bold>\<open>Theories, bottom up.\<close>  Paths are below \<open>src/\<close>.

  \<^item> \<open>Go_Prelude\<close>, \<open>Go_Utf8\<close>, \<open>Go_Http\<close>, \<open>Go_Fs\<close>, \<open>Go_Disk\<close>, \<open>Go_Path\<close>, \<open>Go_Flag\<close>, \<open>Json\<close>: the parts of
    Go's standard library the program rests on, as far as it uses them (\<open>Go_Disk\<close>: with the calls a machine
    fails, and what a failing call leaves behind), and the fallible sequencing \<open>sbind\<close>,
    \<open>smap\<close>, \<open>sfold\<close> that stands for Go's early returns.  A Go string is its list of bytes.
  \<^item> \<open>Wire_Error\<close>, \<open>Wire_Descriptor\<close>: \<open>internal/wireerror\<close>.
  \<^item> \<open>Transform_Path\<close>, \<open>Transform\<close>, \<open>Transform_Walk\<close>, \<open>Transform_Facts\<close>: \<open>internal/transform\<close>.  The
    locale \<open>walker\<close> is what both walkers promise the four verbs; it is interpreted on \<open>walkLeaves\<close> and
    \<open>walkLeavesEnsureObjects\<close>.
  \<^item> \<open>Bundle\<close>, \<open>Bundle_Stanza\<close>, \<open>Bundle_Load\<close>, \<open>Bundle_Facts\<close>, \<open>Bundle_Properties\<close>, \<open>Bundle_Single\<close>:
    \<open>internal/bundle\<close>, from the files to the lookups; \<open>bundle_ok\<close> is the invariant of a loaded bundle,
    the locale \<open>rule_set\<close> the contract between \<open>selectorMatches\<close> and \<open>selectorOverlap\<close>.
  \<^item> \<open>Config\<close>, \<open>Negotiate\<close>, \<open>Adapter\<close>: \<open>internal/config\<close>, \<open>internal/negotiate\<close>, \<open>internal/adapter\<close>.
  \<^item> \<open>Server\<close>, \<open>Server_Facts\<close>, \<open>Server_Handler\<close>, \<open>Server_Properties\<close>, \<open>Server_Replies\<close>: the pipeline of
    \<open>internal/server/http.go\<close> with \<open>Recover\<close> around it.  The state of one request is the record \<open>px\<close>;
    an early return is an \<open>Inl\<close> of it, a panic an outcome of its own.
  \<^item> \<open>Server_Boundary\<close>: \<open>stdlib_boundary.go\<close>, one state shared by all connections and its steps.
  \<^item> \<open>Tracing\<close>: \<open>internal/tracing\<close>, with the exporter's queue, worker and shutdown as a step relation;
    the locale \<open>bounded_queue\<close> is the contract of the channel.
  \<^item> \<open>Probe\<close>, \<open>Server_Run\<close>, \<open>Server_Life\<close>: \<open>internal/probe\<close>, \<open>cmd/wavefront\<close>, \<open>metrics.go\<close>, and \<open>New\<close>,
    \<open>OpsHandler\<close> and \<open>Run\<close> of \<open>server.go\<close>; the process is the relation \<open>run_step\<close> on requests in
    flight, reloads, connection events, listener errors and the signal.
  \<^item> \<open>Gen_Names\<close>, \<open>Gen_Schema\<close>, \<open>Gen_Fields\<close>, \<open>Gen_Lowering\<close>, \<open>Gen_Messages\<close>, \<open>Gen_Openapi\<close>, \<open>Gen_Yaml\<close>,
    \<open>Gen_Layer\<close>, \<open>Gen_History\<close>, \<open>Gen_Roundtrip\<close>: \<open>internal/bundlegen/bundlegen.go\<close>, from identifiers to the
    commands on a bundle directory.  \<open>Gen_Lowering\<close> holds the rules of the lowering to proto3 and \<open>Gen_Yaml\<close>
    a reader of \<open>versions.yaml\<close>, both apart from the code; the locale \<open>bundle_command\<close> says that a command touches only the entries it owns, and is
    interpreted on \<open>writeLayer\<close>, \<open>Remove\<close> and \<open>Retire\<close>.
  \<^item> \<open>Drift\<close>, \<open>Drift_Facts\<close>, \<open>Drift_Effect\<close>: \<open>internal/bundlegen/drift.go\<close>; the locales \<open>pair_matcher\<close>
    and \<open>two_passes\<close> are the contract of the passes that pair removed with added fields.
  \<^item> \<open>Cli\<close>, \<open>Cli_Facts\<close>: \<open>cmd/wavefront-bundle\<close>.

  \<^bold>\<open>What is proved.\<close>  Each property stands right after a text block with its number.

  \<^item> Transforms: the parser of paths accepts exactly the printed forms and inverts the printer; the
    stanzas the loader accepts are exactly those that compile; each verb changes its leaves and nothing
    else, and a rename is undone by the opposite rename.
  \<^item> Bundles: a loaded bundle binds every route once, its messages resolve, its chains of transforms
    end, and the lookups are functions of the request that agree with each other whatever the order of
    the rules.
  \<^item> Requests: version negotiation, the gates before the body is read, the one call of the upstream, its
    headers, the dispatch on its status, the labels of every reply, and what a panic leaves on the wire.
  \<^item> The process: it serves a bundle that loaded from the moment it listens, whatever reloads fail; its
    counters equal the requests handled and refused at the boundary; it ends with status 1 when a
    listener fails and with status 0 after the signal, its shutdowns sharing one deadline.
  \<^item> Observation: the boundary counter refines a count of connections; the exporter is a bounded FIFO
    that drops and drains as specified; which \<open>traceparent\<close> headers are accepted, beyond the W3C form.
  \<^item> The generator: collecting schemas ends and is reachability; lowering a property is what the rules
    say, and ends exactly when its references do; when a message is well formed; what \<open>Add\<close> leaves behind,
    whether it succeeds, refuses or is failed by the machine half way; layers are frozen; and a layer that
    was added loads exactly when its routes are loadable, if its version and routes need no quoting.
  \<^item> The drafter and the commands: which pairs are proposed and which differences are passed over, that a
    drafted shim reshapes the old payload, and that a command touches nothing but the path its command
    line names, and nothing at all when it fails on a machine that does not.

  \<^bold>\<open>How code becomes definitions.\<close>  A struct is a record, a pointer or a missing value an option, an error
  an \<open>Inl\<close>.  A Go map is an association list with distinct keys in the order the code happens to range
  over it, a finite map where the order cannot matter.  Text of error messages and log fields is
  modelled where a client or an operator sees it.  Integers are unbounded where the code cannot
  overflow; the conversions of \<open>strconv\<close> check 64 bits, durations wrap at 64 bits in \<open>Config\<close>.

  \<^bold>\<open>Loops and fuel.\<close>  Loops are structural recursion or have a measure: \<open>walk_chain\<close> by the versions
  not yet seen, \<open>free_name\<close> by the suffixes still used, the string loops by length.  \<open>visit\<close> of the
  schema walk has fuel, one more than the number of components, and \<open>visit_fuel\<close> proves it enough; the
  parameter loop of \<open>Go_Http\<close> has a unit for each byte and consumes at least one in each turn.
  \<open>buildField\<close> may really not return, so it is a \<open>partial_function\<close> and its result an option; what
  calls it passes \<open>None\<close> on.

  \<^bold>\<open>Library code as parameters.\<close>  Protobuf encoding, reflection and descriptors (\<open>protocodec\<close>,
  \<open>reflection\<close>, \<open>proto_lib\<close>), YAML and JSON text (\<open>codecs\<close>, \<open>textlib\<close>, \<open>retire_yaml\<close>), \<open>url.Parse\<close> and
  float conversion (\<open>configlib\<close>), the upstream and the collector, random bytes and clocks (\<open>env\<close>,
  \<open>draws\<close>, \<open>gen_env\<close>, \<open>cli_env\<close>).  Where a property relies on them, a named hypothesis says what they
  are documented to do, and a witness instantiates it.

  \<^bold>\<open>Not modelled.\<close>  \<open>internal/bundletest\<close> is scaffolding that only tests import; \<open>packaging\<close> and
  \<open>scripts\<close> are release tooling.  The scheduling inside \<open>net/http\<close> appears as the order of
  events; its own timeouts, TLS, the pprof pages, the Prometheus exposition and request latency do not
  appear.  Calls that read files fail for what is in the tree only, and a failing \<open>os.MkdirAll\<close> makes
  nothing above the bundle directory; there are no symbolic links.  Case mapping is exact on ASCII and on the letters that map into it.
\<close>

end
